theory Spec2Isabelle
  imports Complex_Main
begin

section \<open>JavaScript values, thrown values and built-ins\<close>

text \<open>
  A JavaScript number is kept as an exact rational, \<open>NaN\<close> or an infinity. No function of
  the command-line client does arithmetic on a number: numbers are produced by
  \<open>Number(v)\<close>, compared with \<open>undefined\<close>, and handed on.
\<close>

datatype jsnum = NaN | Finite rat | PosInfinity | NegInfinity

text \<open>
  The values that flow through the client: \<open>undefined\<close>, JSON-like data, objects as
  key/value lists in insertion order (a key may be present and hold \<open>Undefined\<close>), the
  bytes of a \<open>Uint8Array\<close>, and commander's \<open>Command\<close> object, which the library passes
  to every action handler as the last argument.
\<close>

datatype jsval =
    Undefined
  | Null
  | Bool bool
  | Num jsnum
  | Str string
  | Arr "jsval list"
  | Obj "(string \<times> jsval) list"
  | Bytes string
  | CommandObj

text \<open>Property read \<open>o.k\<close>: a missing property reads as \<open>undefined\<close>.\<close>

fun getprop :: "jsval \<Rightarrow> string \<Rightarrow> jsval" where
  "getprop (Obj kvs) k = (case map_of kvs k of Some v \<Rightarrow> v | None \<Rightarrow> Undefined)"
| "getprop v k = Undefined"

text \<open>The keys an object owns (\<open>Object.keys\<close>, \<open>k in o\<close>).\<close>

fun keys :: "jsval \<Rightarrow> string list" where
  "keys (Obj kvs) = map fst kvs"
| "keys v = []"

text \<open>Truthiness, as \<open>if (x)\<close> and \<open>x ? a : b\<close> test it.\<close>

fun truthy :: "jsval \<Rightarrow> bool" where
  "truthy Undefined = False"
| "truthy Null = False"
| "truthy (Bool b) = b"
| "truthy (Num n) = (n \<noteq> NaN \<and> n \<noteq> Finite 0)"
| "truthy (Str s) = (s \<noteq> [])"
| "truthy v = True"

text \<open>
  What a \<open>catch\<close> can receive. The first four constructors are the classes \<open>printError\<close>
  tests with \<open>instanceof\<close>, each with its \<open>name\<close> and \<open>message\<close>; the two API errors
  carry \<open>statusCode\<close>, \<open>url\<close> and \<open>responseText\<close>, the validation error also
  \<open>validationError\<close>. \<open>CommanderError\<close> is what commander throws under
  \<open>exitOverride()\<close>: \<open>exitCode\<close>, \<open>code\<close>, \<open>message\<close>. \<open>NonError\<close> is a thrown value
  that is not an \<open>Error\<close>.
\<close>

datatype thrown =
    SeclaiAPIValidationError string string jsnum string "string option" jsval
  | SeclaiAPIStatusError string string jsnum string "string option"
  | SeclaiConfigurationError string string
  | Error string string
  | CommanderError int string string
  | NonError jsval

text \<open>
  The built-ins of the JavaScript runtime the client calls. They are not code of the
  client, so the model takes them as parameters:
  \<open>JSON_parse\<close> is \<open>JSON.parse(text)\<close> (\<open>Inl\<close> the message of the \<open>SyntaxError\<close>),
  \<open>JSON_stringify\<close> is \<open>JSON.stringify(value, null, 2)\<close> (\<open>None\<close> when it returns
  \<open>undefined\<close>), \<open>Number\<close> is \<open>Number(v)\<close> on a string, and \<open>ToString\<close> is the string
  conversion of \<open>String(v)\<close> and of a template literal.
\<close>

record builtins =
  JSON_parse :: "string \<Rightarrow> string + jsval"
  JSON_stringify :: "jsval \<Rightarrow> string option"
  Number :: "string \<Rightarrow> jsnum"
  ToString :: "jsval \<Rightarrow> string"

section \<open>The world of one invocation\<close>

text \<open>
  What the client can observe of the SDK: every \<open>new Seclai(opts)\<close> and every method
  call, with the arguments as passed.
\<close>

datatype sdk_event =
    Construct jsval
  | Call string "jsval list"

text \<open>
  The inputs of an invocation that the client reads but does not change: the built-ins,
  the whole text of standard input (\<open>Inl\<close> when the stream emits \<open>error\<close>),
  \<open>readFile\<close> of \<open>node:fs/promises\<close>, the environment variable \<open>SECLAI_API_URL\<close>, and
  the SDK: whether its constructor throws on the given options, what each method's promise
  settles to, and whether the installed client has \<open>runStreamingAgentAndWait\<close>.
  \<open>allowExcessArguments\<close> is the setting of that name of the commander library, whose
  default differs between the library's versions.
\<close>

record env =
  js :: builtins
  stdin :: "thrown + string"
  readFile :: "string \<Rightarrow> thrown + string"
  SECLAI_API_URL :: "string option"
  Seclai_new :: "jsval \<Rightarrow> thrown option"
  Seclai_method :: "string \<Rightarrow> jsval list \<Rightarrow> thrown + jsval"
  has_runStreamingAgentAndWait :: bool
  allowExcessArguments :: bool

text \<open>
  What an invocation changes. \<open>stdout\<close> and \<open>stderr\<close> are the chunks given to
  \<open>writeOut\<close> and \<open>writeErr\<close>, oldest first; \<open>exitCodes\<close> the arguments of the
  runtime's \<open>setExitCode\<close>, oldest first; \<open>observedExitCode\<close> is the local variable of
  \<open>runCli\<close> that its wrapped runtime updates; \<open>stdinReads\<close> counts the calls of
  \<open>readStdinText\<close>; \<open>sdkLog\<close> records the SDK events.
\<close>

record state =
  stdout :: "string list"
  stderr :: "string list"
  exitCodes :: "int list"
  observedExitCode :: int
  stdinReads :: nat
  sdkLog :: "sdk_event list"

definition initial :: state where
  "initial = \<lparr>stdout = [], stderr = [], exitCodes = [], observedExitCode = 0,
     stdinReads = 0, sdkLog = []\<rparr>"

text \<open>
  An \<open>async\<close> function is a state transformer that settles to a value (\<open>Inr\<close>) or to a
  thrown value (\<open>Inl\<close>). \<open>bind\<close> is \<open>await\<close> followed by the rest of the body;
  \<open>try_catch\<close> is \<open>try { ... } catch (err) { ... }\<close>.
\<close>

type_synonym 'a io = "state \<Rightarrow> (thrown + 'a) \<times> state"

definition done_io :: "'a \<Rightarrow> 'a io" where
  "done_io x = (\<lambda>s. (Inr x, s))"

definition throw :: "thrown \<Rightarrow> 'a io" where
  "throw e = (\<lambda>s. (Inl e, s))"

definition bind :: "'a io \<Rightarrow> ('a \<Rightarrow> 'b io) \<Rightarrow> 'b io" where
  "bind m f = (\<lambda>s. case m s of (Inl e, s') \<Rightarrow> (Inl e, s') | (Inr x, s') \<Rightarrow> f x s')"

definition try_catch :: "'a io \<Rightarrow> (thrown \<Rightarrow> 'a io) \<Rightarrow> 'a io" where
  "try_catch m h = (\<lambda>s. case m s of (Inl e, s') \<Rightarrow> h e s' | (Inr x, s') \<Rightarrow> (Inr x, s'))"

section \<open>The runtime adapter\<close>

definition writeOut :: "string \<Rightarrow> unit io" where
  "writeOut text = (\<lambda>s. (Inr (), s\<lparr>stdout := stdout s @ [text]\<rparr>))"

definition writeErr :: "string \<Rightarrow> unit io" where
  "writeErr text = (\<lambda>s. (Inr (), s\<lparr>stderr := stderr s @ [text]\<rparr>))"

text \<open>
  \<open>wrappedRt.setExitCode\<close> of \<open>runCli\<close>: it stores the code in \<open>observedExitCode\<close> and
  forwards it to the runtime's own setter.
\<close>

definition setExitCode :: "int \<Rightarrow> unit io" where
  "setExitCode code =
     (\<lambda>s. (Inr (), s\<lparr>observedExitCode := code, exitCodes := exitCodes s @ [code]\<rparr>))"

text \<open>\<open>readStdinText\<close>: the whole of standard input, or the stream's error.\<close>

definition readStdinText :: "env \<Rightarrow> string io" where
  "readStdinText e = (\<lambda>s. (stdin e, s\<lparr>stdinReads := Suc (stdinReads s)\<rparr>))"

definition readFile_io :: "env \<Rightarrow> string \<Rightarrow> string io" where
  "readFile_io e path = (\<lambda>s. (readFile e path, s))"

section \<open>Input resolution\<close>

text \<open>\<open>JSON.parse(text)\<close>, throwing a \<open>SyntaxError\<close> on malformed text.\<close>

definition parse_json :: "env \<Rightarrow> string \<Rightarrow> jsval io" where
  "parse_json e text =
     (case JSON_parse (js e) text of
        Inl msg \<Rightarrow> throw (Error ''SyntaxError'' msg)
      | Inr v \<Rightarrow> done_io v)"

record json_opts =
  json :: "string option"
  jsonFile :: "string option"

definition readJsonInput :: "env \<Rightarrow> json_opts \<Rightarrow> jsval io" where
  "readJsonInput e opts =
     (if json opts \<noteq> None \<and> jsonFile opts \<noteq> None then
        throw (Error ''Error'' ''Provide only one of --json or --json-file'')
      else case jsonFile opts of
        Some f \<Rightarrow>
          bind (if f = ''-'' then readStdinText e else readFile_io e f) (parse_json e)
      | None \<Rightarrow>
          (case json opts of
             Some j \<Rightarrow> bind (if j = ''-'' then readStdinText e else done_io j) (parse_json e)
           | None \<Rightarrow>
               throw (Error ''Error'' ''Missing JSON input. Provide --json or --json-file.'')))"

section \<open>Client construction and printing\<close>

text \<open>\<open>new Seclai(opts)\<close>: the call is recorded, then the constructor may throw.\<close>

definition new_Seclai :: "env \<Rightarrow> jsval \<Rightarrow> unit io" where
  "new_Seclai e opts =
     (\<lambda>s. (case Seclai_new e opts of Some err \<Rightarrow> Inl err | None \<Rightarrow> Inr (),
           s\<lparr>sdkLog := sdkLog s @ [Construct opts]\<rparr>))"

text \<open>\<open>await client.m(args)\<close>: the call is recorded, then its promise settles.\<close>

definition client_call :: "env \<Rightarrow> string \<Rightarrow> jsval list \<Rightarrow> jsval io" where
  "client_call e m args =
     (\<lambda>s. (Seclai_method e m args, s\<lparr>sdkLog := sdkLog s @ [Call m args]\<rparr>))"

definition createClient :: "env \<Rightarrow> jsval \<Rightarrow> unit io" where
  "createClient e opts =
     (let seclaiOpts0 = (if getprop opts ''apiKey'' \<noteq> Undefined
                         then [(''apiKey'', getprop opts ''apiKey'')] else []);
          baseUrl = (case SECLAI_API_URL e of
                       Some envUrl \<Rightarrow> if length envUrl > 0 then envUrl
                                      else ''https://api.seclai.com''
                     | None \<Rightarrow> ''https://api.seclai.com'')
      in new_Seclai e (Obj (seclaiOpts0 @ [(''baseUrl'', Str baseUrl)])))"

text \<open>
  \<open>printJson\<close>: one chunk on the output sink, the template literal
  \<open>`${JSON.stringify(value, null, 2)}\n`\<close>. When \<open>JSON.stringify\<close> returns
  \<open>undefined\<close>, the template literal reads \<open>undefined\<close>.
\<close>

definition printJson :: "env \<Rightarrow> jsval \<Rightarrow> unit io" where
  "printJson e v =
     writeOut ((case JSON_stringify (js e) v of
                  Some text \<Rightarrow> text
                | None \<Rightarrow> ''undefined'') @ ''\<newline>'')"

text \<open>
  The lines that the two API error branches of \<open>printError\<close> share: name and message,
  status, url and, when \<open>responseText\<close> is truthy, the response.
\<close>

definition print_status :: "env \<Rightarrow> string \<Rightarrow> string \<Rightarrow> jsnum \<Rightarrow> string \<Rightarrow> string option \<Rightarrow> unit io" where
  "print_status e name message statusCode url responseText =
     bind (writeErr (name @ '': '' @ message @ ''\<newline>'')) (\<lambda>_.
     bind (writeErr (''status: '' @ ToString (js e) (Num statusCode) @ ''\<newline>'')) (\<lambda>_.
     bind (writeErr (''url: '' @ url @ ''\<newline>'')) (\<lambda>_.
     (case responseText of
        Some t \<Rightarrow> if t \<noteq> [] then writeErr (''response: '' @ t @ ''\<newline>'') else done_io ()
      | None \<Rightarrow> done_io ()))))"

fun printError :: "env \<Rightarrow> thrown \<Rightarrow> unit io" where
  "printError e (SeclaiAPIValidationError name message statusCode url responseText validationError) =
     bind (print_status e name message statusCode url responseText) (\<lambda>_.
     if truthy validationError
     then printJson e (Obj [(''validationError'', validationError)])
     else done_io ())"
| "printError e (SeclaiAPIStatusError name message statusCode url responseText) =
     print_status e name message statusCode url responseText"
| "printError e (SeclaiConfigurationError name message) =
     writeErr (name @ '': '' @ message @ ''\<newline>'')"
| "printError e (Error name message) =
     writeErr (name @ '': '' @ message @ ''\<newline>'')"
| "printError e (CommanderError exitCode code message) =
     writeErr (''CommanderError: '' @ message @ ''\<newline>'')"
| "printError e (NonError v) =
     bind (writeErr (ToString (js e) v)) (\<lambda>_. writeErr ''\<newline>'')"

text \<open>\<open>run\<close>: the error normalizer around the body of every leaf action.\<close>

definition run :: "env \<Rightarrow> unit io \<Rightarrow> unit io" where
  "run e main = try_catch main (\<lambda>err. bind (printError e err) (\<lambda>_. setExitCode 1))"

section \<open>The command tree\<close>

text \<open>
  The leaf commands that \<open>createProgram\<close> declares. The group aliases (\<open>source\<close> for
  \<open>sources\<close>, \<open>agent-runs\<close> for \<open>runs\<close>) select the same leaves.
\<close>

datatype leaf =
    SourcesList
  | SourcesUpload
  | AgentsRun
  | AgentsRunsList
  | AgentsRunsGet
  | AgentsRunsDelete
  | RunsGet
  | RunsDelete
  | ContentsGet
  | ContentsDelete
  | ContentsEmbeddings

text \<open>
  An option is declared as a switch (\<open>--stream\<close>), as a string value (\<open>--sort <field>\<close>)
  or with the converter \<open>(v) => Number(v)\<close> (\<open>--page <n>\<close>). Options are named by the
  key commander stores them under (\<open>--account-id\<close> is \<open>accountId\<close>).
\<close>

datatype opt_kind = Switch | Plain | Numeric

fun declared_options :: "leaf \<Rightarrow> (string \<times> opt_kind) list" where
  "declared_options SourcesList =
     [(''page'', Numeric), (''limit'', Numeric), (''sort'', Plain), (''order'', Plain),
      (''accountId'', Plain)]"
| "declared_options SourcesUpload =
     [(''file'', Plain), (''title'', Plain), (''fileName'', Plain), (''mimeType'', Plain)]"
| "declared_options AgentsRun =
     [(''json'', Plain), (''jsonFile'', Plain), (''stream'', Switch), (''timeoutMs'', Numeric)]"
| "declared_options AgentsRunsList = [(''page'', Numeric), (''limit'', Numeric)]"
| "declared_options AgentsRunsGet = [(''includeStepOutputs'', Switch)]"
| "declared_options AgentsRunsDelete = []"
| "declared_options RunsGet = [(''includeStepOutputs'', Switch)]"
| "declared_options RunsDelete = []"
| "declared_options ContentsGet = [(''start'', Numeric), (''end'', Numeric)]"
| "declared_options ContentsDelete = []"
| "declared_options ContentsEmbeddings = [(''page'', Numeric), (''limit'', Numeric)]"

text \<open>The options declared with \<open>requiredOption\<close>.\<close>

fun mandatory_options :: "leaf \<Rightarrow> string list" where
  "mandatory_options SourcesUpload = [''file'']"
| "mandatory_options l = []"

text \<open>The number of \<open>.argument(...)\<close> declarations of each leaf.\<close>

fun declared_arguments :: "leaf \<Rightarrow> nat" where
  "declared_arguments SourcesList = 0"
| "declared_arguments l = 1"

subsection \<open>What commander does before it calls an action\<close>

text \<open>
  The argument parser is the commander library, not code of the client. The part of its
  contract the client relies on is written out here. A flag on the command line is a
  switch (\<open>--stream\<close>) or an option with its argument (\<open>--page 2\<close>, \<open>--page=2\<close>).
  Commander stores a key only for a flag that was given; a later occurrence of a flag
  replaces an earlier one. A usage error writes a line through the configured error writer
  and, under \<open>exitOverride()\<close>, throws a \<open>CommanderError\<close> with exit code 1; the library's
  wording of the line is abbreviated to the error code here.

  Commander makes its checks in this order: it parses the options the command declares,
  where an option without its argument is an error at once, and sets aside an option the
  command does not declare; then it checks the mandatory options; then it reports an
  option that was set aside; then it checks the number of operands.
\<close>

datatype cli_flag = Flag string | Opt string string

definition usage_error :: "string \<Rightarrow> 'a io" where
  "usage_error code =
     bind (writeErr (''error: '' @ code @ ''\<newline>'')) (\<lambda>_.
     throw (CommanderError 1 code (''error: '' @ code)))"

fun parse_flag :: "env \<Rightarrow> leaf \<Rightarrow> cli_flag \<Rightarrow> string + (string \<times> jsval)" where
  "parse_flag e l (Flag k) =
     (case map_of (declared_options l) k of
        Some Switch \<Rightarrow> Inr (k, Bool True)
      | Some _ \<Rightarrow> Inl ''commander.optionMissingArgument''
      | None \<Rightarrow> Inl ''commander.unknownOption'')"
| "parse_flag e l (Opt k v) =
     (case map_of (declared_options l) k of
        Some Plain \<Rightarrow> Inr (k, Str v)
      | Some Numeric \<Rightarrow> Inr (k, Num (Number (js e) v))
      | _ \<Rightarrow> Inl ''commander.unknownOption'')"

text \<open>Storing an option value: a repeated key is overwritten in place.\<close>

fun set_option :: "(string \<times> jsval) list \<Rightarrow> string \<Rightarrow> jsval \<Rightarrow> (string \<times> jsval) list" where
  "set_option [] k v = [(k, v)]"
| "set_option ((k', v') # kvs) k v =
     (if k' = k then (k, v) # kvs else (k', v') # set_option kvs k v)"

fun parse_flags :: "env \<Rightarrow> leaf \<Rightarrow> cli_flag list \<Rightarrow> (string \<times> jsval) list
    \<Rightarrow> string + (string \<times> jsval) list" where
  "parse_flags e l [] acc = Inr acc"
| "parse_flags e l (f # fs) acc =
     (case parse_flag e l f of
        Inl code \<Rightarrow> Inl code
      | Inr (k, v) \<Rightarrow> parse_flags e l fs (set_option acc k v))"

text \<open>
  The arguments of an action handler: the declared positional arguments, then the options
  object, then the command.
\<close>

definition action_arguments :: "nat \<Rightarrow> string list \<Rightarrow> (string \<times> jsval) list \<Rightarrow> jsval list" where
  "action_arguments n operands opts = map Str (take n operands) @ [Obj opts, CommandObj]"

text \<open>A flag that names an option the command declares, in the form it is declared in.\<close>

definition known_flag :: "env \<Rightarrow> leaf \<Rightarrow> cli_flag \<Rightarrow> bool" where
  "known_flag e l f \<longleftrightarrow> parse_flag e l f \<noteq> Inl ''commander.unknownOption''"

definition commander_leaf :: "env \<Rightarrow> leaf \<Rightarrow> string list \<Rightarrow> cli_flag list
    \<Rightarrow> jsval list io" where
  "commander_leaf e l operands flags =
     (case parse_flags e l (filter (known_flag e l) flags) [] of
        Inl code \<Rightarrow> usage_error code
      | Inr opts \<Rightarrow>
          if list_ex (\<lambda>k. map_of opts k = None) (mandatory_options l)
          then usage_error ''commander.missingMandatoryOptionValue''
          else if list_ex (\<lambda>f. \<not> known_flag e l f) flags
          then usage_error ''commander.unknownOption''
          else if length operands < declared_arguments l
          then usage_error ''commander.missingArgument''
          else if length operands > declared_arguments l \<and> \<not> allowExcessArguments e
          then usage_error ''commander.excessArguments''
          else done_io (action_arguments (declared_arguments l) operands opts))"

text \<open>The \<open>i\<close>-th parameter of a handler; a parameter beyond the arguments is \<open>undefined\<close>.\<close>

definition param :: "jsval list \<Rightarrow> nat \<Rightarrow> jsval" where
  "param args i = (if i < length args then args ! i else Undefined)"

subsection \<open>The actions\<close>

text \<open>\<open>program.opts()\<close>: the global options, \<open>--api-key\<close> when given.\<close>

definition program_opts :: "string option \<Rightarrow> jsval" where
  "program_opts apiKey = Obj (case apiKey of Some k \<Rightarrow> [(''apiKey'', Str k)] | None \<Rightarrow> [])"

definition str_opt :: "jsval \<Rightarrow> string option" where
  "str_opt v = (case v of Str s \<Rightarrow> Some s | _ \<Rightarrow> None)"

text \<open>\<open>readFile(path)\<close> on a value that is not a string throws a \<open>TypeError\<close>.\<close>

definition readFile_bytes :: "env \<Rightarrow> jsval \<Rightarrow> string io" where
  "readFile_bytes e v =
     (case v of
        Str path \<Rightarrow> readFile_io e path
      | _ \<Rightarrow> throw (Error ''TypeError'' ''The path argument must be of type string''))"

definition sources_list :: "env \<Rightarrow> jsval \<Rightarrow> jsval list \<Rightarrow> unit io" where
  "sources_list e global args =
     (let opts = param args 0 in
      run e (bind (createClient e global) (\<lambda>client.
             bind (client_call e ''listSources''
                     [Obj [(''page'', getprop opts ''page''),
                           (''limit'', getprop opts ''limit''),
                           (''sort'', getprop opts ''sort''),
                           (''order'', getprop opts ''order''),
                           (''accountId'', getprop opts ''accountId'')]])
                  (printJson e))))"

definition sources_upload :: "env \<Rightarrow> jsval \<Rightarrow> jsval list \<Rightarrow> unit io" where
  "sources_upload e global args =
     (let sourceConnectionId = param args 0; opts = param args 1 in
      run e (bind (createClient e global) (\<lambda>client.
             bind (readFile_bytes e (getprop opts ''file'')) (\<lambda>bytes.
             let uploadOpts =
                   [(''file'', Bytes bytes)]
                   @ (if getprop opts ''title'' \<noteq> Undefined
                      then [(''title'', getprop opts ''title'')] else [])
                   @ (if getprop opts ''fileName'' \<noteq> Undefined
                      then [(''fileName'', getprop opts ''fileName'')] else [])
                   @ (if getprop opts ''mimeType'' \<noteq> Undefined
                      then [(''mimeType'', getprop opts ''mimeType'')] else [])
             in bind (client_call e ''uploadFileToSource'' [sourceConnectionId, Obj uploadOpts])
                  (printJson e)))))"

definition agents_run :: "env \<Rightarrow> jsval \<Rightarrow> jsval list \<Rightarrow> unit io" where
  "agents_run e global args =
     (let agentId = param args 0; opts = param args 1 in
      run e (bind (createClient e global) (\<lambda>client.
             bind (readJsonInput e \<lparr>json = str_opt (getprop opts ''json''),
                                    jsonFile = str_opt (getprop opts ''jsonFile'')\<rparr>) (\<lambda>body.
             bind (if truthy (getprop opts ''stream'') then
                     (if \<not> has_runStreamingAgentAndWait e then
                        throw (Error ''Error''
                          (''This version of @seclai/sdk does not support streaming agent runs yet. ''
                           @ ''Upgrade @seclai/sdk to a version that includes runStreamingAgentAndWait.''))
                      else client_call e ''runStreamingAgentAndWait''
                             [agentId, body,
                              if getprop opts ''timeoutMs'' \<noteq> Undefined
                              then Obj [(''timeoutMs'', getprop opts ''timeoutMs'')]
                              else Undefined])
                   else client_call e ''runAgent'' [agentId, body])
                  (printJson e)))))"

definition agentRuns_list :: "env \<Rightarrow> jsval \<Rightarrow> jsval list \<Rightarrow> unit io" where
  "agentRuns_list e global args =
     (let agentId = param args 0; opts = param args 1 in
      run e (bind (createClient e global) (\<lambda>client.
             bind (client_call e ''listAgentRuns''
                     [agentId, Obj [(''page'', getprop opts ''page''),
                                    (''limit'', getprop opts ''limit'')]])
                  (printJson e))))"

text \<open>
  The handler of \<open>agents runs get\<close> has the parameters \<open>(agentId, runId, opts)\<close>, while
  the command declares the one argument \<open><runId>\<close>.
\<close>

definition agentRuns_get :: "env \<Rightarrow> jsval \<Rightarrow> jsval list \<Rightarrow> unit io" where
  "agentRuns_get e global args =
     (let agentId = param args 0; runId = param args 1; opts = param args 2 in
      run e (bind (createClient e global) (\<lambda>client.
             bind (client_call e ''getAgentRun''
                     [runId,
                      if truthy (getprop opts ''includeStepOutputs'')
                      then Obj [(''includeStepOutputs'', Bool True)] else Undefined])
                  (printJson e))))"

definition agentRuns_delete :: "env \<Rightarrow> jsval \<Rightarrow> jsval list \<Rightarrow> unit io" where
  "agentRuns_delete e global args =
     (let runId = param args 0 in
      run e (bind (createClient e global) (\<lambda>client.
             bind (client_call e ''deleteAgentRun'' [runId]) (printJson e))))"

definition runs_get :: "env \<Rightarrow> jsval \<Rightarrow> jsval list \<Rightarrow> unit io" where
  "runs_get e global args =
     (let runId = param args 0; opts = param args 1 in
      run e (bind (createClient e global) (\<lambda>client.
             bind (client_call e ''getAgentRun''
                     [runId,
                      if truthy (getprop opts ''includeStepOutputs'')
                      then Obj [(''includeStepOutputs'', Bool True)] else Undefined])
                  (printJson e))))"

definition runs_delete :: "env \<Rightarrow> jsval \<Rightarrow> jsval list \<Rightarrow> unit io" where
  "runs_delete e global args =
     (let runId = param args 0 in
      run e (bind (createClient e global) (\<lambda>client.
             bind (client_call e ''deleteAgentRun'' [runId]) (printJson e))))"

definition contents_get :: "env \<Rightarrow> jsval \<Rightarrow> jsval list \<Rightarrow> unit io" where
  "contents_get e global args =
     (let sourceConnectionContentVersion = param args 0; opts = param args 1 in
      run e (bind (createClient e global) (\<lambda>client.
             bind (client_call e ''getContentDetail''
                     [sourceConnectionContentVersion,
                      Obj [(''start'', getprop opts ''start''), (''end'', getprop opts ''end'')]])
                  (printJson e))))"

definition contents_delete :: "env \<Rightarrow> jsval \<Rightarrow> jsval list \<Rightarrow> unit io" where
  "contents_delete e global args =
     (let sourceConnectionContentVersion = param args 0 in
      run e (bind (createClient e global) (\<lambda>client.
             bind (client_call e ''deleteContent'' [sourceConnectionContentVersion]) (\<lambda>_.
             printJson e (Obj [(''ok'', Bool True)])))))"

definition contents_embeddings :: "env \<Rightarrow> jsval \<Rightarrow> jsval list \<Rightarrow> unit io" where
  "contents_embeddings e global args =
     (let sourceConnectionContentVersion = param args 0; opts = param args 1 in
      run e (bind (createClient e global) (\<lambda>client.
             bind (client_call e ''listContentEmbeddings''
                     [sourceConnectionContentVersion,
                      Obj [(''page'', getprop opts ''page''), (''limit'', getprop opts ''limit'')]])
                  (printJson e))))"

fun action :: "leaf \<Rightarrow> env \<Rightarrow> jsval \<Rightarrow> jsval list \<Rightarrow> unit io" where
  "action SourcesList = sources_list"
| "action SourcesUpload = sources_upload"
| "action AgentsRun = agents_run"
| "action AgentsRunsList = agentRuns_list"
| "action AgentsRunsGet = agentRuns_get"
| "action AgentsRunsDelete = agentRuns_delete"
| "action RunsGet = runs_get"
| "action RunsDelete = runs_delete"
| "action ContentsGet = contents_get"
| "action ContentsDelete = contents_delete"
| "action ContentsEmbeddings = contents_embeddings"

subsection \<open>The earlier revision of \<open>agents runs get\<close>\<close>

text \<open>
  The repository also holds an earlier revision of the client. There \<open>createClient\<close>
  passes only the API key, and \<open>agents runs get\<close> declares the two arguments
  \<open><agentId>\<close> and \<open><runId>\<close>, with the handler \<open>(agentId, runId)\<close> calling
  \<open>getAgentRun(agentId, runId)\<close>.
\<close>

definition createClient_earlier :: "env \<Rightarrow> jsval \<Rightarrow> unit io" where
  "createClient_earlier e opts =
     new_Seclai e (Obj (if getprop opts ''apiKey'' \<noteq> Undefined
                        then [(''apiKey'', getprop opts ''apiKey'')] else []))"

definition agentRuns_get_earlier :: "env \<Rightarrow> jsval \<Rightarrow> jsval list \<Rightarrow> unit io" where
  "agentRuns_get_earlier e global args =
     (let agentId = param args 0; runId = param args 1 in
      run e (bind (createClient_earlier e global) (\<lambda>client.
             bind (client_call e ''getAgentRun'' [agentId, runId]) (printJson e))))"

section \<open>The process entrypoint\<close>

text \<open>
  What the command line selects. Besides a leaf with its operands and flags (and the
  global \<open>--api-key\<close>), the parser has its own short-circuit paths, each of which writes
  through the writers given to \<open>configureOutput\<close> and, under \<open>exitOverride()\<close>, throws a
  \<open>CommanderError\<close> instead of leaving the process:
  \<^item> \<open>--help\<close> writes the help text through \<open>writeOut\<close>, exit code 0;
  \<^item> \<open>--version\<close> writes the version and a newline through \<open>writeOut\<close>, exit code 0;
  \<^item> a group without a leaf: the group has subcommands and no action handler, for which
    commander calls \<open>help({ error: true })\<close>, writing the help text through \<open>writeErr\<close>
    with exit code 1;
  \<^item> an unknown command is a usage error.
  The help text and the version string are the library's and the package's, and are
  carried by the constructors.
\<close>

datatype invocation =
    HelpRequested string
  | VersionRequested string
  | GroupOnly string
  | UnknownCommand
  | Dispatch "string option" leaf "string list" "cli_flag list"

fun parseAsync :: "env \<Rightarrow> invocation \<Rightarrow> unit io" where
  "parseAsync e (HelpRequested helpText) =
     bind (writeOut helpText) (\<lambda>_.
     throw (CommanderError 0 ''commander.helpDisplayed'' ''(outputHelp)''))"
| "parseAsync e (VersionRequested cliVersion) =
     bind (writeOut (cliVersion @ ''\<newline>'')) (\<lambda>_.
     throw (CommanderError 0 ''commander.version'' cliVersion))"
| "parseAsync e (GroupOnly helpText) =
     bind (writeErr helpText) (\<lambda>_.
     throw (CommanderError 1 ''commander.help'' ''(outputHelp)''))"
| "parseAsync e UnknownCommand = usage_error ''commander.unknownCommand''"
| "parseAsync e (Dispatch apiKey l operands flags) =
     bind (commander_leaf e l operands flags) (action l e (program_opts apiKey))"

text \<open>\<open>typeof err?.exitCode === "number" ? err.exitCode : undefined\<close>\<close>

fun maybeExitCode :: "thrown \<Rightarrow> int option" where
  "maybeExitCode (CommanderError exitCode code message) = Some exitCode"
| "maybeExitCode err = None"

definition runCli :: "env \<Rightarrow> invocation \<Rightarrow> int io" where
  "runCli e argv =
     bind (\<lambda>s. (Inr (), s\<lparr>observedExitCode := 0\<rparr>)) (\<lambda>_.
     bind (try_catch (bind (parseAsync e argv) (\<lambda>_. done_io 0))
             (\<lambda>err. case maybeExitCode err of
                       Some c \<Rightarrow> done_io c
                     | None \<Rightarrow> bind (printError e err) (\<lambda>_. done_io 1))) (\<lambda>exitCode.
     bind (\<lambda>s. (Inr (observedExitCode s), s)) (\<lambda>observed.
     let finalExitCode = (if observed \<noteq> 0 then observed else exitCode) in
     bind (setExitCode finalExitCode) (\<lambda>_. done_io finalExitCode))))"

section \<open>Constructor options and test doubles\<close>

text \<open>
  The options \<open>createClient\<close> hands to the constructor when the global options hold the
  given \<open>--api-key\<close> (or none).
\<close>

definition ctor_opts :: "env \<Rightarrow> string option \<Rightarrow> jsval" where
  "ctor_opts e apiKey =
     Obj ((case apiKey of Some k \<Rightarrow> [(''apiKey'', Str k)] | None \<Rightarrow> [])
          @ [(''baseUrl'', Str (case SECLAI_API_URL e of
                                  Some envUrl \<Rightarrow> if length envUrl > 0 then envUrl
                                                 else ''https://api.seclai.com''
                                | None \<Rightarrow> ''https://api.seclai.com''))])"

text \<open>
  Concrete inputs for the examples. \<open>test_js\<close> answers as the JavaScript built-ins do on
  the few texts and values the examples use (a line feed after a JSON text is white space
  to \<open>JSON.parse\<close>); on anything else it answers as for a malformed text, a value without
  a JSON form, or a string that is not a number. \<open>test_env\<close> follows the SDK mock of
  \<open>tests/cli.test.ts\<close> with \<open>SECLAI_API_KEY\<close> unset: the constructor throws a
  \<open>SeclaiConfigurationError\<close> without an API key, \<open>deleteContent\<close> resolves to
  \<open>undefined\<close> and every other method to \<open>{ ok: true }\<close>.
\<close>

definition trim_newlines :: "string \<Rightarrow> string" where
  "trim_newlines t = rev (dropWhile (\<lambda>c. c = CHR 10) (rev t))"

definition test_js :: builtins where
  "test_js = \<lparr>
     JSON_parse = (\<lambda>t. if trim_newlines t = ''{}'' then Inr (Obj [])
                        else if trim_newlines t = ''{'' @ ''\<newline>'' @ ''  \"ok\": true'' @ ''\<newline>'' @ ''}''
                        then Inr (Obj [(''ok'', Bool True)])
                        else Inl ''Unexpected token''),
     JSON_stringify = (\<lambda>v. if v = Obj [] then Some ''{}''
                            else if v = Obj [(''ok'', Bool True)]
                            then Some (''{'' @ ''\<newline>'' @ ''  \"ok\": true'' @ ''\<newline>'' @ ''}'')
                            else if v = Obj [(''validationError'', Obj [(''detail'', Str ''bad'')])]
                            then Some (''{'' @ ''\<newline>'' @ ''  \"validationError\": {'' @ ''\<newline>''
                                       @ ''    \"detail\": \"bad\"'' @ ''\<newline>'' @ ''  }''
                                       @ ''\<newline>'' @ ''}'')
                            else None),
     Number = (\<lambda>v. if v = ''2'' then Finite 2 else if v = ''10'' then Finite 10 else NaN),
     ToString = (\<lambda>v. if v = Num (Finite 422) then ''422'' else ''undefined'')\<rparr>"

definition test_env :: env where
  "test_env = \<lparr>
     js = test_js,
     stdin = Inr ''{}'',
     readFile = (\<lambda>p. if p = ''run.json'' then Inr ''{}''
                      else Inl (Error ''Error'' ''ENOENT: no such file or directory'')),
     SECLAI_API_URL = None,
     Seclai_new = (\<lambda>opts. if truthy (getprop opts ''apiKey'') then None
                           else Some (SeclaiConfigurationError ''SeclaiConfigurationError''
                                        ''Missing API key'')),
     Seclai_method = (\<lambda>m args. if m = ''deleteContent'' then Inr Undefined
                               else Inr (Obj [(''ok'', Bool True)])),
     has_runStreamingAgentAndWait = True,
     allowExcessArguments = True\<rparr>"

section \<open>Auxiliary predicates\<close>

text \<open>
  \<open>quiet m\<close>: the step \<open>m\<close> never calls \<open>setExitCode\<close>. \<open>sets_one m\<close>: the step
  \<open>m\<close> settles normally and calls \<open>setExitCode\<close> at most once, with the code 1.
\<close>

definition quiet :: "'a io \<Rightarrow> bool" where
  "quiet m \<longleftrightarrow> (\<forall>s. exitCodes (snd (m s)) = exitCodes s
                    \<and> observedExitCode (snd (m s)) = observedExitCode s)"

definition sets_one :: "unit io \<Rightarrow> bool" where
  "sets_one m \<longleftrightarrow> (\<forall>s. fst (m s) = Inr () \<and>
      (exitCodes (snd (m s)) = exitCodes s \<and> observedExitCode (snd (m s)) = observedExitCode s
       \<or> exitCodes (snd (m s)) = exitCodes s @ [1] \<and> observedExitCode (snd (m s)) = 1))"

text \<open>
  \<open>keeps_stdin m\<close>: the step \<open>m\<close> does not read standard input. \<open>stdin_once m\<close>: it
  reads standard input at most once.
\<close>

definition keeps_stdin :: "'a io \<Rightarrow> bool" where
  "keeps_stdin m \<longleftrightarrow> (\<forall>s. stdinReads (snd (m s)) = stdinReads s)"

definition stdin_once :: "'a io \<Rightarrow> bool" where
  "stdin_once m \<longleftrightarrow> (\<forall>s. stdinReads (snd (m s)) \<le> Suc (stdinReads s))"

section \<open>The JSON algorithms of ECMAScript\<close>

text \<open>
  \<open>JSON.stringify(value, null, 2)\<close> and \<open>JSON.parse(text)\<close> as ECMA-262 specifies them,
  written over the value type of this theory. They say what the parameters
  \<open>JSON_stringify\<close> and \<open>JSON_parse\<close> compute on JSON data. A string is its sequence of
  UTF-8 bytes. The conversions between numbers and their texts stay parameters: the
  printer takes \<open>ToString\<close>, the parser takes \<open>Number\<close>.
\<close>

subsection \<open>Lexical classes\<close>

text \<open>JSON white space is space, tab, line feed and carriage return.\<close>

definition is_ws :: "char \<Rightarrow> bool" where
  "is_ws c \<longleftrightarrow> c \<in> set [CHR '' '', CHR 0x09, CHR 0x0A, CHR 0x0D]"

definition skip_ws :: "string \<Rightarrow> string" where
  "skip_ws s = dropWhile is_ws s"

text \<open>
  A number token is the longest run of the characters a JSON number can contain; it is a
  number when it has the shape \<open>-? (0 | [1-9][0-9]*) (. [0-9]+)? ([eE] [+-]? [0-9]+)?\<close>.
\<close>

definition is_digit :: "char \<Rightarrow> bool" where
  "is_digit c \<longleftrightarrow> c \<in> set ''0123456789''"

definition is_num_char :: "char \<Rightarrow> bool" where
  "is_num_char c \<longleftrightarrow> c \<in> set ''0123456789+-.eE''"

definition json_number :: "string \<Rightarrow> bool" where
  "json_number tok =
     (let t1 = (case tok of c # r \<Rightarrow> if c = CHR ''-'' then r else tok | [] \<Rightarrow> tok);
          ip = takeWhile is_digit t1;
          t2 = dropWhile is_digit t1;
          fracOK = (case t2 of c # r \<Rightarrow> c \<noteq> CHR ''.'' \<or> takeWhile is_digit r \<noteq> [] | [] \<Rightarrow> True);
          t3 = (case t2 of c # r \<Rightarrow> if c = CHR ''.'' then dropWhile is_digit r else t2 | [] \<Rightarrow> t2);
          expOK = (case t3 of
                     [] \<Rightarrow> True
                   | c # r \<Rightarrow> (c = CHR ''e'' \<or> c = CHR ''E'')
                       \<and> (let ds = (case r of d # r' \<Rightarrow> if d = CHR ''+'' \<or> d = CHR ''-'' then r' else r
                                      | [] \<Rightarrow> r)
                          in ds \<noteq> [] \<and> list_all is_digit ds))
      in (ip = ''0'' \<or> (ip \<noteq> [] \<and> hd ip \<noteq> CHR ''0'')) \<and> fracOK \<and> expOK)"

subsection \<open>Strings\<close>

text \<open>
  \<open>QuoteJSONString\<close> escapes the quotation mark, the backslash and the control characters
  below \<open>0x20\<close> (the short forms for backspace, form feed, line feed, carriage return and
  tab, \<open>\u00XX\<close> otherwise). \<open>unquote\<close> reads the rest of a string after its opening
  quotation mark, and gives the string and the text after the closing one; a \<open>\uXXXX\<close>
  escape becomes the UTF-8 bytes of its code unit. A surrogate code unit has no UTF-8
  form, and \<open>unquote\<close> refuses it.
\<close>

definition hex_digit :: "nat \<Rightarrow> char" where
  "hex_digit n = ''0123456789abcdef'' ! (n mod 16)"

definition hex_value :: "char \<Rightarrow> nat option" where
  "hex_value c =
     (if is_digit c then Some (of_char c - 48)
      else if c \<in> set ''abcdef'' then Some (of_char c - 87)
      else if c \<in> set ''ABCDEF'' then Some (of_char c - 55)
      else None)"

definition escape_char :: "char \<Rightarrow> string" where
  "escape_char c =
     (if c = CHR 0x22 then [CHR 0x5C, CHR 0x22]
      else if c = CHR 0x5C then [CHR 0x5C, CHR 0x5C]
      else if c = CHR 0x08 then [CHR 0x5C, CHR ''b'']
      else if c = CHR 0x0C then [CHR 0x5C, CHR ''f'']
      else if c = CHR 0x0A then [CHR 0x5C, CHR ''n'']
      else if c = CHR 0x0D then [CHR 0x5C, CHR ''r'']
      else if c = CHR 0x09 then [CHR 0x5C, CHR ''t'']
      else if of_char c < (32::nat)
      then [CHR 0x5C, CHR ''u'', CHR ''0'', CHR ''0'',
            hex_digit (of_char c div 16), hex_digit (of_char c mod 16)]
      else [c])"

definition QuoteJSONString :: "string \<Rightarrow> string" where
  "QuoteJSONString s = CHR 0x22 # concat (map escape_char s) @ [CHR 0x22]"

definition utf8 :: "nat \<Rightarrow> string" where
  "utf8 n =
     (if n < 128 then [char_of n]
      else if n < 2048 then [char_of (192 + n div 64), char_of (128 + n mod 64)]
      else [char_of (224 + n div 4096), char_of (128 + (n div 64) mod 64),
            char_of (128 + n mod 64)])"

definition code_unit :: "nat \<Rightarrow> string option" where
  "code_unit n = (if 55296 \<le> n \<and> n < 57344 then None else Some (utf8 n))"

definition unescape :: "char \<Rightarrow> char option" where
  "unescape c =
     (if c = CHR 0x22 then Some (CHR 0x22)
      else if c = CHR 0x5C then Some (CHR 0x5C)
      else if c = CHR ''/'' then Some (CHR ''/'')
      else if c = CHR ''b'' then Some (CHR 0x08)
      else if c = CHR ''f'' then Some (CHR 0x0C)
      else if c = CHR ''n'' then Some (CHR 0x0A)
      else if c = CHR ''r'' then Some (CHR 0x0D)
      else if c = CHR ''t'' then Some (CHR 0x09)
      else None)"

fun unquote :: "string \<Rightarrow> (string \<times> string) option" where
  "unquote [] = None"
| "unquote (c # cs) =
     (if c = CHR 0x22 then Some ([], cs)
      else if c = CHR 0x5C then
        (case cs of
           [] \<Rightarrow> None
         | d # ds \<Rightarrow>
             if d = CHR ''u'' then
               (case ds of
                  h1 # h2 # h3 # h4 # r \<Rightarrow>
                    (case (hex_value h1, hex_value h2, hex_value h3, hex_value h4) of
                       (Some a, Some b, Some c', Some d') \<Rightarrow>
                         (case (code_unit (((a * 16 + b) * 16 + c') * 16 + d'), unquote r) of
                            (Some u, Some (t, rest)) \<Rightarrow> Some (u @ t, rest)
                          | _ \<Rightarrow> None)
                     | _ \<Rightarrow> None)
                | _ \<Rightarrow> None)
             else
               (case unescape d of
                  Some x \<Rightarrow> (case unquote ds of Some (t, rest) \<Rightarrow> Some (x # t, rest)
                             | None \<Rightarrow> None)
                | None \<Rightarrow> None))
      else if of_char c < (32::nat) then None
      else (case unquote cs of Some (t, rest) \<Rightarrow> Some (c # t, rest) | None \<Rightarrow> None))"

subsection \<open>Serialization\<close>

text \<open>
  \<open>SerializeJSONProperty\<close> with the gap of two spaces, at the current indentation;
  \<open>None\<close> is the result \<open>undefined\<close>. An \<open>undefined\<close> element of an array is written
  \<open>null\<close>, a key with an \<open>undefined\<close> value is left out, \<open>NaN\<close> and the infinities are
  written \<open>null\<close>. Bytes and the command object are not JSON data and are given no text
  here.
\<close>

fun join :: "string \<Rightarrow> string list \<Rightarrow> string" where
  "join sep [] = []"
| "join sep [x] = x"
| "join sep (x # y # ys) = x @ sep @ join sep (y # ys)"

fun SerializeJSONProperty :: "(jsval \<Rightarrow> string) \<Rightarrow> string \<Rightarrow> jsval \<Rightarrow> string option"
  and SerializeJSONArray :: "(jsval \<Rightarrow> string) \<Rightarrow> string \<Rightarrow> jsval list \<Rightarrow> string list"
  and SerializeJSONObject :: "(jsval \<Rightarrow> string) \<Rightarrow> string \<Rightarrow> (string \<times> jsval) list \<Rightarrow> string list"
where
  "SerializeJSONProperty toStr indent Undefined = None"
| "SerializeJSONProperty toStr indent Null = Some ''null''"
| "SerializeJSONProperty toStr indent (Bool b) = Some (if b then ''true'' else ''false'')"
| "SerializeJSONProperty toStr indent (Num n) =
     Some (case n of Finite q \<Rightarrow> toStr (Num n) | _ \<Rightarrow> ''null'')"
| "SerializeJSONProperty toStr indent (Str s) = Some (QuoteJSONString s)"
| "SerializeJSONProperty toStr indent (Arr vs) =
     Some (case SerializeJSONArray toStr (indent @ ''  '') vs of
             [] \<Rightarrow> ''[]''
           | partial \<Rightarrow> ''['' @ ''\<newline>'' @ indent @ ''  ''
                 @ join ('','' @ ''\<newline>'' @ indent @ ''  '') partial
                 @ ''\<newline>'' @ indent @ '']'')"
| "SerializeJSONProperty toStr indent (Obj kvs) =
     Some (case SerializeJSONObject toStr (indent @ ''  '') kvs of
             [] \<Rightarrow> ''{}''
           | partial \<Rightarrow> ''{'' @ ''\<newline>'' @ indent @ ''  ''
                 @ join ('','' @ ''\<newline>'' @ indent @ ''  '') partial
                 @ ''\<newline>'' @ indent @ ''}'')"
| "SerializeJSONProperty toStr indent (Bytes b) = None"
| "SerializeJSONProperty toStr indent CommandObj = None"
| "SerializeJSONArray toStr indent [] = []"
| "SerializeJSONArray toStr indent (v # vs) =
     (case SerializeJSONProperty toStr indent v of None \<Rightarrow> ''null'' | Some t \<Rightarrow> t)
     # SerializeJSONArray toStr indent vs"
| "SerializeJSONObject toStr indent [] = []"
| "SerializeJSONObject toStr indent ((k, v) # kvs) =
     (case SerializeJSONProperty toStr indent v of
        None \<Rightarrow> SerializeJSONObject toStr indent kvs
      | Some t \<Rightarrow> (QuoteJSONString k @ '': '' @ t) # SerializeJSONObject toStr indent kvs)"

subsection \<open>Parsing\<close>

text \<open>
  A recursive-descent parser for the JSON grammar. Every call that goes one level deeper
  or one element further spends one unit of fuel; \<open>parse_text\<close> starts with twice the
  length of the text plus one, and accepts a value that is followed by white space only.
  A repeated key keeps its first position and takes its last value. The members of an
  object are kept in the order of the text; JavaScript lists the keys that are array
  indices first, so the two agree on a text that has such keys first, as every text
  written from a JavaScript object has. An escape \<open>\uXXXX\<close> of a surrogate code unit is
  refused, since a string is its UTF-8 bytes here, while \<open>JSON.parse\<close> accepts it.
\<close>

fun parse_value :: "(string \<Rightarrow> jsnum) \<Rightarrow> nat \<Rightarrow> string \<Rightarrow> (jsval \<times> string) option"
  and parse_elements :: "(string \<Rightarrow> jsnum) \<Rightarrow> nat \<Rightarrow> string \<Rightarrow> jsval list \<Rightarrow> (jsval \<times> string) option"
  and parse_members :: "(string \<Rightarrow> jsnum) \<Rightarrow> nat \<Rightarrow> string \<Rightarrow> (string \<times> jsval) list
      \<Rightarrow> (jsval \<times> string) option"
where
  "parse_value toNum 0 s = None"
| "parse_value toNum (Suc n) s =
     (case skip_ws s of
        [] \<Rightarrow> None
      | c # cs \<Rightarrow>
          if c = CHR ''['' then
            (case skip_ws cs of
               [] \<Rightarrow> None
             | d # r \<Rightarrow> if d = CHR '']'' then Some (Arr [], r) else parse_elements toNum n cs [])
          else if c = CHR ''{'' then
            (case skip_ws cs of
               [] \<Rightarrow> None
             | d # r \<Rightarrow> if d = CHR ''}'' then Some (Obj [], r) else parse_members toNum n cs [])
          else if c = CHR 0x22 then
            (case unquote cs of Some (t, r) \<Rightarrow> Some (Str t, r) | None \<Rightarrow> None)
          else if take 4 (c # cs) = ''true'' then Some (Bool True, drop 4 (c # cs))
          else if take 5 (c # cs) = ''false'' then Some (Bool False, drop 5 (c # cs))
          else if take 4 (c # cs) = ''null'' then Some (Null, drop 4 (c # cs))
          else if json_number (takeWhile is_num_char (c # cs))
          then Some (Num (toNum (takeWhile is_num_char (c # cs))),
                     dropWhile is_num_char (c # cs))
          else None)"
| "parse_elements toNum 0 s acc = None"
| "parse_elements toNum (Suc n) s acc =
     (case parse_value toNum n s of
        None \<Rightarrow> None
      | Some (v, r) \<Rightarrow>
          (case skip_ws r of
             [] \<Rightarrow> None
           | c # r' \<Rightarrow>
               if c = CHR '','' then parse_elements toNum n r' (acc @ [v])
               else if c = CHR '']'' then Some (Arr (acc @ [v]), r')
               else None))"
| "parse_members toNum 0 s acc = None"
| "parse_members toNum (Suc n) s acc =
     (case skip_ws s of
        [] \<Rightarrow> None
      | q # cs \<Rightarrow>
          if q \<noteq> CHR 0x22 then None
          else
            (case unquote cs of
               None \<Rightarrow> None
             | Some (k, r) \<Rightarrow>
                 (case skip_ws r of
                    [] \<Rightarrow> None
                  | c # r1 \<Rightarrow>
                      if c \<noteq> CHR '':'' then None
                      else
                        (case parse_value toNum n r1 of
                           None \<Rightarrow> None
                         | Some (v, r2) \<Rightarrow>
                             (case skip_ws r2 of
                                [] \<Rightarrow> None
                              | d # r3 \<Rightarrow>
                                  if d = CHR '','' then parse_members toNum n r3 (set_option acc k v)
                                  else if d = CHR ''}'' then Some (Obj (set_option acc k v), r3)
                                  else None)))))"

definition parse_text :: "(string \<Rightarrow> jsnum) \<Rightarrow> string \<Rightarrow> jsval option" where
  "parse_text toNum text =
     (case parse_value toNum (Suc (2 * length text)) text of
        Some (v, r) \<Rightarrow> if skip_ws r = [] then Some v else None
      | None \<Rightarrow> None)"

subsection \<open>JSON-serializable values\<close>

text \<open>
  The values \<open>JSON.stringify\<close> writes without loss: \<open>null\<close>, booleans, strings, finite
  numbers whose text is a JSON number that converts back to the number, arrays of such
  values, and objects with distinct keys holding such values.
\<close>

fun json_value :: "(jsval \<Rightarrow> string) \<Rightarrow> (string \<Rightarrow> jsnum) \<Rightarrow> jsval \<Rightarrow> bool" where
  "json_value toStr toNum Undefined = False"
| "json_value toStr toNum Null = True"
| "json_value toStr toNum (Bool b) = True"
| "json_value toStr toNum (Num n) =
     (case n of
        Finite q \<Rightarrow> json_number (toStr (Num n)) \<and> toNum (toStr (Num n)) = n
      | _ \<Rightarrow> False)"
| "json_value toStr toNum (Str s) = True"
| "json_value toStr toNum (Arr vs) = list_all (json_value toStr toNum) vs"
| "json_value toStr toNum (Obj kvs) =
     (distinct (map fst kvs) \<and> list_all (\<lambda>kv. json_value toStr toNum (snd kv)) kvs)"
| "json_value toStr toNum (Bytes b) = False"
| "json_value toStr toNum CommandObj = False"

text \<open>The characters a JSON value can begin with.\<close>

definition value_start :: "char \<Rightarrow> bool" where
  "value_start c \<longleftrightarrow> c \<in> set (CHR 0x22 # ''[{tfn-0123456789'')"

text \<open>
  A test double whose JSON built-ins are the two algorithms above, with the number
  conversions of \<open>test_js\<close> extended by the number 2.
\<close>

definition codec_js :: builtins where
  "codec_js = \<lparr>
     JSON_parse = (\<lambda>text. case parse_text (Number test_js) text of
                            Some v \<Rightarrow> Inr v
                          | None \<Rightarrow> Inl ''Unexpected token''),
     JSON_stringify =
       SerializeJSONProperty
         (\<lambda>v. if v = Num (Finite 2) then ''2'' else ToString test_js v) [],
     Number = Number test_js,
     ToString = (\<lambda>v. if v = Num (Finite 2) then ''2'' else ToString test_js v)\<rparr>"

section \<open>Properties\<close>

subsection \<open>Basic facts about the building blocks\<close>

lemma parse_flags_known:
  "parse_flags e l flags acc = Inr opts \<Longrightarrow> filter (known_flag e l) flags = flags"
proof (induction flags arbitrary: acc)
  case Nil
  then show ?case by simp
next
  case (Cons f fs)
  then show ?case
    by (cases "parse_flag e l f") (auto simp: known_flag_def)
qed

lemma filter_all_known:
  "\<not> list_ex (\<lambda>f. \<not> known_flag e l f) flags \<Longrightarrow> filter (known_flag e l) flags = flags"
  by (induction flags) auto

text \<open>
  When every flag is one the command declares, the options are parsed from the flags as
  given; otherwise the unknown option is reported unless an earlier check fails.
\<close>

lemma commander_leaf_eq:
  "commander_leaf e l operands flags =
     (case parse_flags e l flags [] of
        Inr opts \<Rightarrow>
          if list_ex (\<lambda>k. map_of opts k = None) (mandatory_options l)
          then usage_error ''commander.missingMandatoryOptionValue''
          else if length operands < declared_arguments l
          then usage_error ''commander.missingArgument''
          else if length operands > declared_arguments l \<and> \<not> allowExcessArguments e
          then usage_error ''commander.excessArguments''
          else done_io (action_arguments (declared_arguments l) operands opts)
      | Inl code \<Rightarrow>
          (case parse_flags e l (filter (known_flag e l) flags) [] of
             Inl code' \<Rightarrow> usage_error code'
           | Inr opts \<Rightarrow>
               if list_ex (\<lambda>k. map_of opts k = None) (mandatory_options l)
               then usage_error ''commander.missingMandatoryOptionValue''
               else usage_error ''commander.unknownOption''))"
proof (cases "parse_flags e l flags []")
  case (Inr opts)
  have f: "filter (known_flag e l) flags = flags" by (rule parse_flags_known[OF Inr])
  have "\<not> list_ex (\<lambda>f. \<not> known_flag e l f) flags"
    using f by (metis (mono_tags, lifting) Bex_set filter_id_conv)
  with Inr f show ?thesis by (simp add: commander_leaf_def)
next
  case (Inl code)
  show ?thesis
  proof (cases "list_ex (\<lambda>f. \<not> known_flag e l f) flags")
    case True
    with Inl show ?thesis by (simp add: commander_leaf_def split: sum.splits)
  next
    case False
    with Inl filter_all_known[OF False] show ?thesis by (simp add: commander_leaf_def)
  qed
qed

lemma createClient_eq:
  "createClient e opts s =
     (let c = Obj ((if getprop opts ''apiKey'' \<noteq> Undefined
                    then [(''apiKey'', getprop opts ''apiKey'')] else [])
                   @ [(''baseUrl'', Str (case SECLAI_API_URL e of
                         None \<Rightarrow> ''https://api.seclai.com''
                       | Some u \<Rightarrow> if u = [] then ''https://api.seclai.com'' else u))])
      in ((case Seclai_new e c of Some err \<Rightarrow> Inl err | None \<Rightarrow> Inr ()),
          s\<lparr>sdkLog := sdkLog s @ [Construct c]\<rparr>))"
  by (simp add: createClient_def new_Seclai_def Let_def split: option.splits)

lemma createClient_program_opts:
  "createClient e (program_opts apiKey) s =
     ((case Seclai_new e (ctor_opts e apiKey) of Some err \<Rightarrow> Inl err | None \<Rightarrow> Inr ()),
      s\<lparr>sdkLog := sdkLog s @ [Construct (ctor_opts e apiKey)]\<rparr>)"
  by (cases apiKey)
     (simp_all add: createClient_def program_opts_def ctor_opts_def new_Seclai_def Let_def)

subsection \<open>Client construction\<close>

text \<open>
  C10. \<open>createClient\<close> always constructs the client with an explicit \<open>baseUrl\<close>: the
  value of \<open>SECLAI_API_URL\<close> when it is set and not empty, and
  \<open>https://api.seclai.com\<close> otherwise (an empty value counts as unset). The options
  contain the key \<open>apiKey\<close> exactly when the global options hold an API key, with that
  value, and no key besides these two.
\<close>

theorem createClient_explicit_baseUrl:
  "\<exists>c. createClient e opts s =
           ((case Seclai_new e c of Some err \<Rightarrow> Inl err | None \<Rightarrow> Inr ()),
            s\<lparr>sdkLog := sdkLog s @ [Construct c]\<rparr>)
     \<and> getprop c ''baseUrl'' =
         Str (case SECLAI_API_URL e of
                None \<Rightarrow> ''https://api.seclai.com''
              | Some u \<Rightarrow> if u = [] then ''https://api.seclai.com'' else u)
     \<and> (''apiKey'' \<in> set (keys c) \<longleftrightarrow> getprop opts ''apiKey'' \<noteq> Undefined)
     \<and> getprop c ''apiKey'' = getprop opts ''apiKey''
     \<and> set (keys c) \<subseteq> {''apiKey'', ''baseUrl''}"
proof -
  define u where "u = (case SECLAI_API_URL e of
                None \<Rightarrow> ''https://api.seclai.com''
              | Some u \<Rightarrow> if u = [] then ''https://api.seclai.com'' else u)"
  define c where "c = Obj ((if getprop opts ''apiKey'' \<noteq> Undefined
                    then [(''apiKey'', getprop opts ''apiKey'')] else [])
                   @ [(''baseUrl'', Str u)])"
  have 1: "createClient e opts s =
           ((case Seclai_new e c of Some err \<Rightarrow> Inl err | None \<Rightarrow> Inr ()),
            s\<lparr>sdkLog := sdkLog s @ [Construct c]\<rparr>)"
    by (simp add: createClient_eq c_def u_def Let_def)
  have 2: "getprop c ''baseUrl'' = Str u" by (simp add: c_def)
  have 3: "''apiKey'' \<in> set (keys c) \<longleftrightarrow> getprop opts ''apiKey'' \<noteq> Undefined"
    by (cases "getprop opts ''apiKey'' = Undefined") (simp_all add: c_def)
  have 4: "getprop c ''apiKey'' = getprop opts ''apiKey''" by (simp add: c_def)
  have 5: "set (keys c) \<subseteq> {''apiKey'', ''baseUrl''}"
    by (cases "getprop opts ''apiKey'' = Undefined") (simp_all add: c_def)
  from 1 2 3 4 5 show ?thesis unfolding u_def by blast
qed

theorem createClient_explicit_baseUrl_witness:
  "\<exists>c. createClient (test_env\<lparr>SECLAI_API_URL := Some []\<rparr>) (program_opts (Some ''k'')) initial
           = (Inr (), initial\<lparr>sdkLog := sdkLog initial @ [Construct c]\<rparr>)
     \<and> getprop c ''baseUrl'' = Str ''https://api.seclai.com''
     \<and> ''apiKey'' \<in> set (keys c)
     \<and> getprop c ''apiKey'' = Str ''k''"
proof -
  have a: "SECLAI_API_URL (test_env\<lparr>SECLAI_API_URL := Some []\<rparr>) = Some []" by simp
  have b: "getprop (program_opts (Some ''k'')) ''apiKey'' = Str ''k''"
    by (simp add: program_opts_def)
  obtain c where c:
    "createClient (test_env\<lparr>SECLAI_API_URL := Some []\<rparr>) (program_opts (Some ''k'')) initial =
       ((case Seclai_new (test_env\<lparr>SECLAI_API_URL := Some []\<rparr>) c of
           Some err \<Rightarrow> Inl err | None \<Rightarrow> Inr ()),
        initial\<lparr>sdkLog := sdkLog initial @ [Construct c]\<rparr>)"
    "getprop c ''baseUrl'' = Str ''https://api.seclai.com''"
    "''apiKey'' \<in> set (keys c)" "getprop c ''apiKey'' = Str ''k''"
    using createClient_explicit_baseUrl
            [of "test_env\<lparr>SECLAI_API_URL := Some []\<rparr>" "program_opts (Some ''k'')" initial]
    unfolding a b by auto
  have "Seclai_new (test_env\<lparr>SECLAI_API_URL := Some []\<rparr>) c = None"
    using c(4) by (simp add: test_env_def)
  with c show ?thesis by auto
qed

lemma printJson_eq:
  "printJson e v s = (Inr (), s\<lparr>stdout := stdout s @
      [(case JSON_stringify (js e) v of Some text \<Rightarrow> text | None \<Rightarrow> ''undefined'')
       @ ''\<newline>'']\<rparr>)"
  by (simp add: printJson_def writeOut_def)

lemma print_status_eq:
  "print_status e name message statusCode url responseText s =
     (Inr (), s\<lparr>stderr := stderr s @
        [name @ '': '' @ message @ ''\<newline>'',
         ''status: '' @ ToString (js e) (Num statusCode) @ ''\<newline>'',
         ''url: '' @ url @ ''\<newline>'']
        @ (case responseText of
             Some t \<Rightarrow> if t \<noteq> [] then [''response: '' @ t @ ''\<newline>''] else []
           | None \<Rightarrow> [])\<rparr>)"
  by (simp add: print_status_def bind_def writeErr_def done_io_def split: option.splits)

lemma printError_frame:
  "fst (printError e err s) = Inr ()"
  "exitCodes (snd (printError e err s)) = exitCodes s"
  "observedExitCode (snd (printError e err s)) = observedExitCode s"
  "stdinReads (snd (printError e err s)) = stdinReads s"
  "sdkLog (snd (printError e err s)) = sdkLog s"
  by (cases err; simp add: print_status_eq printJson_eq bind_def writeErr_def done_io_def)+

lemma quiet_bind: "quiet m \<Longrightarrow> (\<And>x. quiet (f x)) \<Longrightarrow> quiet (bind m f)"
  unfolding quiet_def bind_def
  by (auto split: prod.splits sum.splits) (metis snd_conv)+

lemma quiet_prims:
  "quiet (done_io x)" "quiet (throw err)" "quiet (writeOut t)" "quiet (writeErr t)"
  "quiet (readStdinText e)" "quiet (readFile_io e p)" "quiet (new_Seclai e c)"
  "quiet (client_call e m args)" "quiet (printJson e v)" "quiet (parse_json e t)"
  "quiet (createClient e g)" "quiet (readFile_bytes e v)" "quiet (usage_error code)"
  by (simp_all add: quiet_def done_io_def throw_def writeOut_def writeErr_def readStdinText_def
      readFile_io_def new_Seclai_def client_call_def printJson_eq parse_json_def createClient_eq
      readFile_bytes_def usage_error_def bind_def Let_def split: sum.splits jsval.splits)

lemma quiet_readJsonInput: "quiet (readJsonInput e opts)"
  by (simp add: readJsonInput_def quiet_prims quiet_bind split: option.splits)

lemma quiet_commander_leaf: "quiet (commander_leaf e l operands flags)"
  by (simp add: commander_leaf_eq quiet_prims split: sum.splits)

lemma run_sets_one: "quiet main \<Longrightarrow> sets_one (run e main)"
  unfolding quiet_def sets_one_def run_def try_catch_def bind_def setExitCode_def
  apply (auto split: prod.splits sum.splits)
  apply (metis snd_conv fst_conv printError_frame sum.distinct(1))+
  done

lemma action_sets_one: "sets_one (action l e g args)"
  by (cases l)
     (simp_all add: sources_list_def sources_upload_def agents_run_def agentRuns_list_def
        agentRuns_get_def agentRuns_delete_def runs_get_def runs_delete_def contents_get_def
        contents_delete_def contents_embeddings_def Let_def run_sets_one quiet_bind quiet_prims
        quiet_readJsonInput)

lemma parseAsync_exit_codes:
  assumes "parseAsync e argv s = (r, s1)"
  shows "exitCodes s1 = exitCodes s \<and> observedExitCode s1 = observedExitCode s
       \<or> exitCodes s1 = exitCodes s @ [1] \<and> observedExitCode s1 = 1"
proof (cases argv)
  case (Dispatch apiKey l operands flags)
  obtain r0 s0 where c: "commander_leaf e l operands flags s = (r0, s0)"
    by (cases "commander_leaf e l operands flags s")
  have q: "exitCodes s0 = exitCodes s \<and> observedExitCode s0 = observedExitCode s"
    using quiet_commander_leaf[of e l operands flags] c unfolding quiet_def
    by (metis snd_conv)
  show ?thesis
  proof (cases r0)
    case (Inl err)
    with c assms Dispatch have "s1 = s0" by (simp add: bind_def)
    with q show ?thesis by simp
  next
    case (Inr args)
    with c assms Dispatch have "s1 = snd (action l e (program_opts apiKey) args s0)"
      by (simp add: bind_def)
    with q action_sets_one[of l e "program_opts apiKey" args] show ?thesis
      unfolding sets_one_def by metis
  qed
qed (use assms in \<open>auto simp: bind_def writeOut_def writeErr_def throw_def usage_error_def\<close>)

subsection \<open>The final exit code\<close>

text \<open>
  C6. During dispatch the exit code is set at most once, and then to 1, so the code
  \<open>runCli\<close> observes is 0 or 1. \<open>runCli\<close> returns the observed code when it is not 0,
  and otherwise the parser's code: 0 when parsing returned normally, the exit code that a
  thrown \<open>CommanderError\<close> carries (0 for help and version, non-zero for a usage error),
  and 1 for any other thrown value, which \<open>printError\<close> reports first. Its last act is to
  hand the returned code to the exit-code setter, and it changes nothing else.
\<close>

theorem runCli_final_exit_code:
  assumes "parseAsync e argv (s\<lparr>observedExitCode := 0\<rparr>) = (r, s1)"
  shows "(exitCodes s1 = exitCodes s \<and> observedExitCode s1 = 0
          \<or> exitCodes s1 = exitCodes s @ [1] \<and> observedExitCode s1 = 1)
       \<and> (let parserCode = (case r of
                               Inr _ \<Rightarrow> 0
                             | Inl (CommanderError c code message) \<Rightarrow> c
                             | Inl _ \<Rightarrow> 1);
               finalExitCode = (if observedExitCode s1 \<noteq> 0 then observedExitCode s1
                                else parserCode);
               s1' = (case r of
                        Inr _ \<Rightarrow> s1
                      | Inl (CommanderError c code message) \<Rightarrow> s1
                      | Inl err \<Rightarrow> snd (printError e err s1))
           in runCli e argv s =
                (Inr finalExitCode,
                 s1'\<lparr>observedExitCode := finalExitCode,
                      exitCodes := exitCodes s1 @ [finalExitCode]\<rparr>))"
proof -
  have inv: "exitCodes s1 = exitCodes s \<and> observedExitCode s1 = 0
          \<or> exitCodes s1 = exitCodes s @ [1] \<and> observedExitCode s1 = 1"
    using parseAsync_exit_codes[OF assms] by simp
  have fin: "let parserCode = (case r of
                               Inr _ \<Rightarrow> 0
                             | Inl (CommanderError c code message) \<Rightarrow> c
                             | Inl _ \<Rightarrow> 1);
               finalExitCode = (if observedExitCode s1 \<noteq> 0 then observedExitCode s1
                                else parserCode);
               s1' = (case r of
                        Inr _ \<Rightarrow> s1
                      | Inl (CommanderError c code message) \<Rightarrow> s1
                      | Inl err \<Rightarrow> snd (printError e err s1))
           in runCli e argv s =
                (Inr finalExitCode,
                 s1'\<lparr>observedExitCode := finalExitCode,
                      exitCodes := exitCodes s1 @ [finalExitCode]\<rparr>)"
  proof (cases r)
    case (Inr u)
    with assms show ?thesis
      by (simp add: runCli_def bind_def try_catch_def done_io_def setExitCode_def Let_def)
  next
    case (Inl err)
    obtain s1' where p: "printError e err s1 = (Inr (), s1')"
      using printError_frame(1)[of e err s1] by (cases "printError e err s1") auto
    have f: "exitCodes s1' = exitCodes s1" "observedExitCode s1' = observedExitCode s1"
      using printError_frame(2,3)[of e err s1] p by auto
    from Inl assms p f show ?thesis
      by (cases err)
         (simp_all add: runCli_def bind_def try_catch_def done_io_def setExitCode_def Let_def)
  qed
  from inv fin show ?thesis by blast
qed

theorem runCli_final_exit_code_witness:
  "runCli test_env (Dispatch None SourcesList [] []) initial =
     (Inr 1, initial\<lparr>stderr := [''SeclaiConfigurationError: Missing API key\<newline>''],
        observedExitCode := 1, exitCodes := [1, 1],
        sdkLog := [Construct (Obj [(''baseUrl'', Str ''https://api.seclai.com'')])]\<rparr>)
   \<and> runCli test_env (VersionRequested ''1.2.3'') initial =
       (Inr 0, initial\<lparr>stdout := [''1.2.3'' @ ''\<newline>''], exitCodes := [0]\<rparr>)
   \<and> runCli test_env (HelpRequested ''Usage: seclai [options] [command]'') initial =
       (Inr 0, initial\<lparr>stdout := [''Usage: seclai [options] [command]''], exitCodes := [0]\<rparr>)
   \<and> runCli test_env UnknownCommand initial =
       (Inr 1, initial\<lparr>stderr := [''error: commander.unknownCommand\<newline>''],
          observedExitCode := 1, exitCodes := [1]\<rparr>)
   \<and> runCli test_env (Dispatch (Some ''k'') SourcesList [] [Opt ''bogus'' ''1'']) initial =
       (Inr 1, initial\<lparr>stderr := [''error: commander.unknownOption\<newline>''],
          observedExitCode := 1, exitCodes := [1]\<rparr>)"
proof -
  let ?s0 = "initial\<lparr>observedExitCode := 0\<rparr>"
  have 1: "parseAsync test_env (Dispatch None SourcesList [] []) ?s0 =
     (Inr (), initial\<lparr>stderr := [''SeclaiConfigurationError: Missing API key\<newline>''],
          observedExitCode := 1, exitCodes := [1],
          sdkLog := [Construct (Obj [(''baseUrl'', Str ''https://api.seclai.com'')])]\<rparr>)"
    by (simp add: commander_leaf_eq action_arguments_def sources_list_def run_def param_def
       program_opts_def createClient_eq test_env_def initial_def bind_def try_catch_def
       done_io_def writeErr_def setExitCode_def Let_def)
  have 2: "parseAsync test_env (VersionRequested ''1.2.3'') ?s0 =
     (Inl (CommanderError 0 ''commander.version'' ''1.2.3''),
      initial\<lparr>stdout := [''1.2.3'' @ ''\<newline>'']\<rparr>)"
    by (simp add: initial_def bind_def writeOut_def throw_def)
  have 3: "parseAsync test_env (HelpRequested ''Usage: seclai [options] [command]'') ?s0 =
     (Inl (CommanderError 0 ''commander.helpDisplayed'' ''(outputHelp)''),
      initial\<lparr>stdout := [''Usage: seclai [options] [command]'']\<rparr>)"
    by (simp add: initial_def bind_def writeOut_def throw_def)
  have 4: "parseAsync test_env UnknownCommand ?s0 =
     (Inl (CommanderError 1 ''commander.unknownCommand'' ''error: commander.unknownCommand''),
      initial\<lparr>stderr := [''error: commander.unknownCommand\<newline>'']\<rparr>)"
    by (simp add: initial_def usage_error_def bind_def writeErr_def throw_def)
  have 5: "parseAsync test_env (Dispatch (Some ''k'') SourcesList [] [Opt ''bogus'' ''1'']) ?s0 =
     (Inl (CommanderError 1 ''commander.unknownOption'' ''error: commander.unknownOption''),
      initial\<lparr>stderr := [''error: commander.unknownOption\<newline>'']\<rparr>)"
    by (simp add: initial_def commander_leaf_eq known_flag_def usage_error_def bind_def
        writeErr_def throw_def)
  show ?thesis
    using runCli_final_exit_code[OF 1] runCli_final_exit_code[OF 2]
      runCli_final_exit_code[OF 3] runCli_final_exit_code[OF 4] runCli_final_exit_code[OF 5]
    by (auto simp: Let_def initial_def)
qed

subsection \<open>A group without a leaf\<close>

text \<open>
  C7, as the code has it. For a command line that selects a group and no leaf, the parser
  writes the usage help through the error writer and signals exit code 1; \<open>runCli\<close>
  returns that code, 1, and sets it as the exit code. Nothing is written to the output
  sink and no client is constructed.
\<close>

theorem runCli_group_only:
  "runCli e (GroupOnly helpText) s =
     (Inr 1, s\<lparr>stderr := stderr s @ [helpText], observedExitCode := 1,
               exitCodes := exitCodes s @ [1]\<rparr>)"
  by (simp add: runCli_def bind_def try_catch_def writeErr_def throw_def done_io_def
      setExitCode_def Let_def)

theorem runCli_group_only_counterexample:
  "runCli test_env (GroupOnly ''Usage: seclai sources [options] [command]'') initial =
     (Inr 1, initial\<lparr>stderr := [''Usage: seclai sources [options] [command]''],
                      observedExitCode := 1, exitCodes := [1]\<rparr>)"
  by (simp add: runCli_def bind_def try_catch_def writeErr_def throw_def done_io_def
      setExitCode_def Let_def initial_def)

subsection \<open>JSON body resolution\<close>

lemma keeps_bind:
  "keeps_stdin m \<Longrightarrow> (\<And>x. keeps_stdin (f x)) \<Longrightarrow> keeps_stdin (bind m f)"
  unfolding keeps_stdin_def bind_def
  by (auto split: prod.splits sum.splits) (metis snd_conv)+

lemma once_bind_left:
  "stdin_once m \<Longrightarrow> (\<And>x. keeps_stdin (f x)) \<Longrightarrow> stdin_once (bind m f)"
  unfolding keeps_stdin_def stdin_once_def bind_def
  by (auto split: prod.splits sum.splits) (metis snd_conv)+

lemma once_bind_right:
  "keeps_stdin m \<Longrightarrow> (\<And>x. stdin_once (f x)) \<Longrightarrow> stdin_once (bind m f)"
  unfolding keeps_stdin_def stdin_once_def bind_def
  by (auto split: prod.splits sum.splits) (metis snd_conv le_SucI le_refl)+

lemma keeps_once: "keeps_stdin m \<Longrightarrow> stdin_once m"
  unfolding keeps_stdin_def stdin_once_def by simp

lemma keeps_prims:
  "keeps_stdin (done_io x)" "keeps_stdin (throw err)" "keeps_stdin (writeOut t)"
  "keeps_stdin (writeErr t)" "keeps_stdin (setExitCode c)"
  "keeps_stdin (readFile_io e p)"
  "keeps_stdin (new_Seclai e c')" "keeps_stdin (client_call e m args)"
  "keeps_stdin (printJson e v)" "keeps_stdin (parse_json e t)"
  "keeps_stdin (createClient e g)" "keeps_stdin (readFile_bytes e v)"
  "keeps_stdin (usage_error code)" "keeps_stdin (printError e err)"
  by (simp_all add: keeps_stdin_def done_io_def throw_def writeOut_def writeErr_def
      setExitCode_def printError_frame
      readFile_io_def new_Seclai_def client_call_def printJson_eq parse_json_def createClient_eq
      readFile_bytes_def usage_error_def bind_def Let_def split: sum.splits jsval.splits)

lemma once_readStdinText: "stdin_once (readStdinText e)"
  by (simp add: stdin_once_def readStdinText_def)

lemma once_readJsonInput: "stdin_once (readJsonInput e opts)"
  by (auto simp: stdin_once_def readJsonInput_def bind_def done_io_def throw_def
      readStdinText_def readFile_io_def parse_json_def
      split: option.splits sum.splits prod.splits)

lemma keeps_run: "keeps_stdin main \<Longrightarrow> keeps_stdin (run e main)"
  unfolding run_def try_catch_def keeps_stdin_def bind_def setExitCode_def
  by (auto split: prod.splits sum.splits) (metis snd_conv printError_frame(4))+

lemma once_run: "stdin_once main \<Longrightarrow> stdin_once (run e main)"
  unfolding run_def try_catch_def stdin_once_def bind_def setExitCode_def
  by (auto split: prod.splits sum.splits) (metis snd_conv printError_frame(4))+

lemma keeps_commander_leaf: "keeps_stdin (commander_leaf e l operands flags)"
  by (simp add: commander_leaf_eq keeps_prims split: sum.splits)

lemma once_action: "stdin_once (action l e g args)"
proof (cases l)
  case AgentsRun
  have "stdin_once (agents_run e g args)"
    unfolding agents_run_def Let_def
    by (intro once_run once_bind_right once_bind_left keeps_prims once_readJsonInput keeps_bind)
       (simp_all add: keeps_prims)
  with AgentsRun show ?thesis by simp
qed (simp_all add: sources_list_def sources_upload_def agentRuns_list_def
        agentRuns_get_def agentRuns_delete_def runs_get_def runs_delete_def contents_get_def
        contents_delete_def contents_embeddings_def Let_def
        keeps_once keeps_run keeps_bind keeps_prims)

lemma once_parseAsync: "stdin_once (parseAsync e argv)"
proof (cases argv)
  case (Dispatch apiKey l operands flags)
  then show ?thesis
    by (simp add: once_bind_right keeps_commander_leaf once_action)
qed (simp_all add: keeps_once keeps_bind keeps_prims)

lemma once_runCli: "stdinReads (snd (runCli e argv s)) \<le> Suc (stdinReads s)"
proof -
  have "stdinReads (snd (runCli e argv s)) =
        stdinReads (snd (parseAsync e argv (s\<lparr>observedExitCode := 0\<rparr>)))"
    apply (auto simp: runCli_def try_catch_def bind_def setExitCode_def done_io_def Let_def
      split: prod.splits sum.splits option.splits)
    apply (metis fst_conv snd_conv printError_frame sum.distinct(1))+
    done
  also have "\<dots> \<le> Suc (stdinReads (s\<lparr>observedExitCode := 0\<rparr>))"
    using once_parseAsync[of e argv] unfolding stdin_once_def by blast
  finally show ?thesis by simp
qed

text \<open>
  C5. \<open>readJsonInput\<close> on \<open>{json?, jsonFile?}\<close>: with both present it throws
  \<open>Provide only one of --json or --json-file\<close> and reads nothing; with \<open>jsonFile\<close> the
  sentinel \<open>-\<close> it reads standard input, with another \<open>jsonFile\<close> it reads that file; with
  \<open>json\<close> the sentinel \<open>-\<close> it reads standard input, with another \<open>json\<close> it takes the
  string itself; the text is parsed with \<open>JSON.parse\<close>, whose \<open>SyntaxError\<close> on a
  malformed text is thrown on; with neither it throws \<open>Missing JSON input\<close>. Standard
  input is read at most once by \<open>readJsonInput\<close>, and at most once by a whole run of
  \<open>runCli\<close>.
\<close>

theorem readJsonInput_resolution:
  "(let parsed = (\<lambda>text. case JSON_parse (js e) text of
                            Inl msg \<Rightarrow> Inl (Error ''SyntaxError'' msg)
                          | Inr v \<Rightarrow> Inr v)
    in (json opts \<noteq> None \<and> jsonFile opts \<noteq> None \<longrightarrow>
          readJsonInput e opts s =
            (Inl (Error ''Error'' ''Provide only one of --json or --json-file''), s))
     \<and> (json opts = None \<and> jsonFile opts = Some ''-'' \<longrightarrow>
          readJsonInput e opts s =
            ((case stdin e of Inl err \<Rightarrow> Inl err | Inr text \<Rightarrow> parsed text),
             s\<lparr>stdinReads := Suc (stdinReads s)\<rparr>))
     \<and> (\<forall>f. json opts = None \<and> jsonFile opts = Some f \<and> f \<noteq> ''-'' \<longrightarrow>
          readJsonInput e opts s =
            ((case readFile e f of Inl err \<Rightarrow> Inl err | Inr text \<Rightarrow> parsed text), s))
     \<and> (json opts = Some ''-'' \<and> jsonFile opts = None \<longrightarrow>
          readJsonInput e opts s =
            ((case stdin e of Inl err \<Rightarrow> Inl err | Inr text \<Rightarrow> parsed text),
             s\<lparr>stdinReads := Suc (stdinReads s)\<rparr>))
     \<and> (\<forall>j. json opts = Some j \<and> j \<noteq> ''-'' \<and> jsonFile opts = None \<longrightarrow>
          readJsonInput e opts s = (parsed j, s))
     \<and> (json opts = None \<and> jsonFile opts = None \<longrightarrow>
          readJsonInput e opts s =
            (Inl (Error ''Error'' ''Missing JSON input. Provide --json or --json-file.''), s))
     \<and> stdinReads (snd (readJsonInput e opts s)) \<le> Suc (stdinReads s)
     \<and> stdinReads (snd (runCli e argv s0)) \<le> Suc (stdinReads s0))"
  unfolding Let_def
  apply (intro conjI impI allI)
         apply (auto simp: readJsonInput_def bind_def done_io_def throw_def readStdinText_def
      readFile_io_def parse_json_def once_runCli split: option.splits sum.splits)
  done

theorem readJsonInput_resolution_witness:
  "readJsonInput test_env \<lparr>json = Some ''{}'', jsonFile = Some ''run.json''\<rparr> initial =
     (Inl (Error ''Error'' ''Provide only one of --json or --json-file''), initial)
   \<and> readJsonInput test_env \<lparr>json = None, jsonFile = Some ''-''\<rparr> initial =
     (Inr (Obj []), initial\<lparr>stdinReads := 1\<rparr>)
   \<and> readJsonInput test_env \<lparr>json = None, jsonFile = Some ''run.json''\<rparr> initial =
     (Inr (Obj []), initial)
   \<and> readJsonInput test_env \<lparr>json = Some ''-'', jsonFile = None\<rparr> initial =
     (Inr (Obj []), initial\<lparr>stdinReads := 1\<rparr>)
   \<and> readJsonInput test_env \<lparr>json = Some ''{'', jsonFile = None\<rparr> initial =
     (Inl (Error ''SyntaxError'' ''Unexpected token''), initial)
   \<and> readJsonInput test_env \<lparr>json = None, jsonFile = None\<rparr> initial =
     (Inl (Error ''Error'' ''Missing JSON input. Provide --json or --json-file.''), initial)"
proof -
  have p: "JSON_parse (js test_env) ''{}'' = Inr (Obj [])"
    "JSON_parse (js test_env) ''{'' = Inl ''Unexpected token''"
    by (simp_all add: test_env_def test_js_def trim_newlines_def)
  have i: "stdin test_env = Inr ''{}''" "readFile test_env ''run.json'' = Inr ''{}''"
    by (simp_all add: test_env_def)
  note r = readJsonInput_resolution[where e = test_env and s = initial and argv = UnknownCommand
             and ?s0.0 = initial, unfolded Let_def]
  have 1: "readJsonInput test_env \<lparr>json = Some ''{}'', jsonFile = Some ''run.json''\<rparr> initial =
     (Inl (Error ''Error'' ''Provide only one of --json or --json-file''), initial)"
    using r[of "\<lparr>json = Some ''{}'', jsonFile = Some ''run.json''\<rparr>"] by simp
  have 2: "readJsonInput test_env \<lparr>json = None, jsonFile = Some ''-''\<rparr> initial =
     (Inr (Obj []), initial\<lparr>stdinReads := 1\<rparr>)"
    using r[of "\<lparr>json = None, jsonFile = Some ''-''\<rparr>"] by (simp add: p i initial_def)
  have 3: "readJsonInput test_env \<lparr>json = None, jsonFile = Some ''run.json''\<rparr> initial =
     (Inr (Obj []), initial)"
    using r[of "\<lparr>json = None, jsonFile = Some ''run.json''\<rparr>"] by (simp add: p i)
  have 4: "readJsonInput test_env \<lparr>json = Some ''-'', jsonFile = None\<rparr> initial =
     (Inr (Obj []), initial\<lparr>stdinReads := 1\<rparr>)"
    using r[of "\<lparr>json = Some ''-'', jsonFile = None\<rparr>"] by (simp add: p i initial_def)
  have 5: "readJsonInput test_env \<lparr>json = Some ''{'', jsonFile = None\<rparr> initial =
     (Inl (Error ''SyntaxError'' ''Unexpected token''), initial)"
    using r[of "\<lparr>json = Some ''{'', jsonFile = None\<rparr>"] by (simp add: p)
  have 6: "readJsonInput test_env \<lparr>json = None, jsonFile = None\<rparr> initial =
     (Inl (Error ''Error'' ''Missing JSON input. Provide --json or --json-file.''), initial)"
    using r[of "\<lparr>json = None, jsonFile = None\<rparr>"] by simp
  from 1 2 3 4 5 6 show ?thesis by blast
qed

subsection \<open>The printers\<close>

subsubsection \<open>Printing and parsing JSON\<close>

lemma small_cases:
  "(m::nat) < 16 \<Longrightarrow> m = 0 \<or> m = 1 \<or> m = 2 \<or> m = 3 \<or> m = 4 \<or> m = 5 \<or> m = 6 \<or> m = 7
     \<or> m = 8 \<or> m = 9 \<or> m = 10 \<or> m = 11 \<or> m = 12 \<or> m = 13 \<or> m = 14 \<or> m = 15"
  by arith

lemma hex_value_hex_digit:
  assumes "m < 16"
  shows "hex_value (hex_digit m) = Some m"
  using small_cases[OF assms]
  by (elim disjE) (simp_all add: hex_value_def hex_digit_def is_digit_def)

lemma hex_value_zero: "hex_value CHR ''0'' = Some 0"
  by (simp add: hex_value_def is_digit_def)

lemma unquote_unicode_escape:
  assumes "hex_value h1 = Some a" "hex_value h2 = Some b" "hex_value h3 = Some c"
    "hex_value h4 = Some d" "unquote rest = Some (t, r)"
    "code_unit (((a * 16 + b) * 16 + c) * 16 + d) = Some u"
  shows "unquote (CHR 0x5C # CHR ''u'' # h1 # h2 # h3 # h4 # rest) = Some (u @ t, r)"
  using assms by simp

lemma utf8_small: "n < 128 \<Longrightarrow> utf8 n = [char_of n]"
  by (simp add: utf8_def)

lemma unquote_escape_char:
  assumes "unquote rest = Some (t, r)"
  shows "unquote (escape_char c @ rest) = Some (c # t, r)"
proof -
  consider "c = CHR 0x22" | "c = CHR 0x5C" | "c = CHR 0x08" | "c = CHR 0x0C" | "c = CHR 0x0A"
    | "c = CHR 0x0D" | "c = CHR 0x09"
    | "c \<notin> set [CHR 0x22, CHR 0x5C, CHR 0x08, CHR 0x0C, CHR 0x0A, CHR 0x0D, CHR 0x09]"
      "of_char c < (32::nat)"
    | "c \<notin> set [CHR 0x22, CHR 0x5C, CHR 0x08, CHR 0x0C, CHR 0x0A, CHR 0x0D, CHR 0x09]"
      "\<not> of_char c < (32::nat)"
    by auto
  then show ?thesis
  proof cases
    case 8
    define n :: nat where "n = of_char c"
    have n: "n < 32" using 8(2) by (simp add: n_def)
    have e: "escape_char c = [CHR 0x5C, CHR ''u'', CHR ''0'', CHR ''0'',
                hex_digit (n div 16), hex_digit (n mod 16)]"
      using 8 by (simp add: escape_char_def n_def)
    have d: "n div 16 < 16" "n mod 16 < 16" using n by auto
    have v: "((0 * 16 + 0) * 16 + n div 16) * 16 + n mod 16 = n" by simp
    have u: "code_unit (((0 * 16 + 0) * 16 + n div 16) * 16 + n mod 16) = Some [c]"
      unfolding v using n by (simp add: code_unit_def utf8_small n_def)
    show ?thesis
      unfolding e
      using unquote_unicode_escape[OF hex_value_zero hex_value_zero
              hex_value_hex_digit[OF d(1)] hex_value_hex_digit[OF d(2)] assms u]
      by simp
  next
    case 9
    then show ?thesis using assms by (simp add: escape_char_def)
  qed (use assms in \<open>simp_all add: escape_char_def unescape_def\<close>)
qed

lemma unquote_escaped:
  "unquote (concat (map escape_char s) @ CHR 0x22 # rest) = Some (s, rest)"
  by (induction s) (simp_all add: unquote_escape_char)

lemma QuoteJSONString_eq:
  "QuoteJSONString s @ rest = CHR 0x22 # (concat (map escape_char s) @ CHR 0x22 # rest)"
  by (simp add: QuoteJSONString_def)

lemma json_number_hd:
  assumes "json_number tok"
  shows "\<exists>c r. tok = c # r \<and> (c = CHR ''-'' \<or> is_digit c)"
proof (cases tok)
  case Nil
  with assms show ?thesis by (simp add: json_number_def)
next
  case (Cons c r)
  show ?thesis
  proof (cases "c = CHR ''-''")
    case True
    with Cons show ?thesis by simp
  next
    case False
    have "is_digit c"
      using assms Cons False by (auto simp: json_number_def Let_def split: if_splits)
    with Cons show ?thesis by simp
  qed
qed

lemma digits_num_chars: "is_digit c \<Longrightarrow> is_num_char c"
  by (auto simp: is_digit_def is_num_char_def)

lemma all_digits_num: "list_all is_digit ds \<Longrightarrow> list_all is_num_char ds"
  by (induction ds) (auto simp: digits_num_chars)

lemma num_char_signs:
  "is_num_char CHR ''+''" "is_num_char CHR ''-''" "is_num_char CHR ''.''"
  "is_num_char CHR ''e''" "is_num_char CHR ''E''"
  by (simp_all add: is_num_char_def)

lemma takeWhile_digits_num: "list_all is_num_char (takeWhile is_digit s)"
  by (induction s) (auto simp: digits_num_chars)

lemma json_number_chars:
  assumes "json_number tok"
  shows "list_all is_num_char tok"
proof -
  define t1 where "t1 = (case tok of c # r \<Rightarrow> if c = CHR ''-'' then r else tok | [] \<Rightarrow> tok)"
  define t2 where "t2 = dropWhile is_digit t1"
  define t3 where "t3 = (case t2 of c # r \<Rightarrow> if c = CHR ''.'' then dropWhile is_digit r else t2 | [] \<Rightarrow> t2)"
  have e: "case t3 of
                     [] \<Rightarrow> True
                   | c # r \<Rightarrow> (c = CHR ''e'' \<or> c = CHR ''E'')
                       \<and> (let ds = (case r of d # r' \<Rightarrow> if d = CHR ''+'' \<or> d = CHR ''-'' then r' else r
                                      | [] \<Rightarrow> r)
                          in ds \<noteq> [] \<and> list_all is_digit ds)"
    using assms unfolding json_number_def Let_def t1_def t2_def t3_def by blast
  have 3: "list_all is_num_char t3"
  proof (cases t3)
    case Nil then show ?thesis by simp
  next
    case (Cons c r)
    with e have c: "c = CHR ''e'' \<or> c = CHR ''E''" by simp
    from e Cons have d: "list_all is_digit (case r of d # r' \<Rightarrow> if d = CHR ''+'' \<or> d = CHR ''-'' then r' else r
                                      | [] \<Rightarrow> r)" by (simp add: Let_def)
    have "list_all is_num_char r"
    proof (cases r)
      case Nil then show ?thesis by simp
    next
      case (Cons d r')
      show ?thesis
      proof (cases "d = CHR ''+'' \<or> d = CHR ''-''")
        case True
        with d Cons have "list_all is_num_char r'" by (auto intro: all_digits_num)
        with True Cons show ?thesis by (auto simp: num_char_signs)
      next
        case False
        with d Cons show ?thesis by (auto intro: all_digits_num digits_num_chars)
      qed
    qed
    with c Cons show ?thesis by (auto simp: num_char_signs)
  qed
  have 2: "list_all is_num_char t2"
  proof (cases t2)
    case Nil then show ?thesis by simp
  next
    case (Cons c r)
    show ?thesis
    proof (cases "c = CHR ''.''")
      case True
      with Cons have "t3 = dropWhile is_digit r" by (simp add: t3_def)
      with 3 have "list_all is_num_char (dropWhile is_digit r)" by simp
      moreover have "list_all is_num_char (takeWhile is_digit r)" by (rule takeWhile_digits_num)
      ultimately have "list_all is_num_char (takeWhile is_digit r @ dropWhile is_digit r)"
        by (simp del: takeWhile_dropWhile_id)
      then have "list_all is_num_char r" by simp
      with Cons True show ?thesis by (simp add: num_char_signs)
    next
      case False
      with Cons have "t3 = t2" by (simp add: t3_def)
      with 3 show ?thesis by simp
    qed
  qed
  have "list_all is_num_char (takeWhile is_digit t1 @ dropWhile is_digit t1)"
    using 2 takeWhile_digits_num[of t1] by (simp add: t2_def del: takeWhile_dropWhile_id)
  then have 1: "list_all is_num_char t1" by simp
  show ?thesis
  proof (cases tok)
    case Nil then show ?thesis by simp
  next
    case (Cons c r)
    with 1 show ?thesis by (cases "c = CHR ''-''") (auto simp: t1_def num_char_signs)
  qed
qed

lemma takeWhile_token:
  assumes "list_all P tok" "rest \<noteq> []" "\<not> P (hd rest)"
  shows "takeWhile P (tok @ rest) = tok" "dropWhile P (tok @ rest) = rest"
  using assms by (induction tok) (auto simp: neq_Nil_conv)

lemma skip_ws_append:
  assumes "list_all is_ws w" "t \<noteq> []" "\<not> is_ws (hd t)"
  shows "skip_ws (w @ t) = t"
  using assms unfolding skip_ws_def
  by (induction w) (auto simp: neq_Nil_conv)

lemma value_start_not_ws: "value_start c \<Longrightarrow> \<not> is_ws c"
  by (auto simp: value_start_def is_ws_def)

lemma join_hd: "x \<noteq> [] \<Longrightarrow> join sep (x # xs) \<noteq> [] \<and> hd (join sep (x # xs)) = hd x"
  by (cases xs) auto

lemma Array_empty: "SerializeJSONArray toStr ind vs = [] \<longleftrightarrow> vs = []"
  by (cases vs) auto

lemma QuoteJSONString_start:
  "QuoteJSONString s \<noteq> [] \<and> hd (QuoteJSONString s) = CHR 0x22"
  by (simp add: QuoteJSONString_def)

lemma json_value_text:
  assumes "json_value toStr toNum v"
  shows "\<exists>t. SerializeJSONProperty toStr ind v = Some t \<and> t \<noteq> [] \<and> value_start (hd t)"
proof (cases v)
  case (Num n)
  with assms obtain q where q: "n = Finite q" "json_number (toStr (Num n))"
    by (cases n) auto
  from json_number_hd[OF q(2)] obtain c r where
    "toStr (Num n) = c # r" "c = CHR ''-'' \<or> is_digit c" by blast
  with Num q show ?thesis by (auto simp: value_start_def is_digit_def)
next
  case (Arr vs)
  then show ?thesis
    by (cases "SerializeJSONArray toStr (ind @ ''  '') vs") (auto simp: value_start_def)
next
  case (Obj kvs)
  then show ?thesis
    by (cases "SerializeJSONObject toStr (ind @ ''  '') kvs") (auto simp: value_start_def)
qed (use assms in \<open>auto simp: value_start_def QuoteJSONString_def\<close>)

lemma Object_members:
  assumes "list_all (\<lambda>kv. json_value toStr toNum (snd kv)) ((k, v) # kvs)"
  shows "\<exists>t. SerializeJSONProperty toStr ind v = Some t \<and> t \<noteq> [] \<and> value_start (hd t)
           \<and> SerializeJSONObject toStr ind ((k, v) # kvs) =
               (QuoteJSONString k @ '': '' @ t) # SerializeJSONObject toStr ind kvs"
  using json_value_text[of toStr toNum v ind] assms by auto

lemma Object_empty:
  assumes "list_all (\<lambda>kv. json_value toStr toNum (snd kv)) kvs"
  shows "SerializeJSONObject toStr ind kvs = [] \<longleftrightarrow> kvs = []"
proof (cases kvs)
  case (Cons kv kvs')
  obtain k v where "kv = (k, v)" by (cases kv)
  with Cons assms Object_members[of toStr toNum k v kvs' ind] show ?thesis by auto
qed simp

lemma set_option_fresh: "k \<notin> fst ` set acc \<Longrightarrow> set_option acc k v = acc @ [(k, v)]"
  by (induction acc) auto

lemma is_ws_simps:
  "is_ws CHR ''\<newline>''" "is_ws CHR '' ''" "\<not> is_ws CHR '',''" "\<not> is_ws CHR '']''"
  "\<not> is_ws CHR ''}''" "\<not> is_ws CHR '':''" "\<not> is_ws CHR 0x22" "\<not> is_ws CHR ''[''"
  "\<not> is_ws CHR ''{''"
  by (simp_all add: is_ws_def)

lemma not_num_char: "\<not> is_num_char CHR '',''" "\<not> is_num_char CHR ''\<newline>''"
  by (simp_all add: is_num_char_def)

lemma pv_null:
  "skip_ws s = ''null'' @ rest \<Longrightarrow> parse_value toNum (Suc n) s = Some (Null, rest)"
  by simp

lemma pv_true:
  "skip_ws s = ''true'' @ rest \<Longrightarrow> parse_value toNum (Suc n) s = Some (Bool True, rest)"
  by simp

lemma pv_false:
  "skip_ws s = ''false'' @ rest \<Longrightarrow> parse_value toNum (Suc n) s = Some (Bool False, rest)"
  by simp

lemma pv_str:
  "skip_ws s = CHR 0x22 # q \<Longrightarrow> unquote q = Some (t, r) \<Longrightarrow>
   parse_value toNum (Suc n) s = Some (Str t, r)"
  by simp

lemma pv_num:
  assumes "skip_ws s = c # cs" "c = CHR ''-'' \<or> is_digit c"
    "takeWhile is_num_char (c # cs) = tok" "dropWhile is_num_char (c # cs) = rest"
    "json_number tok"
  shows "parse_value toNum (Suc n) s = Some (Num (toNum tok), rest)"
proof -
  have c: "c \<noteq> CHR ''[''" "c \<noteq> CHR ''{''" "c \<noteq> CHR 0x22" "c \<noteq> CHR ''t''" "c \<noteq> CHR ''f''"
    "c \<noteq> CHR ''n''"
    using assms(2) by (auto simp: is_digit_def)
  have t: "take 4 (c # cs) \<noteq> ''true''" "take 5 (c # cs) \<noteq> ''false''" "take 4 (c # cs) \<noteq> ''null''"
    using c by auto
  show ?thesis
    unfolding parse_value.simps assms(1) list.case
    using c t assms(3,4,5) by (simp only: if_False if_True)
qed

lemma pv_arr_empty:
  "skip_ws s = CHR ''['' # cs \<Longrightarrow> skip_ws cs = CHR '']'' # r \<Longrightarrow>
   parse_value toNum (Suc n) s = Some (Arr [], r)"
  by simp

lemma pv_arr:
  "skip_ws s = CHR ''['' # cs \<Longrightarrow> skip_ws cs = d # r \<Longrightarrow> d \<noteq> CHR '']'' \<Longrightarrow>
   parse_value toNum (Suc n) s = parse_elements toNum n cs []"
  by simp

lemma pv_obj_empty:
  "skip_ws s = CHR ''{'' # cs \<Longrightarrow> skip_ws cs = CHR ''}'' # r \<Longrightarrow>
   parse_value toNum (Suc n) s = Some (Obj [], r)"
  by simp

lemma pv_obj:
  "skip_ws s = CHR ''{'' # cs \<Longrightarrow> skip_ws cs = d # r \<Longrightarrow> d \<noteq> CHR ''}'' \<Longrightarrow>
   parse_value toNum (Suc n) s = parse_members toNum n cs []"
  by simp

lemma pe_last:
  "parse_value toNum n s = Some (v, r) \<Longrightarrow> skip_ws r = CHR '']'' # r' \<Longrightarrow>
   parse_elements toNum (Suc n) s acc = Some (Arr (acc @ [v]), r')"
  by simp

lemma pe_more:
  "parse_value toNum n s = Some (v, r) \<Longrightarrow> skip_ws r = CHR '','' # r' \<Longrightarrow>
   parse_elements toNum (Suc n) s acc = parse_elements toNum n r' (acc @ [v])"
  by simp

lemma pm_last:
  "skip_ws s = CHR 0x22 # cs \<Longrightarrow> unquote cs = Some (k, r) \<Longrightarrow> skip_ws r = CHR '':'' # r1 \<Longrightarrow>
   parse_value toNum n r1 = Some (v, r2) \<Longrightarrow> skip_ws r2 = CHR ''}'' # r3 \<Longrightarrow>
   parse_members toNum (Suc n) s acc = Some (Obj (set_option acc k v), r3)"
  by simp

lemma pm_more:
  "skip_ws s = CHR 0x22 # cs \<Longrightarrow> unquote cs = Some (k, r) \<Longrightarrow> skip_ws r = CHR '':'' # r1 \<Longrightarrow>
   parse_value toNum n r1 = Some (v, r2) \<Longrightarrow> skip_ws r2 = CHR '','' # r3 \<Longrightarrow>
   parse_members toNum (Suc n) s acc = parse_members toNum n r3 (set_option acc k v)"
  by simp

lemma skip_ws_none: "t \<noteq> [] \<Longrightarrow> \<not> is_ws (hd t) \<Longrightarrow> skip_ws t = t"
  using skip_ws_append[of "[]" t] by simp

lemma parse_scalar:
  assumes "json_value toStr toNum v" "SerializeJSONProperty toStr indent v = Some t"
    "\<And>vs. v \<noteq> Arr vs" "\<And>kvs. v \<noteq> Obj kvs"
    "list_all is_ws w" "rest \<noteq> []" "hd rest = CHR '','' \<or> hd rest = CHR ''\<newline>''"
  shows "parse_value toNum (Suc m) (w @ t @ rest) = Some (v, rest)"
proof -
  obtain t' where t': "SerializeJSONProperty toStr indent v = Some t'" "t' \<noteq> []" "value_start (hd t')"
    using json_value_text[OF assms(1)] by blast
  with assms(2) have t: "t \<noteq> []" "value_start (hd t)" by auto
  have sk: "skip_ws (w @ t @ rest) = t @ rest"
    using skip_ws_append[of w "t @ rest"] assms(5) t value_start_not_ws by auto
  show ?thesis
  proof (cases v)
    case Undefined
    with assms(1) show ?thesis by simp
  next
    case Null
    with assms(2) have "t = ''null''" by simp
    with sk Null pv_null[of "w @ t @ rest" rest] show ?thesis by simp
  next
    case (Bool b)
    show ?thesis
    proof (cases b)
      case True
      with Bool assms(2) have "t = ''true''" by simp
      with sk Bool True pv_true[of "w @ t @ rest" rest] show ?thesis by simp
    next
      case False
      with Bool assms(2) have "t = ''false''" by simp
      with sk Bool False pv_false[of "w @ t @ rest" rest] show ?thesis by simp
    qed
  next
    case (Str s)
    with assms(2) have "t @ rest = CHR 0x22 # (concat (map escape_char s) @ CHR 0x22 # rest)"
      by (simp add: QuoteJSONString_def)
    with sk have "skip_ws (w @ t @ rest) = CHR 0x22 # (concat (map escape_char s) @ CHR 0x22 # rest)"
      by simp
    from pv_str[OF this unquote_escaped] Str show ?thesis by simp
  next
    case (Num n)
    with assms(1) obtain q where q: "n = Finite q" "json_number (toStr (Num n))"
      "toNum (toStr (Num n)) = n"
      by (cases n) auto
    with Num assms(2) have tt: "t = toStr (Num n)" by auto
    from json_number_hd[OF q(2)] tt obtain c cs where ccs: "t = c # cs" "c = CHR ''-'' \<or> is_digit c"
      by auto
    have nc: "\<not> is_num_char (hd rest)" using assms(7) not_num_char by auto
    have e: "c # (cs @ rest) = toStr (Num n) @ rest" using tt ccs by simp
    have tw: "takeWhile is_num_char (c # (cs @ rest)) = toStr (Num n)"
             "dropWhile is_num_char (c # (cs @ rest)) = rest"
      unfolding e by (rule takeWhile_token[OF json_number_chars[OF q(2)] assms(6) nc])+
    have sk': "skip_ws (w @ t @ rest) = c # (cs @ rest)" using sk ccs by simp
    from pv_num[OF sk' ccs(2) tw q(2)] q(3) Num show ?thesis by simp
  next
    case (Arr vs) with assms(3)[of vs] show ?thesis by blast
  next
    case (Obj kvs) with assms(4)[of kvs] show ?thesis by blast
  next
    case (Bytes b) with assms(1) show ?thesis by simp
  next
    case CommandObj with assms(1) show ?thesis by simp
  qed
qed

declare parse_value.simps [simp del] parse_elements.simps [simp del] parse_members.simps [simp del]

lemma value_start_neq:
  "value_start c \<Longrightarrow> c \<noteq> CHR '']'' \<and> c \<noteq> CHR ''}''"
  by (auto simp: value_start_def)

lemma Array_Cons:
  assumes "json_value toStr toNum v"
  shows "\<exists>t. SerializeJSONProperty toStr ind v = Some t \<and> t \<noteq> [] \<and> value_start (hd t)
           \<and> SerializeJSONArray toStr ind (v # vs) = t # SerializeJSONArray toStr ind vs"
  using json_value_text[OF assms, of ind] by auto

lemma skip_ws_nl_indent:
  assumes "list_all is_ws ind" "t \<noteq> []" "\<not> is_ws (hd t)"
  shows "skip_ws (CHR ''\<newline>'' # ind @ t) = t"
  using skip_ws_append[of "CHR ''\<newline>'' # ind" t] assms by (simp add: is_ws_simps)

lemma elements_roundtrip_step:
  assumes P1: "\<And>t n w rest. SerializeJSONProperty toStr indent v = Some t \<Longrightarrow> length t < n \<Longrightarrow>
            list_all is_ws w \<Longrightarrow> rest \<noteq> [] \<Longrightarrow> hd rest = CHR '','' \<or> hd rest = CHR ''\<newline>'' \<Longrightarrow>
            parse_value toNum n (w @ t @ rest) = Some (v, rest)"
    and P2: "\<And>n w acc. vs \<noteq> [] \<Longrightarrow> list_all is_ws w \<Longrightarrow>
            Suc (length (join (CHR '','' # CHR ''\<newline>'' # indent) (SerializeJSONArray toStr indent vs))) < n \<Longrightarrow>
            parse_elements toNum n
              (w @ join (CHR '','' # CHR ''\<newline>'' # indent) (SerializeJSONArray toStr indent vs)
                 @ CHR ''\<newline>'' # stepback @ CHR '']'' # rest) acc = Some (Arr (acc @ vs), rest)"
    and jv: "json_value toStr toNum v"
    and ws: "list_all is_ws indent" "list_all is_ws stepback" "list_all is_ws w"
    and len: "Suc (length (join (CHR '','' # CHR ''\<newline>'' # indent)
                (SerializeJSONArray toStr indent (v # vs)))) < n"
  shows "parse_elements toNum n
           (w @ join (CHR '','' # CHR ''\<newline>'' # indent) (SerializeJSONArray toStr indent (v # vs))
              @ CHR ''\<newline>'' # stepback @ CHR '']'' # rest) acc = Some (Arr (acc @ v # vs), rest)"
proof -
  obtain tv where tv: "SerializeJSONProperty toStr indent v = Some tv" "tv \<noteq> []"
    "value_start (hd tv)"
    "SerializeJSONArray toStr indent (v # vs) = tv # SerializeJSONArray toStr indent vs"
    using Array_Cons[OF jv, of indent vs] by blast
  obtain m where n: "n = Suc m" using len by (cases n) auto
  show ?thesis
  proof (cases vs)
    case Nil
    have l: "length tv < m" using len n tv(4) Nil by simp
    have pv: "parse_value toNum m (w @ tv @ (CHR ''\<newline>'' # stepback @ CHR '']'' # rest)) =
                Some (v, CHR ''\<newline>'' # stepback @ CHR '']'' # rest)"
      by (rule P1[OF tv(1) l ws(3)]) simp_all
    have sk: "skip_ws (CHR ''\<newline>'' # stepback @ CHR '']'' # rest) = CHR '']'' # rest"
      by (rule skip_ws_nl_indent[OF ws(2)]) (simp_all add: is_ws_simps)
    have jt: "join (CHR '','' # CHR ''\<newline>'' # indent) (SerializeJSONArray toStr indent (v # vs)) = tv"
      using tv(1) Nil by simp
    show ?thesis
      using pe_last[OF pv sk, of acc] tv(1) by (simp add: n Nil)
  next
    case (Cons v' vs')
    let ?sep = "CHR '','' # CHR ''\<newline>'' # indent"
    let ?J' = "join ?sep (SerializeJSONArray toStr indent vs)"
    obtain x xs where x: "SerializeJSONArray toStr indent vs = x # xs"
      using Cons by (cases "SerializeJSONArray toStr indent vs") auto
    have J: "join ?sep (SerializeJSONArray toStr indent (v # vs)) = tv @ ?sep @ ?J'"
      using tv(1) x by simp
    have l: "length tv < m" using len n unfolding J by simp
    have l2: "Suc (length ?J') < m" using len n tv(2) unfolding J by (cases tv) simp_all
    let ?tail = "?J' @ CHR ''\<newline>'' # stepback @ CHR '']'' # rest"
    have pv: "parse_value toNum m (w @ tv @ (CHR '','' # (CHR ''\<newline>'' # indent) @ ?tail)) =
                Some (v, CHR '','' # (CHR ''\<newline>'' # indent) @ ?tail)"
      by (rule P1[OF tv(1) l ws(3)]) simp_all
    have sk: "skip_ws (CHR '','' # (CHR ''\<newline>'' # indent) @ ?tail) =
                CHR '','' # (CHR ''\<newline>'' # indent) @ ?tail"
      by (rule skip_ws_none) (simp_all add: is_ws_simps)
    have w': "list_all is_ws (CHR ''\<newline>'' # indent)" using ws(1) by (simp add: is_ws_simps)
    have vs: "vs \<noteq> []" using Cons by simp
    have "parse_elements toNum (Suc m)
            (w @ tv @ (CHR '','' # (CHR ''\<newline>'' # indent) @ ?tail)) acc =
          parse_elements toNum m ((CHR ''\<newline>'' # indent) @ ?tail) (acc @ [v])"
      by (rule pe_more[OF pv sk])
    also have "\<dots> = Some (Arr ((acc @ [v]) @ vs), rest)"
      by (rule P2[OF vs w' l2])
    finally show ?thesis unfolding n J by simp
  qed
qed

lemma skip_ws_colon: "skip_ws (CHR '':'' # r) = CHR '':'' # r"
  by (rule skip_ws_none) (simp_all add: is_ws_simps)

lemma members_roundtrip_step:
  assumes P1: "\<And>t n w rest. SerializeJSONProperty toStr indent v = Some t \<Longrightarrow> length t < n \<Longrightarrow>
            list_all is_ws w \<Longrightarrow> rest \<noteq> [] \<Longrightarrow> hd rest = CHR '','' \<or> hd rest = CHR ''\<newline>'' \<Longrightarrow>
            parse_value toNum n (w @ t @ rest) = Some (v, rest)"
    and P3: "\<And>n w acc. kvs \<noteq> [] \<Longrightarrow> list_all is_ws w \<Longrightarrow> distinct (map fst (acc @ kvs)) \<Longrightarrow>
            Suc (length (join (CHR '','' # CHR ''\<newline>'' # indent) (SerializeJSONObject toStr indent kvs))) < n \<Longrightarrow>
            parse_members toNum n
              (w @ join (CHR '','' # CHR ''\<newline>'' # indent) (SerializeJSONObject toStr indent kvs)
                 @ CHR ''\<newline>'' # stepback @ CHR ''}'' # rest) acc = Some (Obj (acc @ kvs), rest)"
    and jv: "list_all (\<lambda>kv. json_value toStr toNum (snd kv)) ((k, v) # kvs)"
    and dist: "distinct (map fst (acc @ (k, v) # kvs))"
    and ws: "list_all is_ws indent" "list_all is_ws stepback" "list_all is_ws w"
    and len: "Suc (length (join (CHR '','' # CHR ''\<newline>'' # indent)
                (SerializeJSONObject toStr indent ((k, v) # kvs)))) < n"
  shows "parse_members toNum n
           (w @ join (CHR '','' # CHR ''\<newline>'' # indent) (SerializeJSONObject toStr indent ((k, v) # kvs))
              @ CHR ''\<newline>'' # stepback @ CHR ''}'' # rest) acc = Some (Obj (acc @ (k, v) # kvs), rest)"
proof -
  obtain tv where tv: "SerializeJSONProperty toStr indent v = Some tv" "tv \<noteq> []"
    "value_start (hd tv)"
    "SerializeJSONObject toStr indent ((k, v) # kvs) =
       (QuoteJSONString k @ '': '' @ tv) # SerializeJSONObject toStr indent kvs"
    using Object_members[OF jv, of indent] by blast
  obtain m where n: "n = Suc m" using len by (cases n) auto
  let ?body = "concat (map escape_char k)"
  have q: "QuoteJSONString k = CHR 0x22 # ?body @ [CHR 0x22]" by (simp add: QuoteJSONString_def)
  have fresh: "set_option acc k v = acc @ [(k, v)]"
    using dist by (intro set_option_fresh) auto
  have skq: "skip_ws (w @ CHR 0x22 # r) = CHR 0x22 # r" for r
    using skip_ws_append[OF ws(3), of "CHR 0x22 # r"] by (simp add: is_ws_simps)
  have wsp: "list_all is_ws '' ''" by (simp add: is_ws_simps)
  show ?thesis
  proof (cases kvs)
    case Nil
    let ?tail = "CHR ''\<newline>'' # stepback @ CHR ''}'' # rest"
    have jt: "join (CHR '','' # CHR ''\<newline>'' # indent)
                (SerializeJSONObject toStr indent ((k, v) # kvs)) = QuoteJSONString k @ '': '' @ tv"
      using tv(1) Nil by simp
    have l: "length tv < m" using len n unfolding jt by simp
    have s1: "skip_ws (w @ (QuoteJSONString k @ '': '' @ tv) @ ?tail) =
                CHR 0x22 # (?body @ CHR 0x22 # (CHR '':'' # ('' '' @ tv @ ?tail)))"
      using skq[of "?body @ CHR 0x22 # (CHR '':'' # ('' '' @ tv @ ?tail))"] by (simp add: q)
    have pv: "parse_value toNum m ('' '' @ tv @ ?tail) = Some (v, ?tail)"
      by (rule P1[OF tv(1) l wsp]) simp_all
    have sk: "skip_ws ?tail = CHR ''}'' # rest"
      by (rule skip_ws_nl_indent[OF ws(2)]) (simp_all add: is_ws_simps)
    from pm_last[OF s1 unquote_escaped skip_ws_colon pv sk, of acc]
    show ?thesis unfolding fresh using jt by (simp add: n Nil)
  next
    case (Cons kv' kvs')
    let ?sep = "CHR '','' # CHR ''\<newline>'' # indent"
    let ?J' = "join ?sep (SerializeJSONObject toStr indent kvs)"
    have jv': "list_all (\<lambda>kv. json_value toStr toNum (snd kv)) kvs" using jv by simp
    have "SerializeJSONObject toStr indent kvs \<noteq> []"
      using Object_empty[OF jv', of indent] Cons by simp
    then obtain x xs where x: "SerializeJSONObject toStr indent kvs = x # xs"
      by (cases "SerializeJSONObject toStr indent kvs") auto
    have J: "join ?sep (SerializeJSONObject toStr indent ((k, v) # kvs)) =
               (QuoteJSONString k @ '': '' @ tv) @ ?sep @ ?J'"
      using tv(1) x by simp
    have l: "length tv < m" using len n unfolding J by simp
    have l2: "Suc (length ?J') < m" using len n unfolding J by (simp add: q)
    let ?tail = "?J' @ CHR ''\<newline>'' # stepback @ CHR ''}'' # rest"
    let ?after = "CHR '','' # (CHR ''\<newline>'' # indent) @ ?tail"
    have s1: "skip_ws (w @ (QuoteJSONString k @ '': '' @ tv) @ ?after) =
                CHR 0x22 # (?body @ CHR 0x22 # (CHR '':'' # ('' '' @ tv @ ?after)))"
      using skq[of "?body @ CHR 0x22 # (CHR '':'' # ('' '' @ tv @ ?after))"] by (simp add: q)
    have pv: "parse_value toNum m ('' '' @ tv @ ?after) = Some (v, ?after)"
      by (rule P1[OF tv(1) l wsp]) simp_all
    have sk: "skip_ws ?after = ?after"
      by (rule skip_ws_none) (simp_all add: is_ws_simps)
    have w': "list_all is_ws (CHR ''\<newline>'' # indent)" using ws(1) by (simp add: is_ws_simps)
    have kvs: "kvs \<noteq> []" using Cons by simp
    have d': "distinct (map fst ((acc @ [(k, v)]) @ kvs))" using dist by simp
    have "parse_members toNum (Suc m) (w @ (QuoteJSONString k @ '': '' @ tv) @ ?after) acc =
          parse_members toNum m ((CHR ''\<newline>'' # indent) @ ?tail) (set_option acc k v)"
      by (rule pm_more[OF s1 unquote_escaped skip_ws_colon pv sk])
    also have "\<dots> = Some (Obj ((acc @ [(k, v)]) @ kvs), rest)"
      unfolding fresh by (rule P3[OF kvs w' d' l2])
    finally show ?thesis using J by (simp add: n)
  qed
qed

lemma array_roundtrip_step:
  assumes P2: "\<And>n w acc stepback rest. vs \<noteq> [] \<Longrightarrow> list_all is_ws stepback \<Longrightarrow> list_all is_ws w \<Longrightarrow>
            Suc (length (join (CHR '','' # CHR ''\<newline>'' # indent @ ''  '')
                   (SerializeJSONArray toStr (indent @ ''  '') vs))) < n \<Longrightarrow>
            parse_elements toNum n
              (w @ join (CHR '','' # CHR ''\<newline>'' # indent @ ''  '')
                     (SerializeJSONArray toStr (indent @ ''  '') vs)
                 @ CHR ''\<newline>'' # stepback @ CHR '']'' # rest) acc = Some (Arr (acc @ vs), rest)"
    and jv: "json_value toStr toNum (Arr vs)"
    and ws: "list_all is_ws indent" "list_all is_ws w"
    and ser: "SerializeJSONProperty toStr indent (Arr vs) = Some t"
    and len: "length t < n"
  shows "parse_value toNum n (w @ t @ rest) = Some (Arr vs, rest)"
proof -
  obtain m where n: "n = Suc m" using len by (cases n) auto
  have skb: "skip_ws (w @ CHR ''['' # r) = CHR ''['' # r" for r
    using skip_ws_append[OF ws(2), of "CHR ''['' # r"] by (simp add: is_ws_simps)
  show ?thesis
  proof (cases vs)
    case Nil
    with ser have t: "t = ''[]''" by simp
    have sk: "skip_ws (w @ t @ rest) = CHR ''['' # (CHR '']'' # rest)"
      using skb[of "CHR '']'' # rest"] t by simp
    have sk2: "skip_ws (CHR '']'' # rest) = CHR '']'' # rest"
      by (rule skip_ws_none) (simp_all add: is_ws_simps)
    from pv_arr_empty[OF sk sk2] show ?thesis by (simp add: n Nil)
  next
    case (Cons v0 vs0)
    let ?ind = "indent @ ''  ''"
    let ?J = "join (CHR '','' # CHR ''\<newline>'' # ?ind) (SerializeJSONArray toStr ?ind vs)"
    have jv0: "json_value toStr toNum v0" using jv Cons by simp
    obtain t0 where t0: "t0 \<noteq> []" "value_start (hd t0)"
      "SerializeJSONArray toStr ?ind (v0 # vs0) = t0 # SerializeJSONArray toStr ?ind vs0"
      using Array_Cons[OF jv0, of ?ind vs0] by blast
    have Jhd: "?J \<noteq> [] \<and> hd ?J = hd t0"
      unfolding Cons t0(3) by (rule join_hd[OF t0(1)])
    have t: "t = CHR ''['' # (CHR ''\<newline>'' # ?ind) @ ?J @ CHR ''\<newline>'' # indent @ [CHR '']'']"
      using ser t0(3) Cons by (simp del: SerializeJSONArray.simps join.simps)
    let ?cs = "(CHR ''\<newline>'' # ?ind) @ ?J @ CHR ''\<newline>'' # indent @ CHR '']'' # rest"
    have sk: "skip_ws (w @ t @ rest) = CHR ''['' # ?cs"
      using skb[of ?cs] unfolding t by simp
    have wi: "list_all is_ws ?ind" using ws(1) by (simp add: is_ws_simps)
    have tl: "?J @ CHR ''\<newline>'' # indent @ CHR '']'' # rest \<noteq> []"
         "\<not> is_ws (hd (?J @ CHR ''\<newline>'' # indent @ CHR '']'' # rest))"
      using Jhd t0(2) value_start_not_ws by auto
    have sk2: "skip_ws ?cs = hd ?J # (tl ?J @ CHR ''\<newline>'' # indent @ CHR '']'' # rest)"
      using skip_ws_nl_indent[OF wi tl] Jhd by (cases ?J) simp_all
    have d: "hd ?J \<noteq> CHR '']''" using Jhd t0(2) value_start_neq by auto
    have vs: "vs \<noteq> []" using Cons by simp
    have w': "list_all is_ws (CHR ''\<newline>'' # ?ind)" using wi by (simp add: is_ws_simps)
    have l: "Suc (length ?J) < m" using len n unfolding t by simp
    have "parse_value toNum (Suc m) (w @ t @ rest) = parse_elements toNum m ?cs []"
      by (rule pv_arr[OF sk sk2 d])
    also have "\<dots> = Some (Arr ([] @ vs), rest)"
      by (rule P2[OF vs ws(1) w' l])
    finally show ?thesis by (simp add: n)
  qed
qed

lemma object_roundtrip_step:
  assumes P3: "\<And>n w acc stepback rest. kvs \<noteq> [] \<Longrightarrow> list_all is_ws stepback \<Longrightarrow> list_all is_ws w \<Longrightarrow>
            distinct (map fst (acc @ kvs)) \<Longrightarrow>
            Suc (length (join (CHR '','' # CHR ''\<newline>'' # indent @ ''  '')
                   (SerializeJSONObject toStr (indent @ ''  '') kvs))) < n \<Longrightarrow>
            parse_members toNum n
              (w @ join (CHR '','' # CHR ''\<newline>'' # indent @ ''  '')
                     (SerializeJSONObject toStr (indent @ ''  '') kvs)
                 @ CHR ''\<newline>'' # stepback @ CHR ''}'' # rest) acc = Some (Obj (acc @ kvs), rest)"
    and jv: "json_value toStr toNum (Obj kvs)"
    and ws: "list_all is_ws indent" "list_all is_ws w"
    and ser: "SerializeJSONProperty toStr indent (Obj kvs) = Some t"
    and len: "length t < n"
  shows "parse_value toNum n (w @ t @ rest) = Some (Obj kvs, rest)"
proof -
  obtain m where n: "n = Suc m" using len by (cases n) auto
  have skb: "skip_ws (w @ CHR ''{'' # r) = CHR ''{'' # r" for r
    using skip_ws_append[OF ws(2), of "CHR ''{'' # r"] by (simp add: is_ws_simps)
  show ?thesis
  proof (cases kvs)
    case Nil
    with ser have t: "t = ''{}''" by simp
    have sk: "skip_ws (w @ t @ rest) = CHR ''{'' # (CHR ''}'' # rest)"
      using skb[of "CHR ''}'' # rest"] t by simp
    have sk2: "skip_ws (CHR ''}'' # rest) = CHR ''}'' # rest"
      by (rule skip_ws_none) (simp_all add: is_ws_simps)
    from pv_obj_empty[OF sk sk2] show ?thesis by (simp add: n Nil)
  next
    case (Cons kv0 kvs0)
    obtain k0 v0 where kv0: "kv0 = (k0, v0)" by (cases kv0)
    let ?ind = "indent @ ''  ''"
    let ?J = "join (CHR '','' # CHR ''\<newline>'' # ?ind) (SerializeJSONObject toStr ?ind kvs)"
    have jvs: "list_all (\<lambda>kv. json_value toStr toNum (snd kv)) ((k0, v0) # kvs0)"
      using jv Cons kv0 by simp
    obtain t0 where t0:
      "SerializeJSONObject toStr ?ind ((k0, v0) # kvs0) =
         (QuoteJSONString k0 @ '': '' @ t0) # SerializeJSONObject toStr ?ind kvs0"
      using Object_members[OF jvs, of ?ind] by blast
    let ?m0 = "QuoteJSONString k0 @ '': '' @ t0"
    have m0: "?m0 \<noteq> []" "hd ?m0 = CHR 0x22" by (simp_all add: QuoteJSONString_def)
    have Jhd: "?J \<noteq> [] \<and> hd ?J = hd ?m0"
      unfolding Cons kv0 t0 by (rule join_hd[OF m0(1)])
    have t: "t = CHR ''{'' # (CHR ''\<newline>'' # ?ind) @ ?J @ CHR ''\<newline>'' # indent @ [CHR ''}'']"
      using ser t0 Cons kv0 by (simp del: SerializeJSONObject.simps join.simps)
    let ?cs = "(CHR ''\<newline>'' # ?ind) @ ?J @ CHR ''\<newline>'' # indent @ CHR ''}'' # rest"
    have sk: "skip_ws (w @ t @ rest) = CHR ''{'' # ?cs"
      using skb[of ?cs] unfolding t by simp
    have wi: "list_all is_ws ?ind" using ws(1) by (simp add: is_ws_simps)
    have tl: "?J @ CHR ''\<newline>'' # indent @ CHR ''}'' # rest \<noteq> []"
         "\<not> is_ws (hd (?J @ CHR ''\<newline>'' # indent @ CHR ''}'' # rest))"
      using Jhd m0(2) by (auto simp: is_ws_simps)
    have sk2: "skip_ws ?cs = hd ?J # (tl ?J @ CHR ''\<newline>'' # indent @ CHR ''}'' # rest)"
      using skip_ws_nl_indent[OF wi tl] Jhd by (cases ?J) simp_all
    have d: "hd ?J \<noteq> CHR ''}''" using Jhd m0(2) by simp
    have kvs: "kvs \<noteq> []" using Cons by simp
    have w': "list_all is_ws (CHR ''\<newline>'' # ?ind)" using wi by (simp add: is_ws_simps)
    have l: "Suc (length ?J) < m" using len n unfolding t by simp
    have dist: "distinct (map fst ([] @ kvs))" using jv by simp
    have "parse_value toNum (Suc m) (w @ t @ rest) = parse_members toNum m ?cs []"
      by (rule pv_obj[OF sk sk2 d])
    also have "\<dots> = Some (Obj ([] @ kvs), rest)"
      by (rule P3[OF kvs ws(1) w' dist l])
    finally show ?thesis by (simp add: n)
  qed
qed

lemma roundtrip_mutual:
  fixes toNum :: "string \<Rightarrow> jsnum"
  shows "\<forall>t n w rest. json_value toStr toNum v \<longrightarrow> list_all is_ws indent \<longrightarrow>
           SerializeJSONProperty toStr indent v = Some t \<longrightarrow> length t < n \<longrightarrow>
           list_all is_ws w \<longrightarrow> rest \<noteq> [] \<longrightarrow> (hd rest = CHR '','' \<or> hd rest = CHR ''\<newline>'') \<longrightarrow>
           parse_value toNum n (w @ t @ rest) = Some (v, rest)"
    and "\<forall>n w acc stepback rest. vs \<noteq> [] \<longrightarrow> list_all (json_value toStr toNum) vs \<longrightarrow>
           list_all is_ws indent \<longrightarrow> list_all is_ws stepback \<longrightarrow> list_all is_ws w \<longrightarrow>
           Suc (length (join (CHR '','' # CHR ''\<newline>'' # indent)
                  (SerializeJSONArray toStr indent vs))) < n \<longrightarrow>
           parse_elements toNum n
             (w @ join (CHR '','' # CHR ''\<newline>'' # indent) (SerializeJSONArray toStr indent vs)
                @ CHR ''\<newline>'' # stepback @ CHR '']'' # rest) acc = Some (Arr (acc @ vs), rest)"
    and "\<forall>n w acc stepback rest. kvs \<noteq> [] \<longrightarrow>
           list_all (\<lambda>kv. json_value toStr toNum (snd kv)) kvs \<longrightarrow>
           distinct (map fst (acc @ kvs)) \<longrightarrow>
           list_all is_ws indent \<longrightarrow> list_all is_ws stepback \<longrightarrow> list_all is_ws w \<longrightarrow>
           Suc (length (join (CHR '','' # CHR ''\<newline>'' # indent)
                  (SerializeJSONObject toStr indent kvs))) < n \<longrightarrow>
           parse_members toNum n
             (w @ join (CHR '','' # CHR ''\<newline>'' # indent) (SerializeJSONObject toStr indent kvs)
                @ CHR ''\<newline>'' # stepback @ CHR ''}'' # rest) acc = Some (Obj (acc @ kvs), rest)"
proof (induction toStr indent v and toStr indent vs and toStr indent kvs
       rule: SerializeJSONProperty_SerializeJSONArray_SerializeJSONObject.induct)
  case (1 toStr indent)
  show ?case by simp
next
  case (2 toStr indent)
  show ?case
  proof (intro allI impI)
    fix t n w rest
    assume a: "json_value toStr toNum Null" "SerializeJSONProperty toStr indent Null = Some t"
      "length t < n" "list_all is_ws w" "rest \<noteq> []" "hd rest = CHR '','' \<or> hd rest = CHR ''\<newline>''"
    obtain m where n: "n = Suc m" using a(3) by (cases n) auto
    show "parse_value toNum n (w @ t @ rest) = Some (Null, rest)"
      unfolding n by (rule parse_scalar[OF a(1,2) _ _ a(4,5,6)]) simp_all
  qed
next
  case (3 toStr indent b)
  show ?case
  proof (intro allI impI)
    fix t n w rest
    assume a: "json_value toStr toNum (Bool b)" "SerializeJSONProperty toStr indent (Bool b) = Some t"
      "length t < n" "list_all is_ws w" "rest \<noteq> []" "hd rest = CHR '','' \<or> hd rest = CHR ''\<newline>''"
    obtain m where n: "n = Suc m" using a(3) by (cases n) auto
    show "parse_value toNum n (w @ t @ rest) = Some (Bool b, rest)"
      unfolding n by (rule parse_scalar[OF a(1,2) _ _ a(4,5,6)]) simp_all
  qed
next
  case (4 toStr indent x)
  show ?case
  proof (intro allI impI)
    fix t n w rest
    assume a: "json_value toStr toNum (Num x)" "SerializeJSONProperty toStr indent (Num x) = Some t"
      "length t < n" "list_all is_ws w" "rest \<noteq> []" "hd rest = CHR '','' \<or> hd rest = CHR ''\<newline>''"
    obtain m where n: "n = Suc m" using a(3) by (cases n) auto
    show "parse_value toNum n (w @ t @ rest) = Some (Num x, rest)"
      unfolding n by (rule parse_scalar[OF a(1,2) _ _ a(4,5,6)]) simp_all
  qed
next
  case (5 toStr indent s)
  show ?case
  proof (intro allI impI)
    fix t n w rest
    assume a: "json_value toStr toNum (Str s)" "SerializeJSONProperty toStr indent (Str s) = Some t"
      "length t < n" "list_all is_ws w" "rest \<noteq> []" "hd rest = CHR '','' \<or> hd rest = CHR ''\<newline>''"
    obtain m where n: "n = Suc m" using a(3) by (cases n) auto
    show "parse_value toNum n (w @ t @ rest) = Some (Str s, rest)"
      unfolding n by (rule parse_scalar[OF a(1,2) _ _ a(4,5,6)]) simp_all
  qed
next
  case (6 toStr indent vs)
  show ?case
  proof (intro allI impI)
    fix t n w rest
    assume a: "json_value toStr toNum (Arr vs)" "list_all is_ws indent"
      "SerializeJSONProperty toStr indent (Arr vs) = Some t"
      "length t < n" "list_all is_ws w"
    have jvs: "list_all (json_value toStr toNum) vs" using a(1) by simp
    have wi: "list_all is_ws (indent @ ''  '')" using a(2) by (simp add: is_ws_simps)
    show "parse_value toNum n (w @ t @ rest) = Some (Arr vs, rest)"
    proof (rule array_roundtrip_step[OF _ a(1,2,5,3,4)])
      fix n' w' acc stepback rest'
      assume "vs \<noteq> []" "list_all is_ws stepback" "list_all is_ws w'"
        "Suc (length (join (CHR '','' # CHR ''\<newline>'' # indent @ ''  '')
                   (SerializeJSONArray toStr (indent @ ''  '') vs))) < n'"
      with 6 jvs wi show "parse_elements toNum n'
              (w' @ join (CHR '','' # CHR ''\<newline>'' # indent @ ''  '')
                     (SerializeJSONArray toStr (indent @ ''  '') vs)
                 @ CHR ''\<newline>'' # stepback @ CHR '']'' # rest') acc = Some (Arr (acc @ vs), rest')"
        by blast
    qed
  qed
next
  case (7 toStr indent kvs)
  show ?case
  proof (intro allI impI)
    fix t n w rest
    assume a: "json_value toStr toNum (Obj kvs)" "list_all is_ws indent"
      "SerializeJSONProperty toStr indent (Obj kvs) = Some t"
      "length t < n" "list_all is_ws w"
    have jvs: "list_all (\<lambda>kv. json_value toStr toNum (snd kv)) kvs" using a(1) by simp
    have wi: "list_all is_ws (indent @ ''  '')" using a(2) by (simp add: is_ws_simps)
    show "parse_value toNum n (w @ t @ rest) = Some (Obj kvs, rest)"
    proof (rule object_roundtrip_step[OF _ a(1,2,5,3,4)])
      fix n' w' acc stepback rest'
      assume "kvs \<noteq> []" "list_all is_ws stepback" "list_all is_ws w'"
        "distinct (map fst (acc @ kvs))"
        "Suc (length (join (CHR '','' # CHR ''\<newline>'' # indent @ ''  '')
                   (SerializeJSONObject toStr (indent @ ''  '') kvs))) < n'"
      with 7 jvs wi show "parse_members toNum n'
              (w' @ join (CHR '','' # CHR ''\<newline>'' # indent @ ''  '')
                     (SerializeJSONObject toStr (indent @ ''  '') kvs)
                 @ CHR ''\<newline>'' # stepback @ CHR ''}'' # rest') acc = Some (Obj (acc @ kvs), rest')"
        by blast
    qed
  qed
next
  case (8 toStr indent b)
  show ?case by simp
next
  case (9 toStr indent)
  show ?case by simp
next
  case (10 toStr indent)
  show ?case by simp
next
  case (11 toStr indent v vs)
  show ?case
  proof (intro allI impI)
    fix n w acc stepback rest
    assume a: "list_all (json_value toStr toNum) (v # vs)" "list_all is_ws indent"
      "list_all is_ws stepback" "list_all is_ws w"
      "Suc (length (join (CHR '','' # CHR ''\<newline>'' # indent)
                  (SerializeJSONArray toStr indent (v # vs)))) < n"
    have jv: "json_value toStr toNum v" and jvs: "list_all (json_value toStr toNum) vs"
      using a(1) by simp_all
    show "parse_elements toNum n
             (w @ join (CHR '','' # CHR ''\<newline>'' # indent) (SerializeJSONArray toStr indent (v # vs))
                @ CHR ''\<newline>'' # stepback @ CHR '']'' # rest) acc = Some (Arr (acc @ v # vs), rest)"
    proof (rule elements_roundtrip_step[OF _ _ jv a(2,3,4,5)])
      fix t n' w' rest'
      assume "SerializeJSONProperty toStr indent v = Some t" "length t < n'"
        "list_all is_ws w'" "rest' \<noteq> []" "hd rest' = CHR '','' \<or> hd rest' = CHR ''\<newline>''"
      with 11(1) jv a(2) show "parse_value toNum n' (w' @ t @ rest') = Some (v, rest')"
        by blast
    next
      fix n' w' acc'
      assume "vs \<noteq> []" "list_all is_ws w'"
        "Suc (length (join (CHR '','' # CHR ''\<newline>'' # indent) (SerializeJSONArray toStr indent vs))) < n'"
      with 11(2) jvs a(2,3) show "parse_elements toNum n'
              (w' @ join (CHR '','' # CHR ''\<newline>'' # indent) (SerializeJSONArray toStr indent vs)
                 @ CHR ''\<newline>'' # stepback @ CHR '']'' # rest) acc' = Some (Arr (acc' @ vs), rest)"
        by blast
    qed
  qed
next
  case (12 toStr indent)
  show ?case by simp
next
  case (13 toStr indent k v kvs)
  show ?case
  proof (intro allI impI)
    fix n w acc stepback rest
    assume a: "list_all (\<lambda>kv. json_value toStr toNum (snd kv)) ((k, v) # kvs)"
      "distinct (map fst (acc @ (k, v) # kvs))"
      "list_all is_ws indent" "list_all is_ws stepback" "list_all is_ws w"
      "Suc (length (join (CHR '','' # CHR ''\<newline>'' # indent)
                  (SerializeJSONObject toStr indent ((k, v) # kvs)))) < n"
    have jv: "json_value toStr toNum v"
      and jvs: "list_all (\<lambda>kv. json_value toStr toNum (snd kv)) kvs"
      using a(1) by simp_all
    obtain tv where tv: "SerializeJSONProperty toStr indent v = Some tv"
      using json_value_text[OF jv, of indent] by blast
    show "parse_members toNum n
             (w @ join (CHR '','' # CHR ''\<newline>'' # indent) (SerializeJSONObject toStr indent ((k, v) # kvs))
                @ CHR ''\<newline>'' # stepback @ CHR ''}'' # rest) acc = Some (Obj (acc @ (k, v) # kvs), rest)"
    proof (rule members_roundtrip_step[OF _ _ a(1,2,3,4,5,6)])
      fix t n' w' rest'
      assume "SerializeJSONProperty toStr indent v = Some t" "length t < n'"
        "list_all is_ws w'" "rest' \<noteq> []" "hd rest' = CHR '','' \<or> hd rest' = CHR ''\<newline>''"
      with 13(1) jv a(3) show "parse_value toNum n' (w' @ t @ rest') = Some (v, rest')"
        by blast
    next
      fix n' w' acc'
      assume "kvs \<noteq> []" "list_all is_ws w'" "distinct (map fst (acc' @ kvs))"
        "Suc (length (join (CHR '','' # CHR ''\<newline>'' # indent) (SerializeJSONObject toStr indent kvs))) < n'"
      with 13(3)[OF tv] jvs a(3,4) show "parse_members toNum n'
              (w' @ join (CHR '','' # CHR ''\<newline>'' # indent) (SerializeJSONObject toStr indent kvs)
                 @ CHR ''\<newline>'' # stepback @ CHR ''}'' # rest) acc' = Some (Obj (acc' @ kvs), rest)"
        by blast
    qed
  qed
qed

lemma parse_value_roundtrip:
  assumes "json_value toStr toNum v" "list_all is_ws indent"
    "SerializeJSONProperty toStr indent v = Some t" "length t < n" "list_all is_ws w"
    "rest \<noteq> []" "hd rest = CHR '','' \<or> hd rest = CHR ''\<newline>''"
  shows "parse_value toNum n (w @ t @ rest) = Some (v, rest)"
  using roundtrip_mutual(1)[of toStr toNum v indent] assms by blast

lemma parse_text_roundtrip:
  assumes "json_value toStr toNum v" "SerializeJSONProperty toStr [] v = Some t"
  shows "parse_text toNum (t @ ''\<newline>'') = Some v"
proof -
  have l: "length t < Suc (2 * length (t @ ''\<newline>''))" by simp
  have "parse_value toNum (Suc (2 * length (t @ ''\<newline>''))) ([] @ t @ ''\<newline>'') = Some (v, ''\<newline>'')"
    by (rule parse_value_roundtrip[OF assms(1) _ assms(2) l]) simp_all
  then show ?thesis by (simp add: parse_text_def skip_ws_def is_ws_simps)
qed

text \<open>
  On the values and texts the examples use, the table of \<open>test_js\<close> answers as the
  algorithms do.
\<close>

lemma test_js_stringify_agrees:
  "JSON_stringify test_js (Obj []) = SerializeJSONProperty (ToString test_js) [] (Obj [])"
  "JSON_stringify test_js (Obj [(''ok'', Bool True)]) =
     SerializeJSONProperty (ToString test_js) [] (Obj [(''ok'', Bool True)])"
  "JSON_stringify test_js (Obj [(''validationError'', Obj [(''detail'', Str ''bad'')])]) =
     SerializeJSONProperty (ToString test_js) []
       (Obj [(''validationError'', Obj [(''detail'', Str ''bad'')])])"
  by (simp_all add: test_js_def QuoteJSONString_def escape_char_def)

lemma test_js_parse_agrees:
  "parse_text (Number test_js) ''{}'' = Some (Obj [])"
  "JSON_parse test_js ''{}'' = Inr (Obj [])"
  "parse_text (Number test_js) ''{'' = None"
  "JSON_parse test_js ''{'' = Inl ''Unexpected token''"
  by (simp_all add: parse_text_def parse_value.simps parse_members.simps skip_ws_def is_ws_def
      test_js_def trim_newlines_def eval_nat_numeral)

text \<open>
  C8. Let \<open>v\<close> be a JSON-serializable value, on which the runtime's \<open>JSON.stringify\<close>
  and, on the text written, its \<open>JSON.parse\<close> compute what ECMAScript's algorithms
  compute. Then \<open>printJson\<close> writes exactly one chunk to the output sink, the
  pretty-printed JSON of \<open>v\<close> with two-space indentation followed by one line feed, and
  nothing else; parsing what was written gives \<open>v\<close> back.
\<close>

theorem printJson_roundtrip:
  assumes "json_value (ToString (js e)) (Number (js e)) v"
    and "JSON_stringify (js e) v = SerializeJSONProperty (ToString (js e)) [] v"
    and "\<And>text x. SerializeJSONProperty (ToString (js e)) [] v = Some text \<Longrightarrow>
           parse_text (Number (js e)) (text @ ''\<newline>'') = Some x \<Longrightarrow>
           JSON_parse (js e) (text @ ''\<newline>'') = Inr x"
  shows "\<exists>text. SerializeJSONProperty (ToString (js e)) [] v = Some text
           \<and> printJson e v s = (Inr (), s\<lparr>stdout := stdout s @ [text @ ''\<newline>'']\<rparr>)
           \<and> JSON_parse (js e)
                 (concat (drop (length (stdout s)) (stdout (snd (printJson e v s))))) = Inr v"
proof -
  obtain out where t: "SerializeJSONProperty (ToString (js e)) [] v = Some out"
    using json_value_text[OF assms(1), of "[]"] by blast
  have p: "printJson e v s = (Inr (), s\<lparr>stdout := stdout s @ [out @ ''\<newline>'']\<rparr>)"
    by (simp add: printJson_eq assms(2) t)
  have "parse_text (Number (js e)) (out @ ''\<newline>'') = Some v"
    by (rule parse_text_roundtrip[OF assms(1) t])
  then have "JSON_parse (js e) (out @ ''\<newline>'') = Inr v"
    by (rule assms(3)[OF t])
  then have "JSON_parse (js e)
               (concat (drop (length (stdout s)) (stdout (snd (printJson e v s))))) = Inr v"
    by (simp add: p)
  with t p show ?thesis by blast
qed

theorem printJson_roundtrip_witness:
  "printJson (test_env\<lparr>js := codec_js\<rparr>)
     (Obj [(''ok'', Bool True), (''page'', Num (Finite 2)),
           (''items'', Arr [Str ''a'', Null, Arr []])]) initial =
     (Inr (), initial\<lparr>stdout :=
        [''{'' @ ''\<newline>''
         @ ''  \"ok\": true,'' @ ''\<newline>''
         @ ''  \"page\": 2,'' @ ''\<newline>''
         @ ''  \"items\": ['' @ ''\<newline>''
         @ ''    \"a\",'' @ ''\<newline>''
         @ ''    null,'' @ ''\<newline>''
         @ ''    []'' @ ''\<newline>''
         @ ''  ]'' @ ''\<newline>''
         @ ''}'' @ ''\<newline>'']\<rparr>)
   \<and> JSON_parse codec_js
         (concat (stdout (snd (printJson (test_env\<lparr>js := codec_js\<rparr>)
            (Obj [(''ok'', Bool True), (''page'', Num (Finite 2)),
                  (''items'', Arr [Str ''a'', Null, Arr []])]) initial))))
       = Inr (Obj [(''ok'', Bool True), (''page'', Num (Finite 2)),
                   (''items'', Arr [Str ''a'', Null, Arr []])])"
proof -
  let ?e = "test_env\<lparr>js := codec_js\<rparr>"
  let ?v = "Obj [(''ok'', Bool True), (''page'', Num (Finite 2)),
                 (''items'', Arr [Str ''a'', Null, Arr []])]"
  have n: "json_number ''2''"
    by (simp add: json_number_def is_digit_def)
  have jv: "json_value (ToString (js ?e)) (Number (js ?e)) ?v"
    using n by (simp add: codec_js_def test_js_def)
  have h2: "JSON_stringify (js ?e) ?v = SerializeJSONProperty (ToString (js ?e)) [] ?v"
    by (simp add: codec_js_def)
  have h3: "\<And>text x. SerializeJSONProperty (ToString (js ?e)) [] ?v = Some text \<Longrightarrow>
           parse_text (Number (js ?e)) (text @ ''\<newline>'') = Some x \<Longrightarrow>
           JSON_parse (js ?e) (text @ ''\<newline>'') = Inr x"
    by (simp add: codec_js_def)
  obtain out where t:
    "SerializeJSONProperty (ToString (js ?e)) [] ?v = Some out"
    "printJson ?e ?v initial = (Inr (), initial\<lparr>stdout := stdout initial @ [out @ ''\<newline>'']\<rparr>)"
    "JSON_parse (js ?e)
       (concat (drop (length (stdout initial)) (stdout (snd (printJson ?e ?v initial))))) = Inr ?v"
    using printJson_roundtrip[OF jv h2 h3, of initial] by blast
  have "out = ''{'' @ ''\<newline>''
         @ ''  \"ok\": true,'' @ ''\<newline>''
         @ ''  \"page\": 2,'' @ ''\<newline>''
         @ ''  \"items\": ['' @ ''\<newline>''
         @ ''    \"a\",'' @ ''\<newline>''
         @ ''    null,'' @ ''\<newline>''
         @ ''    []'' @ ''\<newline>''
         @ ''  ]'' @ ''\<newline>''
         @ ''}''"
    using t(1) by (simp add: codec_js_def QuoteJSONString_def escape_char_def)
  with t(2,3) show ?thesis by (simp add: initial_def)
qed

text \<open>
  C2, as the code has it. On an API validation error whose \<open>validationError\<close> is truthy,
  \<open>printError\<close> writes the name, status, url and response lines to the error sink, and the
  validation detail, as pretty JSON under the key \<open>validationError\<close>, to the output sink:
  it prints the detail with \<open>printJson\<close>, which writes with \<open>writeOut\<close>.
\<close>

theorem printError_validation_detail_on_stdout:
  assumes "truthy validationError"
  shows "printError e (SeclaiAPIValidationError name message statusCode url responseText
                         validationError) s =
     (Inr (),
      s\<lparr>stderr := stderr s @
           [name @ '': '' @ message @ ''\<newline>'',
            ''status: '' @ ToString (js e) (Num statusCode) @ ''\<newline>'',
            ''url: '' @ url @ ''\<newline>'']
           @ (case responseText of
                Some t \<Rightarrow> if t \<noteq> [] then [''response: '' @ t @ ''\<newline>''] else []
              | None \<Rightarrow> []),
         stdout := stdout s @
           [(case JSON_stringify (js e) (Obj [(''validationError'', validationError)]) of
               Some text \<Rightarrow> text
             | None \<Rightarrow> ''undefined'') @ ''\<newline>'']\<rparr>)"
  using assms by (simp add: print_status_eq printJson_eq bind_def)

theorem printError_validation_detail_on_stdout_witness:
  "printError test_env
     (SeclaiAPIValidationError ''SeclaiAPIValidationError'' ''Unprocessable Entity'' (Finite 422)
        ''https://api.seclai.com/api/sources/'' (Some ''invalid'')
        (Obj [(''detail'', Str ''bad'')])) initial =
   (Inr (),
    initial\<lparr>stderr := [''SeclaiAPIValidationError: Unprocessable Entity\<newline>'',
                        ''status: 422\<newline>'',
                        ''url: https://api.seclai.com/api/sources/\<newline>'',
                        ''response: invalid\<newline>''],
            stdout := [''{'' @ ''\<newline>'' @ ''  \"validationError\": {'' @ ''\<newline>''
                       @ ''    \"detail\": \"bad\"'' @ ''\<newline>'' @ ''  }'' @ ''\<newline>'' @ ''}''
                       @ ''\<newline>'']\<rparr>)"
proof -
  have t: "truthy (Obj [(''detail'', Str ''bad'')])" by simp
  show ?thesis
    using printError_validation_detail_on_stdout[OF t, of test_env
        "''SeclaiAPIValidationError''" "''Unprocessable Entity''" "Finite 422"
        "''https://api.seclai.com/api/sources/''" "Some ''invalid''" initial]
    by (simp add: test_env_def test_js_def initial_def)
qed

text \<open>
  The same at the level of a whole run: \<open>sources list\<close> when \<open>listSources\<close> rejects with
  a validation error. The run fails with exit code 1 and the validation detail is on
  the output sink.
\<close>

lemma validation_failure_run:
  "runCli (test_env\<lparr>Seclai_method := (\<lambda>m args.
        Inl (SeclaiAPIValidationError ''SeclaiAPIValidationError'' ''Unprocessable Entity''
               (Finite 422) ''https://api.seclai.com/api/sources/'' (Some ''invalid'')
               (Obj [(''detail'', Str ''bad'')])))\<rparr>)
     (Dispatch (Some ''k'') SourcesList [] []) initial =
   (Inr 1,
    initial\<lparr>stderr := [''SeclaiAPIValidationError: Unprocessable Entity\<newline>'',
                        ''status: 422\<newline>'',
                        ''url: https://api.seclai.com/api/sources/\<newline>'',
                        ''response: invalid\<newline>''],
            stdout := [''{'' @ ''\<newline>'' @ ''  \"validationError\": {'' @ ''\<newline>''
                       @ ''    \"detail\": \"bad\"'' @ ''\<newline>'' @ ''  }'' @ ''\<newline>'' @ ''}''
                       @ ''\<newline>''],
            observedExitCode := 1,
            exitCodes := [1, 1],
            sdkLog := [Construct (Obj [(''apiKey'', Str ''k''),
                                       (''baseUrl'', Str ''https://api.seclai.com'')]),
                       Call ''listSources''
                         [Obj [(''page'', Undefined), (''limit'', Undefined),
                               (''sort'', Undefined), (''order'', Undefined),
                               (''accountId'', Undefined)]]]\<rparr>)"
  by (simp add: runCli_def commander_leaf_eq action_arguments_def sources_list_def run_def
      param_def program_opts_def createClient_eq client_call_def print_status_eq printJson_eq
      test_env_def test_js_def initial_def bind_def try_catch_def done_io_def setExitCode_def
      Let_def)

subsection \<open>What the leaf commands pass to the client\<close>

lemma run_sdkLog: "sdkLog (snd (run e main s)) = sdkLog (snd (main s))"
  unfolding run_def try_catch_def bind_def setExitCode_def
  by (auto split: prod.splits sum.splits) (metis snd_conv printError_frame(5))+

lemma runCli_sdkLog:
  "sdkLog (snd (runCli e argv s)) = sdkLog (snd (parseAsync e argv (s\<lparr>observedExitCode := 0\<rparr>)))"
  by (auto simp: runCli_def try_catch_def bind_def setExitCode_def done_io_def Let_def
      split: prod.splits sum.splits option.splits)
    (metis fst_conv snd_conv printError_frame sum.distinct(1))+

lemma commander_leaf_no_flags:
  "length operands = declared_arguments l \<Longrightarrow> mandatory_options l = [] \<Longrightarrow>
   commander_leaf e l operands [] s = (Inr (map Str operands @ [Obj [], CommandObj]), s)"
  by (simp add: commander_leaf_eq action_arguments_def done_io_def)

lemma commander_leaf_ok:
  assumes "parse_flags e l flags [] = Inr opts"
    and "\<not> list_ex (\<lambda>k. map_of opts k = None) (mandatory_options l)"
    and "declared_arguments l \<le> length operands"
    and "length operands = declared_arguments l \<or> allowExcessArguments e"
  shows "commander_leaf e l operands flags s =
           (Inr (map Str (take (declared_arguments l) operands) @ [Obj opts, CommandObj]), s)"
  using assms by (auto simp: commander_leaf_eq action_arguments_def done_io_def)

lemma run_throws:
  assumes "main s = (Inl err, s1)"
  shows "run e main s =
           (Inr (), (snd (printError e err s1))\<lparr>observedExitCode := 1,
                      exitCodes := exitCodes (snd (printError e err s1)) @ [1]\<rparr>)"
  using assms printError_frame(1)[of e err s1]
  by (cases "printError e err s1")
     (simp add: run_def try_catch_def bind_def setExitCode_def)

lemma run_returns:
  assumes "main s = (Inr x, s1)"
  shows "run e main s = (Inr (), s1)"
  using assms by (simp add: run_def try_catch_def)

lemma runCli_returns:
  assumes "parseAsync e argv (s\<lparr>observedExitCode := 0\<rparr>) = (Inr (), s1)"
  shows "runCli e argv s =
           (Inr (observedExitCode s1),
            s1\<lparr>observedExitCode := observedExitCode s1,
                exitCodes := exitCodes s1 @ [observedExitCode s1]\<rparr>)"
  using assms
  by (simp add: runCli_def bind_def try_catch_def done_io_def setExitCode_def Let_def)

text \<open>
  \<open>sources upload\<close> with an option it does not declare and without \<open>--file\<close>: the
  missing mandatory option is the error reported.
\<close>

lemma sources_upload_checks_mandatory_first:
  "commander_leaf e SourcesUpload [connection] [Opt ''bogus'' ''1''] s =
     usage_error ''commander.missingMandatoryOptionValue'' s"
  by (simp add: commander_leaf_def known_flag_def)

lemma leaf_one_flag:
  assumes "parse_flag e l f = Inr (k, v)" "mandatory_options l = []"
    "length operands = declared_arguments l"
  shows "commander_leaf e l operands [f] s = (Inr (map Str operands @ [Obj [(k, v)], CommandObj]), s)"
  using assms by (simp add: commander_leaf_eq action_arguments_def done_io_def)

text \<open>
  C1, as the code has it. \<open>sources list\<close> and \<open>contents get\<close> build their options with
  an object literal that names every key, so with no flag on the command line the object
  handed to \<open>listSources\<close> holds the five keys \<open>page\<close>, \<open>limit\<close>, \<open>sort\<close>, \<open>order\<close>
  and \<open>accountId\<close>, each present with the value \<open>undefined\<close>, and the object handed to
  \<open>getContentDetail\<close> holds \<open>start\<close> and \<open>end\<close>, each \<open>undefined\<close>.
\<close>

theorem list_options_hold_undefined_keys:
  assumes "Seclai_new e (ctor_opts e apiKey) = None"
  shows "sdkLog (snd (runCli e (Dispatch apiKey SourcesList [] []) s)) =
           sdkLog s @ [Construct (ctor_opts e apiKey),
             Call ''listSources'' [Obj [(''page'', Undefined), (''limit'', Undefined),
               (''sort'', Undefined), (''order'', Undefined), (''accountId'', Undefined)]]]
       \<and> sdkLog (snd (runCli e (Dispatch apiKey ContentsGet [contentVersion] []) s)) =
           sdkLog s @ [Construct (ctor_opts e apiKey),
             Call ''getContentDetail''
               [Str contentVersion, Obj [(''start'', Undefined), (''end'', Undefined)]]]"
  using assms
  by (simp add: runCli_sdkLog bind_def commander_leaf_no_flags run_sdkLog sources_list_def
      contents_get_def param_def createClient_program_opts client_call_def printJson_eq Let_def
      split: sum.splits)

theorem list_options_hold_undefined_keys_witness:
  "sdkLog (snd (runCli test_env (Dispatch (Some ''k'') SourcesList [] []) initial)) =
     [Construct (Obj [(''apiKey'', Str ''k''), (''baseUrl'', Str ''https://api.seclai.com'')]),
      Call ''listSources'' [Obj [(''page'', Undefined), (''limit'', Undefined),
        (''sort'', Undefined), (''order'', Undefined), (''accountId'', Undefined)]]]
   \<and> sdkLog (snd (runCli test_env (Dispatch (Some ''k'') ContentsGet [''cv_1''] []) initial)) =
     [Construct (Obj [(''apiKey'', Str ''k''), (''baseUrl'', Str ''https://api.seclai.com'')]),
      Call ''getContentDetail''
        [Str ''cv_1'', Obj [(''start'', Undefined), (''end'', Undefined)]]]"
proof -
  have c: "ctor_opts test_env (Some ''k'') =
             Obj [(''apiKey'', Str ''k''), (''baseUrl'', Str ''https://api.seclai.com'')]"
    by (simp add: ctor_opts_def test_env_def)
  have h: "Seclai_new test_env (ctor_opts test_env (Some ''k'')) = None"
    unfolding c by (simp add: test_env_def)
  show ?thesis
    using list_options_hold_undefined_keys[OF h, of initial "''cv_1''"]
    unfolding c by (simp add: initial_def)
qed

text \<open>
  C3, as the code has it. \<open>agents runs get\<close> declares the single argument \<open><runId>\<close>,
  and its handler takes \<open>(agentId, runId, opts)\<close>. Commander calls the handler with the
  one declared operand, the options object and the command, so \<open>runId\<close> is bound to the
  options object and \<open>opts\<close> to the command: \<open>getAgentRun\<close> is called with the options
  object in the place of the run id and with \<open>undefined\<close> as its options, whatever
  operands were given.
\<close>

theorem agentRuns_get_passes_options_as_run_id:
  assumes "Seclai_new e (ctor_opts e apiKey) = None"
    and "parse_flags e AgentsRunsGet flags [] = Inr opts"
    and "rest = [] \<or> allowExcessArguments e"
  shows "sdkLog (snd (runCli e (Dispatch apiKey AgentsRunsGet (first # rest) flags) s)) =
           sdkLog s @ [Construct (ctor_opts e apiKey),
                       Call ''getAgentRun'' [Obj opts, Undefined]]"
proof -
  have c: "commander_leaf e AgentsRunsGet (first # rest) flags (s\<lparr>observedExitCode := 0\<rparr>) =
             (Inr [Str first, Obj opts, CommandObj], s\<lparr>observedExitCode := 0\<rparr>)"
    using commander_leaf_ok[of e AgentsRunsGet flags opts "first # rest"] assms(2,3) by auto
  show ?thesis
    using assms(1)
    by (simp add: runCli_sdkLog bind_def c run_sdkLog agentRuns_get_def param_def
        createClient_program_opts client_call_def printJson_eq Let_def split: sum.splits)
qed

theorem agentRuns_get_passes_options_as_run_id_witness:
  "sdkLog (snd (runCli test_env
       (Dispatch (Some ''k'') AgentsRunsGet [''agent_1'', ''run_1''] []) initial)) =
     [Construct (Obj [(''apiKey'', Str ''k''), (''baseUrl'', Str ''https://api.seclai.com'')]),
      Call ''getAgentRun'' [Obj [], Undefined]]"
proof -
  have c: "ctor_opts test_env (Some ''k'') =
             Obj [(''apiKey'', Str ''k''), (''baseUrl'', Str ''https://api.seclai.com'')]"
    by (simp add: ctor_opts_def test_env_def)
  have h: "Seclai_new test_env (ctor_opts test_env (Some ''k'')) = None"
    unfolding c by (simp add: test_env_def)
  have p: "parse_flags test_env AgentsRunsGet [] [] = Inr []" by simp
  have a: "[''run_1''] = [] \<or> allowExcessArguments test_env" by (simp add: test_env_def)
  show ?thesis
    using agentRuns_get_passes_options_as_run_id[OF h p a, of "''agent_1''" initial]
    unfolding c by (simp add: initial_def)
qed

lemma agentRuns_get_declared_form:
  assumes "Seclai_new e (ctor_opts e apiKey) = None"
  shows "sdkLog (snd (runCli e
           (Dispatch apiKey AgentsRunsGet [runId] [Flag ''includeStepOutputs'']) s)) =
         sdkLog s @ [Construct (ctor_opts e apiKey),
                     Call ''getAgentRun'' [Obj [(''includeStepOutputs'', Bool True)], Undefined]]
       \<and> sdkLog (snd (runCli e
           (Dispatch apiKey RunsGet [runId] [Flag ''includeStepOutputs'']) s)) =
         sdkLog s @ [Construct (ctor_opts e apiKey),
                     Call ''getAgentRun'' [Str runId, Obj [(''includeStepOutputs'', Bool True)]]]"
proof -
  have c: "commander_leaf e AgentsRunsGet [runId] [Flag ''includeStepOutputs'']
             (s\<lparr>observedExitCode := 0\<rparr>) =
           (Inr [Str runId, Obj [(''includeStepOutputs'', Bool True)], CommandObj],
            s\<lparr>observedExitCode := 0\<rparr>)"
    using commander_leaf_ok[of e AgentsRunsGet "[Flag ''includeStepOutputs'']"
            "[(''includeStepOutputs'', Bool True)]" "[runId]"] by simp
  have d: "commander_leaf e RunsGet [runId] [Flag ''includeStepOutputs'']
             (s\<lparr>observedExitCode := 0\<rparr>) =
           (Inr [Str runId, Obj [(''includeStepOutputs'', Bool True)], CommandObj],
            s\<lparr>observedExitCode := 0\<rparr>)"
    using commander_leaf_ok[of e RunsGet "[Flag ''includeStepOutputs'']"
            "[(''includeStepOutputs'', Bool True)]" "[runId]"] by simp
  show ?thesis
    using assms
    by (simp add: runCli_sdkLog bind_def c d run_sdkLog agentRuns_get_def runs_get_def param_def
        createClient_program_opts client_call_def printJson_eq Let_def split: sum.splits)
qed

lemma agentRuns_get_excess_rejected:
  assumes "parse_flags e AgentsRunsGet flags [] = Inr opts"
    and "rest \<noteq> []" and "\<not> allowExcessArguments e"
  shows "runCli e (Dispatch apiKey AgentsRunsGet (first # rest) flags) s =
           (Inr 1, s\<lparr>stderr := stderr s @ [''error: commander.excessArguments\<newline>''],
                     observedExitCode := 1, exitCodes := exitCodes s @ [1]\<rparr>)"
  using assms
  by (cases rest)
     (simp_all add: runCli_def commander_leaf_eq usage_error_def bind_def try_catch_def
       writeErr_def throw_def done_io_def setExitCode_def Let_def)

text \<open>
  The earlier revision, called with its two declared operands, passes the run id.
\<close>

lemma agentRuns_get_earlier_passes_run_id:
  assumes "Seclai_new e (Obj (case apiKey of Some k \<Rightarrow> [(''apiKey'', Str k)] | None \<Rightarrow> [])) = None"
  shows "sdkLog (snd (agentRuns_get_earlier e (program_opts apiKey)
                        (action_arguments 2 [agentId, runId] opts) s)) =
         sdkLog s @ [Construct (Obj (case apiKey of Some k \<Rightarrow> [(''apiKey'', Str k)] | None \<Rightarrow> [])),
                     Call ''getAgentRun'' [Str agentId, Str runId]]"
  using assms
  by (cases apiKey)
     (simp_all add: agentRuns_get_earlier_def createClient_earlier_def program_opts_def
        action_arguments_def param_def run_sdkLog bind_def new_Seclai_def client_call_def
        printJson_eq Let_def split: sum.splits)

text \<open>
  C4, as amended. For \<open>agents run\<close> with both \<open>--json\<close> and \<open>--json-file\<close>, the client
  constructor is invoked exactly once, before the input is resolved; no client method is
  called and standard input is not read. When the constructor does not throw, the command
  fails with the local input error \<open>Provide only one of --json or --json-file\<close> on the
  error sink and exit code 1, and nothing is written to the output sink. When the
  constructor throws, its error is the one reported, with exit code 1: the conflicting
  flags are not looked at before the client is constructed.
\<close>

theorem agents_run_both_json_sources:
  assumes "parse_flags e AgentsRun flags [] = Inr opts"
    and "map_of opts ''json'' = Some (Str j)"
    and "map_of opts ''jsonFile'' = Some (Str f)"
  shows "sdkLog (snd (runCli e (Dispatch apiKey AgentsRun [agentId] flags) s)) =
           sdkLog s @ [Construct (ctor_opts e apiKey)]
       \<and> stdinReads (snd (runCli e (Dispatch apiKey AgentsRun [agentId] flags) s)) = stdinReads s
       \<and> (Seclai_new e (ctor_opts e apiKey) = None \<longrightarrow>
            runCli e (Dispatch apiKey AgentsRun [agentId] flags) s =
              (Inr 1,
               s\<lparr>stderr := stderr s @ [''Error: Provide only one of --json or --json-file\<newline>''],
                 observedExitCode := 1,
                 exitCodes := exitCodes s @ [1, 1],
                 sdkLog := sdkLog s @ [Construct (ctor_opts e apiKey)]\<rparr>))
       \<and> (\<forall>err. Seclai_new e (ctor_opts e apiKey) = Some err \<longrightarrow>
            runCli e (Dispatch apiKey AgentsRun [agentId] flags) s =
              (Inr 1,
               (snd (printError e err
                       (s\<lparr>observedExitCode := 0,
                          sdkLog := sdkLog s @ [Construct (ctor_opts e apiKey)]\<rparr>)))
                 \<lparr>observedExitCode := 1, exitCodes := exitCodes s @ [1, 1]\<rparr>))"
proof -
  let ?s0 = "s\<lparr>observedExitCode := 0\<rparr>"
  let ?inv = "Dispatch apiKey AgentsRun [agentId] flags"
  let ?c = "ctor_opts e apiKey"
  let ?s1 = "?s0\<lparr>sdkLog := sdkLog s @ [Construct ?c]\<rparr>"
  have c: "commander_leaf e AgentsRun [agentId] flags ?s0 =
             (Inr [Str agentId, Obj opts, CommandObj], ?s0)"
    using commander_leaf_ok[of e AgentsRun flags opts "[agentId]"] assms(1) by simp
  have r: "readJsonInput e \<lparr>json = Some j, jsonFile = Some f\<rparr> s' =
             (Inl (Error ''Error'' ''Provide only one of --json or --json-file''), s')" for s'
    by (simp add: readJsonInput_def throw_def)
  have ok: "runCli e ?inv s =
              (Inr 1,
               s\<lparr>stderr := stderr s @ [''Error: Provide only one of --json or --json-file\<newline>''],
                 observedExitCode := 1,
                 exitCodes := exitCodes s @ [1, 1],
                 sdkLog := sdkLog s @ [Construct ?c]\<rparr>)"
    if n: "Seclai_new e ?c = None"
  proof -
    have a: "agents_run e (program_opts apiKey) [Str agentId, Obj opts, CommandObj] ?s0 =
             (Inr (), ?s0\<lparr>sdkLog := sdkLog s @ [Construct ?c],
                  stderr := stderr s @ [''Error: Provide only one of --json or --json-file\<newline>''],
                  observedExitCode := 1, exitCodes := exitCodes s @ [1]\<rparr>)"
      unfolding agents_run_def Let_def
      apply (subst run_throws[where err = "Error ''Error'' ''Provide only one of --json or --json-file''"
            and ?s1.0 = "?s1"])
      using n assms(2,3)
       apply (simp add: bind_def createClient_program_opts param_def str_opt_def r)
      apply (simp add: writeErr_def)
      done
    have p: "parseAsync e ?inv ?s0 =
             (Inr (), ?s0\<lparr>sdkLog := sdkLog s @ [Construct ?c],
                  stderr := stderr s @ [''Error: Provide only one of --json or --json-file\<newline>''],
                  observedExitCode := 1, exitCodes := exitCodes s @ [1]\<rparr>)"
      by (simp add: bind_def c a)
    show ?thesis
      by (simp add: runCli_returns[OF p])
  qed
  have ko: "runCli e ?inv s =
              (Inr 1, (snd (printError e err ?s1))
                 \<lparr>observedExitCode := 1, exitCodes := exitCodes s @ [1, 1]\<rparr>)"
    if n: "Seclai_new e ?c = Some err" for err
  proof -
    have a: "agents_run e (program_opts apiKey) [Str agentId, Obj opts, CommandObj] ?s0 =
             (Inr (), (snd (printError e err ?s1))\<lparr>observedExitCode := 1,
                      exitCodes := exitCodes (snd (printError e err ?s1)) @ [1]\<rparr>)"
      unfolding agents_run_def Let_def
      apply (rule run_throws)
      using n
      apply (simp add: bind_def createClient_program_opts)
      done
    have p: "parseAsync e ?inv ?s0 =
             (Inr (), (snd (printError e err ?s1))\<lparr>observedExitCode := 1,
                      exitCodes := exitCodes (snd (printError e err ?s1)) @ [1]\<rparr>)"
      by (simp add: bind_def c a)
    show ?thesis
      by (simp add: runCli_returns[OF p] printError_frame(2))
  qed
  have log: "sdkLog (snd (runCli e ?inv s)) = sdkLog s @ [Construct ?c]"
  proof (cases "Seclai_new e ?c")
    case None
    then show ?thesis by (simp add: ok)
  next
    case (Some err)
    then show ?thesis by (simp add: ko printError_frame(5))
  qed
  have rd: "stdinReads (snd (runCli e ?inv s)) = stdinReads s"
  proof (cases "Seclai_new e ?c")
    case None
    then show ?thesis by (simp add: ok)
  next
    case (Some err)
    then show ?thesis by (simp add: ko printError_frame(4))
  qed
  from log rd ok ko show ?thesis by blast
qed

theorem agents_run_both_json_sources_witness:
  "runCli test_env (Dispatch (Some ''k'') AgentsRun [''agent_1'']
       [Opt ''json'' ''{}'', Opt ''jsonFile'' ''run.json'']) initial =
     (Inr 1,
      initial\<lparr>stderr := [''Error: Provide only one of --json or --json-file\<newline>''],
        observedExitCode := 1,
        exitCodes := [1, 1],
        sdkLog := [Construct (Obj [(''apiKey'', Str ''k''),
                                   (''baseUrl'', Str ''https://api.seclai.com'')])]\<rparr>)
   \<and> runCli test_env (Dispatch None AgentsRun [''agent_1'']
       [Opt ''json'' ''{}'', Opt ''jsonFile'' ''run.json'']) initial =
     (Inr 1,
      initial\<lparr>stderr := [''SeclaiConfigurationError: Missing API key\<newline>''],
        observedExitCode := 1,
        exitCodes := [1, 1],
        sdkLog := [Construct (Obj [(''baseUrl'', Str ''https://api.seclai.com'')])]\<rparr>)"
proof -
  have c: "ctor_opts test_env (Some ''k'') =
             Obj [(''apiKey'', Str ''k''), (''baseUrl'', Str ''https://api.seclai.com'')]"
          "ctor_opts test_env None = Obj [(''baseUrl'', Str ''https://api.seclai.com'')]"
    by (simp_all add: ctor_opts_def test_env_def)
  have h: "Seclai_new test_env (ctor_opts test_env (Some ''k'')) = None"
    unfolding c by (simp add: test_env_def)
  have h': "Seclai_new test_env (ctor_opts test_env None) =
              Some (SeclaiConfigurationError ''SeclaiConfigurationError'' ''Missing API key'')"
    unfolding c by (simp add: test_env_def)
  have p: "parse_flags test_env AgentsRun [Opt ''json'' ''{}'', Opt ''jsonFile'' ''run.json''] [] =
             Inr [(''json'', Str ''{}''), (''jsonFile'', Str ''run.json'')]"
    by simp
  have m: "map_of [(''json'', Str ''{}''), (''jsonFile'', Str ''run.json'')] ''json'' = Some (Str ''{}'')"
          "map_of [(''json'', Str ''{}''), (''jsonFile'', Str ''run.json'')] ''jsonFile'' = Some (Str ''run.json'')"
    by simp_all
  show ?thesis
    using agents_run_both_json_sources[OF p m, of "Some ''k''" "''agent_1''" initial]
      agents_run_both_json_sources[OF p m, of None "''agent_1''" initial] h h'
    unfolding c by (simp add: initial_def writeErr_def)
qed

theorem agents_run_both_json_sources_counterexample:
  "sdkLog (snd (runCli test_env (Dispatch (Some ''k'') AgentsRun [''agent_1'']
       [Opt ''json'' ''{}'', Opt ''jsonFile'' ''run.json'']) initial)) =
     [Construct (Obj [(''apiKey'', Str ''k''), (''baseUrl'', Str ''https://api.seclai.com'')])]"
  by (simp add: runCli_sdkLog bind_def commander_leaf_eq action_arguments_def done_io_def
      run_sdkLog agents_run_def param_def program_opts_def createClient_eq str_opt_def
      readJsonInput_def throw_def test_env_def initial_def Let_def)

text \<open>
  C9. A numeric option applies \<open>Number(v)\<close> to its argument and nothing else. The numeric
  options are \<open>--page\<close> and \<open>--limit\<close> of \<open>sources list\<close>, \<open>agents runs list\<close> and
  \<open>contents embeddings\<close>, \<open>--start\<close> and \<open>--end\<close> of \<open>contents get\<close>, and
  \<open>--timeout-ms\<close> of \<open>agents run\<close>. Parsing such a flag never fails, and when
  \<open>Number(v)\<close> is \<open>NaN\<close> that \<open>NaN\<close> is what the client call receives for the option;
  for \<open>--timeout-ms\<close> it is passed inside the streaming options object with \<open>--stream\<close>,
  and not passed on without it. Whenever the client call resolves, the run ends with exit
  code 0 and nothing on the error sink.
\<close>

theorem numeric_option_passes_NaN:
  assumes "Number (js e) v = NaN"
    and "Seclai_new e (ctor_opts e apiKey) = None"
  shows "(map_of (declared_options l) k = Some Numeric \<longleftrightarrow>
            (l, k) \<in> {(SourcesList, ''page''), (SourcesList, ''limit''), (AgentsRun, ''timeoutMs''),
                      (AgentsRunsList, ''page''), (AgentsRunsList, ''limit''),
                      (ContentsGet, ''start''), (ContentsGet, ''end''),
                      (ContentsEmbeddings, ''page''), (ContentsEmbeddings, ''limit'')})
       \<and> (map_of (declared_options l) k = Some Numeric \<longrightarrow>
            parse_flag e l (Opt k v) = Inr (k, Num NaN))
       \<and> sdkLog (snd (runCli e (Dispatch apiKey SourcesList []
                         [Opt ''page'' v]) s)) =
           sdkLog s @ [Construct (ctor_opts e apiKey),
             Call ''listSources''
               [Obj [(''page'', Num NaN), (''limit'', Undefined), (''sort'', Undefined),
                     (''order'', Undefined), (''accountId'', Undefined)]]]
       \<and> (\<forall>r. Seclai_method e ''listSources''
                 [Obj [(''page'', Num NaN), (''limit'', Undefined), (''sort'', Undefined),
                       (''order'', Undefined), (''accountId'', Undefined)]] = Inr r \<longrightarrow>
            fst (runCli e (Dispatch apiKey SourcesList []
                   [Opt ''page'' v]) s) = Inr 0
            \<and> stderr (snd (runCli e (Dispatch apiKey SourcesList []
                             [Opt ''page'' v]) s)) = stderr s)
       \<and> sdkLog (snd (runCli e (Dispatch apiKey SourcesList []
                         [Opt ''limit'' v]) s)) =
           sdkLog s @ [Construct (ctor_opts e apiKey),
             Call ''listSources''
               [Obj [(''page'', Undefined), (''limit'', Num NaN), (''sort'', Undefined),
                     (''order'', Undefined), (''accountId'', Undefined)]]]
       \<and> (\<forall>r. Seclai_method e ''listSources''
                 [Obj [(''page'', Undefined), (''limit'', Num NaN), (''sort'', Undefined),
                       (''order'', Undefined), (''accountId'', Undefined)]] = Inr r \<longrightarrow>
            fst (runCli e (Dispatch apiKey SourcesList []
                   [Opt ''limit'' v]) s) = Inr 0
            \<and> stderr (snd (runCli e (Dispatch apiKey SourcesList []
                             [Opt ''limit'' v]) s)) = stderr s)
       \<and> sdkLog (snd (runCli e (Dispatch apiKey AgentsRunsList [agentId]
                         [Opt ''page'' v]) s)) =
           sdkLog s @ [Construct (ctor_opts e apiKey),
             Call ''listAgentRuns''
               [Str agentId, Obj [(''page'', Num NaN), (''limit'', Undefined)]]]
       \<and> (\<forall>r. Seclai_method e ''listAgentRuns''
                 [Str agentId, Obj [(''page'', Num NaN), (''limit'', Undefined)]] = Inr r \<longrightarrow>
            fst (runCli e (Dispatch apiKey AgentsRunsList [agentId]
                   [Opt ''page'' v]) s) = Inr 0
            \<and> stderr (snd (runCli e (Dispatch apiKey AgentsRunsList [agentId]
                             [Opt ''page'' v]) s)) = stderr s)
       \<and> sdkLog (snd (runCli e (Dispatch apiKey AgentsRunsList [agentId]
                         [Opt ''limit'' v]) s)) =
           sdkLog s @ [Construct (ctor_opts e apiKey),
             Call ''listAgentRuns''
               [Str agentId, Obj [(''page'', Undefined), (''limit'', Num NaN)]]]
       \<and> (\<forall>r. Seclai_method e ''listAgentRuns''
                 [Str agentId, Obj [(''page'', Undefined), (''limit'', Num NaN)]] = Inr r \<longrightarrow>
            fst (runCli e (Dispatch apiKey AgentsRunsList [agentId]
                   [Opt ''limit'' v]) s) = Inr 0
            \<and> stderr (snd (runCli e (Dispatch apiKey AgentsRunsList [agentId]
                             [Opt ''limit'' v]) s)) = stderr s)
       \<and> sdkLog (snd (runCli e (Dispatch apiKey ContentsGet [cv]
                         [Opt ''start'' v]) s)) =
           sdkLog s @ [Construct (ctor_opts e apiKey),
             Call ''getContentDetail''
               [Str cv, Obj [(''start'', Num NaN), (''end'', Undefined)]]]
       \<and> (\<forall>r. Seclai_method e ''getContentDetail''
                 [Str cv, Obj [(''start'', Num NaN), (''end'', Undefined)]] = Inr r \<longrightarrow>
            fst (runCli e (Dispatch apiKey ContentsGet [cv]
                   [Opt ''start'' v]) s) = Inr 0
            \<and> stderr (snd (runCli e (Dispatch apiKey ContentsGet [cv]
                             [Opt ''start'' v]) s)) = stderr s)
       \<and> sdkLog (snd (runCli e (Dispatch apiKey ContentsGet [cv]
                         [Opt ''end'' v]) s)) =
           sdkLog s @ [Construct (ctor_opts e apiKey),
             Call ''getContentDetail''
               [Str cv, Obj [(''start'', Undefined), (''end'', Num NaN)]]]
       \<and> (\<forall>r. Seclai_method e ''getContentDetail''
                 [Str cv, Obj [(''start'', Undefined), (''end'', Num NaN)]] = Inr r \<longrightarrow>
            fst (runCli e (Dispatch apiKey ContentsGet [cv]
                   [Opt ''end'' v]) s) = Inr 0
            \<and> stderr (snd (runCli e (Dispatch apiKey ContentsGet [cv]
                             [Opt ''end'' v]) s)) = stderr s)
       \<and> sdkLog (snd (runCli e (Dispatch apiKey ContentsEmbeddings [cv]
                         [Opt ''page'' v]) s)) =
           sdkLog s @ [Construct (ctor_opts e apiKey),
             Call ''listContentEmbeddings''
               [Str cv, Obj [(''page'', Num NaN), (''limit'', Undefined)]]]
       \<and> (\<forall>r. Seclai_method e ''listContentEmbeddings''
                 [Str cv, Obj [(''page'', Num NaN), (''limit'', Undefined)]] = Inr r \<longrightarrow>
            fst (runCli e (Dispatch apiKey ContentsEmbeddings [cv]
                   [Opt ''page'' v]) s) = Inr 0
            \<and> stderr (snd (runCli e (Dispatch apiKey ContentsEmbeddings [cv]
                             [Opt ''page'' v]) s)) = stderr s)
       \<and> sdkLog (snd (runCli e (Dispatch apiKey ContentsEmbeddings [cv]
                         [Opt ''limit'' v]) s)) =
           sdkLog s @ [Construct (ctor_opts e apiKey),
             Call ''listContentEmbeddings''
               [Str cv, Obj [(''page'', Undefined), (''limit'', Num NaN)]]]
       \<and> (\<forall>r. Seclai_method e ''listContentEmbeddings''
                 [Str cv, Obj [(''page'', Undefined), (''limit'', Num NaN)]] = Inr r \<longrightarrow>
            fst (runCli e (Dispatch apiKey ContentsEmbeddings [cv]
                   [Opt ''limit'' v]) s) = Inr 0
            \<and> stderr (snd (runCli e (Dispatch apiKey ContentsEmbeddings [cv]
                             [Opt ''limit'' v]) s)) = stderr s)
       \<and> (has_runStreamingAgentAndWait e \<and> JSON_parse (js e) j = Inr body \<and> j \<noteq> ''-'' \<longrightarrow>
            sdkLog (snd (runCli e (Dispatch apiKey AgentsRun [agentId]
                            [Opt ''json'' j, Flag ''stream'', Opt ''timeoutMs'' v]) s)) =
              sdkLog s @ [Construct (ctor_opts e apiKey),
                Call ''runStreamingAgentAndWait''
                  [Str agentId, body, Obj [(''timeoutMs'', Num NaN)]]]
            \<and> (\<forall>r. Seclai_method e ''runStreamingAgentAndWait''
                      [Str agentId, body, Obj [(''timeoutMs'', Num NaN)]] = Inr r \<longrightarrow>
                 fst (runCli e (Dispatch apiKey AgentsRun [agentId]
                        [Opt ''json'' j, Flag ''stream'', Opt ''timeoutMs'' v]) s) = Inr 0
                 \<and> stderr (snd (runCli e (Dispatch apiKey AgentsRun [agentId]
                                  [Opt ''json'' j, Flag ''stream'', Opt ''timeoutMs'' v]) s)) = stderr s))
       \<and> (JSON_parse (js e) j = Inr body \<and> j \<noteq> ''-'' \<longrightarrow>
            sdkLog (snd (runCli e (Dispatch apiKey AgentsRun [agentId]
                            [Opt ''json'' j, Opt ''timeoutMs'' v]) s)) =
              sdkLog s @ [Construct (ctor_opts e apiKey),
                Call ''runAgent''
                  [Str agentId, body]]
            \<and> (\<forall>r. Seclai_method e ''runAgent''
                      [Str agentId, body] = Inr r \<longrightarrow>
                 fst (runCli e (Dispatch apiKey AgentsRun [agentId]
                        [Opt ''json'' j, Opt ''timeoutMs'' v]) s) = Inr 0
                 \<and> stderr (snd (runCli e (Dispatch apiKey AgentsRun [agentId]
                                  [Opt ''json'' j, Opt ''timeoutMs'' v]) s)) = stderr s))"
proof -
  have enum: "(map_of (declared_options l) k = Some Numeric \<longleftrightarrow>
       (l, k) \<in> {(SourcesList, ''page''), (SourcesList, ''limit''), (AgentsRun, ''timeoutMs''),
                 (AgentsRunsList, ''page''), (AgentsRunsList, ''limit''),
                 (ContentsGet, ''start''), (ContentsGet, ''end''),
                 (ContentsEmbeddings, ''page''), (ContentsEmbeddings, ''limit'')})"
    by (cases l) (auto split: if_splits)
  have parse: "(map_of (declared_options l) k = Some Numeric \<longrightarrow>
       parse_flag e l (Opt k v) = Inr (k, Num NaN))"
    using assms(1) by simp
  have sp_log: "sdkLog (snd (runCli e (Dispatch apiKey SourcesList []
                      [Opt ''page'' v]) s)) =
        sdkLog s @ [Construct (ctor_opts e apiKey),
          Call ''listSources''
            [Obj [(''page'', Num NaN), (''limit'', Undefined), (''sort'', Undefined),
                  (''order'', Undefined), (''accountId'', Undefined)]]]"
    using assms
    by (simp add: runCli_sdkLog bind_def leaf_one_flag run_sdkLog sources_list_def param_def
        createClient_program_opts client_call_def printJson_eq Let_def split: sum.splits)
  have sp_exit: "\<forall>r. Seclai_method e ''listSources''
             [Obj [(''page'', Num NaN), (''limit'', Undefined), (''sort'', Undefined),
                   (''order'', Undefined), (''accountId'', Undefined)]] = Inr r \<longrightarrow>
        fst (runCli e (Dispatch apiKey SourcesList []
               [Opt ''page'' v]) s) = Inr 0
        \<and> stderr (snd (runCli e (Dispatch apiKey SourcesList []
                         [Opt ''page'' v]) s)) = stderr s"
    using assms
    by (simp add: runCli_def bind_def leaf_one_flag run_def try_catch_def sources_list_def param_def
        createClient_program_opts client_call_def printJson_eq Let_def done_io_def
        setExitCode_def)
  have sl_log: "sdkLog (snd (runCli e (Dispatch apiKey SourcesList []
                      [Opt ''limit'' v]) s)) =
        sdkLog s @ [Construct (ctor_opts e apiKey),
          Call ''listSources''
            [Obj [(''page'', Undefined), (''limit'', Num NaN), (''sort'', Undefined),
                  (''order'', Undefined), (''accountId'', Undefined)]]]"
    using assms
    by (simp add: runCli_sdkLog bind_def leaf_one_flag run_sdkLog sources_list_def param_def
        createClient_program_opts client_call_def printJson_eq Let_def split: sum.splits)
  have sl_exit: "\<forall>r. Seclai_method e ''listSources''
             [Obj [(''page'', Undefined), (''limit'', Num NaN), (''sort'', Undefined),
                   (''order'', Undefined), (''accountId'', Undefined)]] = Inr r \<longrightarrow>
        fst (runCli e (Dispatch apiKey SourcesList []
               [Opt ''limit'' v]) s) = Inr 0
        \<and> stderr (snd (runCli e (Dispatch apiKey SourcesList []
                         [Opt ''limit'' v]) s)) = stderr s"
    using assms
    by (simp add: runCli_def bind_def leaf_one_flag run_def try_catch_def sources_list_def param_def
        createClient_program_opts client_call_def printJson_eq Let_def done_io_def
        setExitCode_def)
  have rp_log: "sdkLog (snd (runCli e (Dispatch apiKey AgentsRunsList [agentId]
                      [Opt ''page'' v]) s)) =
        sdkLog s @ [Construct (ctor_opts e apiKey),
          Call ''listAgentRuns''
            [Str agentId, Obj [(''page'', Num NaN), (''limit'', Undefined)]]]"
    using assms
    by (simp add: runCli_sdkLog bind_def leaf_one_flag run_sdkLog agentRuns_list_def param_def
        createClient_program_opts client_call_def printJson_eq Let_def split: sum.splits)
  have rp_exit: "\<forall>r. Seclai_method e ''listAgentRuns''
             [Str agentId, Obj [(''page'', Num NaN), (''limit'', Undefined)]] = Inr r \<longrightarrow>
        fst (runCli e (Dispatch apiKey AgentsRunsList [agentId]
               [Opt ''page'' v]) s) = Inr 0
        \<and> stderr (snd (runCli e (Dispatch apiKey AgentsRunsList [agentId]
                         [Opt ''page'' v]) s)) = stderr s"
    using assms
    by (simp add: runCli_def bind_def leaf_one_flag run_def try_catch_def agentRuns_list_def param_def
        createClient_program_opts client_call_def printJson_eq Let_def done_io_def
        setExitCode_def)
  have rl_log: "sdkLog (snd (runCli e (Dispatch apiKey AgentsRunsList [agentId]
                      [Opt ''limit'' v]) s)) =
        sdkLog s @ [Construct (ctor_opts e apiKey),
          Call ''listAgentRuns''
            [Str agentId, Obj [(''page'', Undefined), (''limit'', Num NaN)]]]"
    using assms
    by (simp add: runCli_sdkLog bind_def leaf_one_flag run_sdkLog agentRuns_list_def param_def
        createClient_program_opts client_call_def printJson_eq Let_def split: sum.splits)
  have rl_exit: "\<forall>r. Seclai_method e ''listAgentRuns''
             [Str agentId, Obj [(''page'', Undefined), (''limit'', Num NaN)]] = Inr r \<longrightarrow>
        fst (runCli e (Dispatch apiKey AgentsRunsList [agentId]
               [Opt ''limit'' v]) s) = Inr 0
        \<and> stderr (snd (runCli e (Dispatch apiKey AgentsRunsList [agentId]
                         [Opt ''limit'' v]) s)) = stderr s"
    using assms
    by (simp add: runCli_def bind_def leaf_one_flag run_def try_catch_def agentRuns_list_def param_def
        createClient_program_opts client_call_def printJson_eq Let_def done_io_def
        setExitCode_def)
  have gs_log: "sdkLog (snd (runCli e (Dispatch apiKey ContentsGet [cv]
                      [Opt ''start'' v]) s)) =
        sdkLog s @ [Construct (ctor_opts e apiKey),
          Call ''getContentDetail''
            [Str cv, Obj [(''start'', Num NaN), (''end'', Undefined)]]]"
    using assms
    by (simp add: runCli_sdkLog bind_def leaf_one_flag run_sdkLog contents_get_def param_def
        createClient_program_opts client_call_def printJson_eq Let_def split: sum.splits)
  have gs_exit: "\<forall>r. Seclai_method e ''getContentDetail''
             [Str cv, Obj [(''start'', Num NaN), (''end'', Undefined)]] = Inr r \<longrightarrow>
        fst (runCli e (Dispatch apiKey ContentsGet [cv]
               [Opt ''start'' v]) s) = Inr 0
        \<and> stderr (snd (runCli e (Dispatch apiKey ContentsGet [cv]
                         [Opt ''start'' v]) s)) = stderr s"
    using assms
    by (simp add: runCli_def bind_def leaf_one_flag run_def try_catch_def contents_get_def param_def
        createClient_program_opts client_call_def printJson_eq Let_def done_io_def
        setExitCode_def)
  have ge_log: "sdkLog (snd (runCli e (Dispatch apiKey ContentsGet [cv]
                      [Opt ''end'' v]) s)) =
        sdkLog s @ [Construct (ctor_opts e apiKey),
          Call ''getContentDetail''
            [Str cv, Obj [(''start'', Undefined), (''end'', Num NaN)]]]"
    using assms
    by (simp add: runCli_sdkLog bind_def leaf_one_flag run_sdkLog contents_get_def param_def
        createClient_program_opts client_call_def printJson_eq Let_def split: sum.splits)
  have ge_exit: "\<forall>r. Seclai_method e ''getContentDetail''
             [Str cv, Obj [(''start'', Undefined), (''end'', Num NaN)]] = Inr r \<longrightarrow>
        fst (runCli e (Dispatch apiKey ContentsGet [cv]
               [Opt ''end'' v]) s) = Inr 0
        \<and> stderr (snd (runCli e (Dispatch apiKey ContentsGet [cv]
                         [Opt ''end'' v]) s)) = stderr s"
    using assms
    by (simp add: runCli_def bind_def leaf_one_flag run_def try_catch_def contents_get_def param_def
        createClient_program_opts client_call_def printJson_eq Let_def done_io_def
        setExitCode_def)
  have ep_log: "sdkLog (snd (runCli e (Dispatch apiKey ContentsEmbeddings [cv]
                      [Opt ''page'' v]) s)) =
        sdkLog s @ [Construct (ctor_opts e apiKey),
          Call ''listContentEmbeddings''
            [Str cv, Obj [(''page'', Num NaN), (''limit'', Undefined)]]]"
    using assms
    by (simp add: runCli_sdkLog bind_def leaf_one_flag run_sdkLog contents_embeddings_def param_def
        createClient_program_opts client_call_def printJson_eq Let_def split: sum.splits)
  have ep_exit: "\<forall>r. Seclai_method e ''listContentEmbeddings''
             [Str cv, Obj [(''page'', Num NaN), (''limit'', Undefined)]] = Inr r \<longrightarrow>
        fst (runCli e (Dispatch apiKey ContentsEmbeddings [cv]
               [Opt ''page'' v]) s) = Inr 0
        \<and> stderr (snd (runCli e (Dispatch apiKey ContentsEmbeddings [cv]
                         [Opt ''page'' v]) s)) = stderr s"
    using assms
    by (simp add: runCli_def bind_def leaf_one_flag run_def try_catch_def contents_embeddings_def param_def
        createClient_program_opts client_call_def printJson_eq Let_def done_io_def
        setExitCode_def)
  have el_log: "sdkLog (snd (runCli e (Dispatch apiKey ContentsEmbeddings [cv]
                      [Opt ''limit'' v]) s)) =
        sdkLog s @ [Construct (ctor_opts e apiKey),
          Call ''listContentEmbeddings''
            [Str cv, Obj [(''page'', Undefined), (''limit'', Num NaN)]]]"
    using assms
    by (simp add: runCli_sdkLog bind_def leaf_one_flag run_sdkLog contents_embeddings_def param_def
        createClient_program_opts client_call_def printJson_eq Let_def split: sum.splits)
  have el_exit: "\<forall>r. Seclai_method e ''listContentEmbeddings''
             [Str cv, Obj [(''page'', Undefined), (''limit'', Num NaN)]] = Inr r \<longrightarrow>
        fst (runCli e (Dispatch apiKey ContentsEmbeddings [cv]
               [Opt ''limit'' v]) s) = Inr 0
        \<and> stderr (snd (runCli e (Dispatch apiKey ContentsEmbeddings [cv]
                         [Opt ''limit'' v]) s)) = stderr s"
    using assms
    by (simp add: runCli_def bind_def leaf_one_flag run_def try_catch_def contents_embeddings_def param_def
        createClient_program_opts client_call_def printJson_eq Let_def done_io_def
        setExitCode_def)
  have ts: "has_runStreamingAgentAndWait e \<and> JSON_parse (js e) j = Inr body \<and> j \<noteq> ''-'' \<longrightarrow>
       sdkLog (snd (runCli e (Dispatch apiKey AgentsRun [agentId]
                       [Opt ''json'' j, Flag ''stream'', Opt ''timeoutMs'' v]) s)) =
         sdkLog s @ [Construct (ctor_opts e apiKey),
           Call ''runStreamingAgentAndWait''
             [Str agentId, body, Obj [(''timeoutMs'', Num NaN)]]]
       \<and> (\<forall>r. Seclai_method e ''runStreamingAgentAndWait''
                 [Str agentId, body, Obj [(''timeoutMs'', Num NaN)]] = Inr r \<longrightarrow>
            fst (runCli e (Dispatch apiKey AgentsRun [agentId]
                   [Opt ''json'' j, Flag ''stream'', Opt ''timeoutMs'' v]) s) = Inr 0
            \<and> stderr (snd (runCli e (Dispatch apiKey AgentsRun [agentId]
                             [Opt ''json'' j, Flag ''stream'', Opt ''timeoutMs'' v]) s)) = stderr s)"
  proof (intro impI, elim conjE)
    assume h: "has_runStreamingAgentAndWait e" "JSON_parse (js e) j = Inr body" "j \<noteq> ''-''"
    have c: "commander_leaf e AgentsRun [agentId]
               [Opt ''json'' j, Flag ''stream'', Opt ''timeoutMs'' v] s' =
             (Inr [Str agentId,
                   Obj [(''json'', Str j), (''stream'', Bool True), (''timeoutMs'', Num NaN)],
                   CommandObj], s')" for s'
      using assms(1) by (simp add: commander_leaf_eq action_arguments_def done_io_def)
    have l: "sdkLog (snd (runCli e (Dispatch apiKey AgentsRun [agentId]
                        [Opt ''json'' j, Flag ''stream'', Opt ''timeoutMs'' v]) s)) =
          sdkLog s @ [Construct (ctor_opts e apiKey),
            Call ''runStreamingAgentAndWait''
              [Str agentId, body, Obj [(''timeoutMs'', Num NaN)]]]"
      using assms(2) h
      by (simp add: runCli_sdkLog bind_def c run_sdkLog agents_run_def param_def
          createClient_program_opts client_call_def printJson_eq Let_def str_opt_def
          readJsonInput_def done_io_def parse_json_def split: sum.splits)
    have x: "\<forall>r. Seclai_method e ''runStreamingAgentAndWait''
               [Str agentId, body, Obj [(''timeoutMs'', Num NaN)]] = Inr r \<longrightarrow>
          fst (runCli e (Dispatch apiKey AgentsRun [agentId]
                 [Opt ''json'' j, Flag ''stream'', Opt ''timeoutMs'' v]) s) = Inr 0
          \<and> stderr (snd (runCli e (Dispatch apiKey AgentsRun [agentId]
                           [Opt ''json'' j, Flag ''stream'', Opt ''timeoutMs'' v]) s)) = stderr s"
      using assms(2) h
      by (simp add: runCli_def bind_def c run_def try_catch_def agents_run_def param_def
          createClient_program_opts client_call_def printJson_eq Let_def str_opt_def
          readJsonInput_def done_io_def parse_json_def setExitCode_def)
    from l x show "(sdkLog (snd (runCli e (Dispatch apiKey AgentsRun [agentId]
                        [Opt ''json'' j, Flag ''stream'', Opt ''timeoutMs'' v]) s)) =
          sdkLog s @ [Construct (ctor_opts e apiKey),
            Call ''runStreamingAgentAndWait''
              [Str agentId, body, Obj [(''timeoutMs'', Num NaN)]]])
      \<and> (\<forall>r. Seclai_method e ''runStreamingAgentAndWait''
               [Str agentId, body, Obj [(''timeoutMs'', Num NaN)]] = Inr r \<longrightarrow>
          fst (runCli e (Dispatch apiKey AgentsRun [agentId]
                 [Opt ''json'' j, Flag ''stream'', Opt ''timeoutMs'' v]) s) = Inr 0
          \<and> stderr (snd (runCli e (Dispatch apiKey AgentsRun [agentId]
                           [Opt ''json'' j, Flag ''stream'', Opt ''timeoutMs'' v]) s)) = stderr s)"
      by (rule conjI)
  qed
  have tn: "JSON_parse (js e) j = Inr body \<and> j \<noteq> ''-'' \<longrightarrow>
       sdkLog (snd (runCli e (Dispatch apiKey AgentsRun [agentId]
                       [Opt ''json'' j, Opt ''timeoutMs'' v]) s)) =
         sdkLog s @ [Construct (ctor_opts e apiKey),
           Call ''runAgent''
             [Str agentId, body]]
       \<and> (\<forall>r. Seclai_method e ''runAgent''
                 [Str agentId, body] = Inr r \<longrightarrow>
            fst (runCli e (Dispatch apiKey AgentsRun [agentId]
                   [Opt ''json'' j, Opt ''timeoutMs'' v]) s) = Inr 0
            \<and> stderr (snd (runCli e (Dispatch apiKey AgentsRun [agentId]
                             [Opt ''json'' j, Opt ''timeoutMs'' v]) s)) = stderr s)"
  proof (intro impI, elim conjE)
    assume h: "JSON_parse (js e) j = Inr body" "j \<noteq> ''-''"
    have c: "commander_leaf e AgentsRun [agentId]
               [Opt ''json'' j, Opt ''timeoutMs'' v] s' =
             (Inr [Str agentId,
                   Obj [(''json'', Str j), (''timeoutMs'', Num NaN)],
                   CommandObj], s')" for s'
      using assms(1) by (simp add: commander_leaf_eq action_arguments_def done_io_def)
    have l: "sdkLog (snd (runCli e (Dispatch apiKey AgentsRun [agentId]
                        [Opt ''json'' j, Opt ''timeoutMs'' v]) s)) =
          sdkLog s @ [Construct (ctor_opts e apiKey),
            Call ''runAgent''
              [Str agentId, body]]"
      using assms(2) h
      by (simp add: runCli_sdkLog bind_def c run_sdkLog agents_run_def param_def
          createClient_program_opts client_call_def printJson_eq Let_def str_opt_def
          readJsonInput_def done_io_def parse_json_def split: sum.splits)
    have x: "\<forall>r. Seclai_method e ''runAgent''
               [Str agentId, body] = Inr r \<longrightarrow>
          fst (runCli e (Dispatch apiKey AgentsRun [agentId]
                 [Opt ''json'' j, Opt ''timeoutMs'' v]) s) = Inr 0
          \<and> stderr (snd (runCli e (Dispatch apiKey AgentsRun [agentId]
                           [Opt ''json'' j, Opt ''timeoutMs'' v]) s)) = stderr s"
      using assms(2) h
      by (simp add: runCli_def bind_def c run_def try_catch_def agents_run_def param_def
          createClient_program_opts client_call_def printJson_eq Let_def str_opt_def
          readJsonInput_def done_io_def parse_json_def setExitCode_def)
    from l x show "(sdkLog (snd (runCli e (Dispatch apiKey AgentsRun [agentId]
                        [Opt ''json'' j, Opt ''timeoutMs'' v]) s)) =
          sdkLog s @ [Construct (ctor_opts e apiKey),
            Call ''runAgent''
              [Str agentId, body]])
      \<and> (\<forall>r. Seclai_method e ''runAgent''
               [Str agentId, body] = Inr r \<longrightarrow>
          fst (runCli e (Dispatch apiKey AgentsRun [agentId]
                 [Opt ''json'' j, Opt ''timeoutMs'' v]) s) = Inr 0
          \<and> stderr (snd (runCli e (Dispatch apiKey AgentsRun [agentId]
                           [Opt ''json'' j, Opt ''timeoutMs'' v]) s)) = stderr s)"
      by (rule conjI)
  qed
  show ?thesis
    apply (rule conjI, rule enum)
    apply (rule conjI, rule parse)
    apply (rule conjI, rule sp_log)
    apply (rule conjI, rule sp_exit)
    apply (rule conjI, rule sl_log)
    apply (rule conjI, rule sl_exit)
    apply (rule conjI, rule rp_log)
    apply (rule conjI, rule rp_exit)
    apply (rule conjI, rule rl_log)
    apply (rule conjI, rule rl_exit)
    apply (rule conjI, rule gs_log)
    apply (rule conjI, rule gs_exit)
    apply (rule conjI, rule ge_log)
    apply (rule conjI, rule ge_exit)
    apply (rule conjI, rule ep_log)
    apply (rule conjI, rule ep_exit)
    apply (rule conjI, rule el_log)
    apply (rule conjI, rule el_exit)
    apply (rule conjI, rule ts)
    apply (rule tn)
    done
qed

theorem numeric_option_passes_NaN_witness:
  "parse_flag test_env SourcesList (Opt ''page'' ''abc'') = Inr (''page'', Num NaN)
   \<and> sdkLog (snd (runCli test_env (Dispatch (Some ''k'') SourcesList []
                     [Opt ''page'' ''abc'']) initial)) =
       [Construct (Obj [(''apiKey'', Str ''k''), (''baseUrl'', Str ''https://api.seclai.com'')]),
        Call ''listSources'' [Obj [(''page'', Num NaN), (''limit'', Undefined),
                                   (''sort'', Undefined), (''order'', Undefined), (''accountId'', Undefined)]]]
   \<and> fst (runCli test_env (Dispatch (Some ''k'') SourcesList []
             [Opt ''page'' ''abc'']) initial) = Inr 0
   \<and> stderr (snd (runCli test_env (Dispatch (Some ''k'') SourcesList []
                     [Opt ''page'' ''abc'']) initial)) = []
   \<and> sdkLog (snd (runCli test_env (Dispatch (Some ''k'') AgentsRunsList [''agent_1'']
                     [Opt ''page'' ''abc'']) initial)) =
       [Construct (Obj [(''apiKey'', Str ''k''), (''baseUrl'', Str ''https://api.seclai.com'')]),
        Call ''listAgentRuns'' [Str ''agent_1'', Obj [(''page'', Num NaN), (''limit'', Undefined)]]]
   \<and> fst (runCli test_env (Dispatch (Some ''k'') AgentsRunsList [''agent_1'']
             [Opt ''page'' ''abc'']) initial) = Inr 0
   \<and> stderr (snd (runCli test_env (Dispatch (Some ''k'') AgentsRunsList [''agent_1'']
                     [Opt ''page'' ''abc'']) initial)) = []
   \<and> sdkLog (snd (runCli test_env (Dispatch (Some ''k'') ContentsGet [''cv_1'']
                     [Opt ''start'' ''abc'']) initial)) =
       [Construct (Obj [(''apiKey'', Str ''k''), (''baseUrl'', Str ''https://api.seclai.com'')]),
        Call ''getContentDetail'' [Str ''cv_1'', Obj [(''start'', Num NaN), (''end'', Undefined)]]]
   \<and> fst (runCli test_env (Dispatch (Some ''k'') ContentsGet [''cv_1'']
             [Opt ''start'' ''abc'']) initial) = Inr 0
   \<and> stderr (snd (runCli test_env (Dispatch (Some ''k'') ContentsGet [''cv_1'']
                     [Opt ''start'' ''abc'']) initial)) = []
   \<and> sdkLog (snd (runCli test_env (Dispatch (Some ''k'') ContentsEmbeddings [''cv_1'']
                     [Opt ''limit'' ''abc'']) initial)) =
       [Construct (Obj [(''apiKey'', Str ''k''), (''baseUrl'', Str ''https://api.seclai.com'')]),
        Call ''listContentEmbeddings'' [Str ''cv_1'', Obj [(''page'', Undefined), (''limit'', Num NaN)]]]
   \<and> fst (runCli test_env (Dispatch (Some ''k'') ContentsEmbeddings [''cv_1'']
             [Opt ''limit'' ''abc'']) initial) = Inr 0
   \<and> stderr (snd (runCli test_env (Dispatch (Some ''k'') ContentsEmbeddings [''cv_1'']
                     [Opt ''limit'' ''abc'']) initial)) = []
   \<and> sdkLog (snd (runCli test_env (Dispatch (Some ''k'') AgentsRun [''agent_1'']
                     [Opt ''json'' ''{}'', Flag ''stream'', Opt ''timeoutMs'' ''abc'']) initial)) =
       [Construct (Obj [(''apiKey'', Str ''k''), (''baseUrl'', Str ''https://api.seclai.com'')]),
        Call ''runStreamingAgentAndWait'' [Str ''agent_1'', Obj [], Obj [(''timeoutMs'', Num NaN)]]]
   \<and> fst (runCli test_env (Dispatch (Some ''k'') AgentsRun [''agent_1'']
             [Opt ''json'' ''{}'', Flag ''stream'', Opt ''timeoutMs'' ''abc'']) initial) = Inr 0
   \<and> stderr (snd (runCli test_env (Dispatch (Some ''k'') AgentsRun [''agent_1'']
                     [Opt ''json'' ''{}'', Flag ''stream'', Opt ''timeoutMs'' ''abc'']) initial)) = []"
proof -
  have c: "ctor_opts test_env (Some ''k'') =
             Obj [(''apiKey'', Str ''k''), (''baseUrl'', Str ''https://api.seclai.com'')]"
    by (simp add: ctor_opts_def test_env_def)
  have n: "Number (js test_env) ''abc'' = NaN" by (simp add: test_env_def test_js_def)
  have h: "Seclai_new test_env (ctor_opts test_env (Some ''k'')) = None"
    unfolding c by (simp add: test_env_def)
  have d: "map_of (declared_options SourcesList) ''page'' = Some Numeric" by simp
  have b: "has_runStreamingAgentAndWait test_env
             \<and> JSON_parse (js test_env) ''{}'' = Inr (Obj []) \<and> ''{}'' \<noteq> ''-''"
    by (simp add: test_env_def test_js_def trim_newlines_def)
  have m:
    "Seclai_method test_env ''listSources'' [Obj [(''page'', Num NaN), (''limit'', Undefined),
                                                  (''sort'', Undefined), (''order'', Undefined), (''accountId'', Undefined)]] =
       Inr (Obj [(''ok'', Bool True)])"
    "Seclai_method test_env ''listAgentRuns'' [Str ''agent_1'', Obj [(''page'', Num NaN), (''limit'', Undefined)]] =
       Inr (Obj [(''ok'', Bool True)])"
    "Seclai_method test_env ''getContentDetail'' [Str ''cv_1'', Obj [(''start'', Num NaN), (''end'', Undefined)]] =
       Inr (Obj [(''ok'', Bool True)])"
    "Seclai_method test_env ''listContentEmbeddings'' [Str ''cv_1'', Obj [(''page'', Undefined), (''limit'', Num NaN)]] =
       Inr (Obj [(''ok'', Bool True)])"
    "Seclai_method test_env ''runStreamingAgentAndWait'' [Str ''agent_1'', Obj [], Obj [(''timeoutMs'', Num NaN)]] =
       Inr (Obj [(''ok'', Bool True)])"
    by (simp_all add: test_env_def)
  note t = numeric_option_passes_NaN[OF n h, where l = SourcesList and k = "''page''"
             and s = initial and j = "''{}''" and body = "Obj []" and agentId = "''agent_1''"
             and cv = "''cv_1''"]
  show ?thesis
    using t d b m unfolding c by (simp add: initial_def)
qed

end
